(* ===== verification/Prelude.thy ===== *)
theory Prelude
  imports Main
begin

text \<open>
  What every component of the broker's model shares: the outcome of a Go call
  (a value, an error, or a panic), actions that pass an explicit state and stop
  at the first failure as the code's \<open>if err != nil { return ... }\<close> does, and
  generic list lemmas. The equations an action is evaluated with are collected in
  \<open>act_simps\<close>; it is inverted with the \<open>seq_eq\<close> rules.
\<close>

named_theorems act_simps "equations that evaluate actions"

section \<open>Outcomes of Go calls\<close>

text \<open>
  A Go function that returns \<open>(T, error)\<close> ends with a value, with a non-nil error,
  or it panics. \<open>Err\<close> and \<open>Panic\<close> differ: an error is handled by the caller (a
  rollback, a mapped status), a panic unwinds every caller.
\<close>

datatype ('e, 'a) go = Ok 'a | Err 'e | Panic

fun is_ok :: "('e, 'a) go \<Rightarrow> bool" where
  "is_ok (Ok _) = True"
| "is_ok (Err _) = False"
| "is_ok Panic = False"

fun bind_go :: "('e, 'a) go \<Rightarrow> ('a \<Rightarrow> ('e, 'b) go) \<Rightarrow> ('e, 'b) go" where
  "bind_go (Ok a) f = f a"
| "bind_go (Err e) f = Err e"
| "bind_go Panic f = Panic"

fun map_err :: "('e \<Rightarrow> 'f) \<Rightarrow> ('e, 'a) go \<Rightarrow> ('f, 'a) go" where
  "map_err h (Ok a) = Ok a"
| "map_err h (Err e) = Err (h e)"
| "map_err h Panic = Panic"

fun go_of_sum :: "'e + 'a \<Rightarrow> ('e, 'a) go" where
  "go_of_sum (Inl e) = Err e"
| "go_of_sum (Inr a) = Ok a"

fun go_of_option :: "'a option \<Rightarrow> ('e, 'a) go" where
  "go_of_option None = Panic"
| "go_of_option (Some a) = Ok a"

lemma is_ok_iff: "is_ok r \<longleftrightarrow> (\<exists>a. r = Ok a)"
  by (cases r) auto

lemma bind_go_eq_Ok [simp]: "bind_go r f = Ok b \<longleftrightarrow> (\<exists>a. r = Ok a \<and> f a = Ok b)"
  by (cases r) auto

lemma bind_go_eq_Err: "bind_go r f = Err e \<longleftrightarrow> r = Err e \<or> (\<exists>a. r = Ok a \<and> f a = Err e)"
  by (cases r) auto

lemma bind_go_eq_Panic: "bind_go r f = Panic \<longleftrightarrow> r = Panic \<or> (\<exists>a. r = Ok a \<and> f a = Panic)"
  by (cases r) auto

lemma map_err_eq_Ok [simp]: "map_err h r = Ok a \<longleftrightarrow> r = Ok a"
  by (cases r) auto

lemma map_err_eq_Err [simp]: "map_err h r = Err f \<longleftrightarrow> (\<exists>e. r = Err e \<and> f = h e)"
  by (cases r) auto

lemma map_err_eq_Panic [simp]: "map_err h r = Panic \<longleftrightarrow> r = Panic"
  by (cases r) auto

lemma go_of_sum_eq_Ok [simp]: "go_of_sum s = Ok a \<longleftrightarrow> s = Inr a"
  by (cases s) auto

lemma go_of_sum_eq_Err [simp]: "go_of_sum s = Err e \<longleftrightarrow> s = Inl e"
  by (cases s) auto

lemma go_of_sum_not_Panic [simp]: "go_of_sum s \<noteq> Panic"
  by (cases s) auto

lemma go_of_option_eq_Ok [simp]: "go_of_option x = Ok a \<longleftrightarrow> x = Some a"
  by (cases x) auto

section \<open>Actions on an explicit state\<close>

text \<open>
  An action takes the state and returns its outcome with the state it leaves. The
  state changes made before a failure stay: Go has no transaction around a handler.
\<close>

type_synonym ('s, 'e, 'a) act = "'s \<Rightarrow> ('e, 'a) go \<times> 's"

definition ret :: "'a \<Rightarrow> ('s, 'e, 'a) act" where
  "ret a = (\<lambda>s. (Ok a, s))"

definition fail :: "'e \<Rightarrow> ('s, 'e, 'a) act" where
  "fail e = (\<lambda>s. (Err e, s))"

definition lift :: "('e, 'a) go \<Rightarrow> ('s, 'e, 'a) act" where
  "lift r = (\<lambda>s. (r, s))"

definition seq :: "('s, 'e, 'a) act \<Rightarrow> ('a \<Rightarrow> ('s, 'e, 'b) act) \<Rightarrow> ('s, 'e, 'b) act" where
  "seq m f = (\<lambda>s. case m s of
       (Ok a, s') \<Rightarrow> f a s'
     | (Err e, s') \<Rightarrow> (Err e, s')
     | (Panic, s') \<Rightarrow> (Panic, s'))"

definition on_err :: "('e \<Rightarrow> 'f) \<Rightarrow> ('s, 'e, 'a) act \<Rightarrow> ('s, 'f, 'a) act" where
  "on_err h m = (\<lambda>s. case m s of (r, s') \<Rightarrow> (map_err h r, s'))"

lemma ret_apply [simp, act_simps]: "ret a s = (Ok a, s)"
  by (simp add: ret_def)

lemma fail_apply [simp, act_simps]: "fail e s = (Err e, s)"
  by (simp add: fail_def)

lemma lift_apply [simp, act_simps]: "lift r s = (r, s)"
  by (simp add: lift_def)

lemma seq_Ok [act_simps]: "m s = (Ok a, s') \<Longrightarrow> seq m f s = f a s'"
  by (simp add: seq_def)

lemma seq_Err [act_simps]: "m s = (Err e, s') \<Longrightarrow> seq m f s = (Err e, s')"
  by (simp add: seq_def)

lemma seq_Panic [act_simps]: "m s = (Panic, s') \<Longrightarrow> seq m f s = (Panic, s')"
  by (simp add: seq_def)

lemma seq_eq_Ok:
  "seq m f s = (Ok b, t) \<longleftrightarrow> (\<exists>a s'. m s = (Ok a, s') \<and> f a s' = (Ok b, t))"
  by (auto simp: seq_def split: prod.splits go.splits)

lemma seq_eq_Err:
  "seq m f s = (Err e, t) \<longleftrightarrow>
     m s = (Err e, t) \<or> (\<exists>a s'. m s = (Ok a, s') \<and> f a s' = (Err e, t))"
  by (auto simp: seq_def split: prod.splits go.splits)

lemma seq_eq_Panic:
  "seq m f s = (Panic, t) \<longleftrightarrow>
     m s = (Panic, t) \<or> (\<exists>a s'. m s = (Ok a, s') \<and> f a s' = (Panic, t))"
  by (auto simp: seq_def split: prod.splits go.splits)

lemma seq_assoc: "seq (seq m f) g = seq m (\<lambda>x. seq (f x) g)"
  by (auto simp: seq_def fun_eq_iff split: prod.splits go.splits)

lemma seq_ret: "seq m ret = m"
  by (auto simp: seq_def fun_eq_iff split: prod.splits go.splits)

lemma on_err_eq_Ok [simp]: "on_err h m s = (Ok a, t) \<longleftrightarrow> m s = (Ok a, t)"
  by (auto simp: on_err_def split: prod.splits)

lemma on_err_eq_Err: "on_err h m s = (Err f, t) \<longleftrightarrow> (\<exists>e. m s = (Err e, t) \<and> f = h e)"
  by (auto simp: on_err_def split: prod.splits)

lemma on_err_eq_Panic [simp]: "on_err h m s = (Panic, t) \<longleftrightarrow> m s = (Panic, t)"
  by (auto simp: on_err_def split: prod.splits)

text \<open>
  An action keeps a predicate on states when every state it can leave satisfies it,
  whatever the outcome.
\<close>

definition keeps :: "('s \<Rightarrow> bool) \<Rightarrow> ('s, 'e, 'a) act \<Rightarrow> bool" where
  "keeps P m \<longleftrightarrow> (\<forall>s. P s \<longrightarrow> P (snd (m s)))"

lemma keepsI: "(\<And>s. P s \<Longrightarrow> P (snd (m s))) \<Longrightarrow> keeps P m"
  by (simp add: keeps_def)

lemma keepsD: "keeps P m \<Longrightarrow> P s \<Longrightarrow> m s = (r, t) \<Longrightarrow> P t"
  by (auto simp: keeps_def dest: spec [of _ s])

lemma keeps_ret [simp]: "keeps P (ret a)"
  by (simp add: keeps_def)

lemma keeps_fail [simp]: "keeps P (fail e)"
  by (simp add: keeps_def)

lemma keeps_lift [simp]: "keeps P (lift r)"
  by (simp add: keeps_def)

lemma keeps_seq: "keeps P m \<Longrightarrow> (\<And>a. keeps P (f a)) \<Longrightarrow> keeps P (seq m f)"
  by (fastforce simp: keeps_def seq_def split: prod.splits go.splits)

lemma keeps_on_err [simp]: "keeps P (on_err h m) \<longleftrightarrow> keeps P m"
  by (simp add: keeps_def on_err_def split_beta)

section \<open>Lists\<close>

lemma set_concat_map: "set (concat (map f xs)) = (\<Union>x\<in>set xs. set (f x))"
  by auto

lemma list_all_take: "list_all P xs \<Longrightarrow> list_all P (take n xs)"
  by (auto simp: list_all_iff dest: in_set_takeD)

lemma find_Some_iff_mem: "List.find P xs = Some x \<Longrightarrow> x \<in> set xs \<and> P x"
  by (auto simp: find_Some_iff)

end
