(* ===== verification/Go_Strings.thy ===== *)
theory Go_Strings
  imports Prelude "HOL-Library.Char_ord"
begin

text \<open>
  The pieces of Go's \<open>strings\<close>, \<open>strconv\<close>, \<open>unicode/utf8\<close>, \<open>encoding/hex\<close> and
  \<open>net/url\<close> packages that the broker calls. A Go string is a list of bytes, so it
  is a \<open>string\<close> here, one \<open>char\<close> per byte. Functions that work by rune first cut
  the bytes into runes (\<open>runes\<close>).
\<close>

section \<open>Bytes and ASCII classes\<close>

definition is_lower :: "char \<Rightarrow> bool" where
  "is_lower c \<longleftrightarrow> CHR ''a'' \<le> c \<and> c \<le> CHR ''z''"

definition is_upper :: "char \<Rightarrow> bool" where
  "is_upper c \<longleftrightarrow> CHR ''A'' \<le> c \<and> c \<le> CHR ''Z''"

definition is_digit :: "char \<Rightarrow> bool" where
  "is_digit c \<longleftrightarrow> CHR ''0'' \<le> c \<and> c \<le> CHR ''9''"

definition is_alnum :: "char \<Rightarrow> bool" where
  "is_alnum c \<longleftrightarrow> is_lower c \<or> is_upper c \<or> is_digit c"

definition is_ascii :: "char \<Rightarrow> bool" where
  "is_ascii c \<longleftrightarrow> c < CHR 0x80"

definition byte_between :: "nat \<Rightarrow> nat \<Rightarrow> char \<Rightarrow> bool" where
  "byte_between lo hi c \<longleftrightarrow> lo \<le> of_char c \<and> of_char c \<le> hi"

text \<open>The bytes \<open>unicode.IsSpace\<close> accepts below 0x80.\<close>

definition is_space :: "char \<Rightarrow> bool" where
  "is_space c \<longleftrightarrow> c \<in> {CHR '' '', CHR 0x09, CHR 0x0A, CHR 0x0B, CHR 0x0C, CHR 0x0D}"

lemma of_char_le_iff: "(of_char c :: nat) \<le> of_char d \<longleftrightarrow> c \<le> d"
  by (simp add: less_eq_char_def)

lemma is_space_ascii: "is_space c \<Longrightarrow> is_ascii c"
  by (auto simp: is_space_def is_ascii_def)


text \<open>The classes by character code, which arithmetic decides.\<close>

lemma class_codes:
  "is_lower c \<longleftrightarrow> 97 \<le> (of_char c :: nat) \<and> (of_char c :: nat) \<le> 122"
  "is_upper c \<longleftrightarrow> 65 \<le> (of_char c :: nat) \<and> (of_char c :: nat) \<le> 90"
  "is_digit c \<longleftrightarrow> 48 \<le> (of_char c :: nat) \<and> (of_char c :: nat) \<le> 57"
  "is_ascii c \<longleftrightarrow> (of_char c :: nat) < 128"
  by (simp_all add: is_lower_def is_upper_def is_digit_def is_ascii_def less_eq_char_def
      less_char_def)

lemma of_char_eq_iff: "m < 256 \<Longrightarrow> (of_char b :: nat) = m \<longleftrightarrow> b = char_of m"
  by (metis char_of_char mod_less of_char_of)

lemma is_alnum_ascii: "is_alnum c \<Longrightarrow> is_ascii c"
  by (auto simp: is_alnum_def class_codes)

section \<open>Runes\<close>

text \<open>
  \<open>utf8.DecodeRune\<close>: the number of bytes of the first rune, by the accept ranges of
  the package (no overlong forms, no surrogates, nothing past U+10FFFF). An invalid
  byte is a rune of width 1.
\<close>

definition cont :: "char \<Rightarrow> bool" where
  "cont = byte_between 0x80 0xBF"

definition second_ok :: "nat \<Rightarrow> char \<Rightarrow> bool" where
  "second_ok b = (if b = 0xE0 then byte_between 0xA0 0xBF
     else if b = 0xED then byte_between 0x80 0x9F
     else if b = 0xF0 then byte_between 0x90 0xBF
     else if b = 0xF4 then byte_between 0x80 0x8F
     else cont)"

definition rune_len :: "string \<Rightarrow> nat" where
  "rune_len s = (case s of [] \<Rightarrow> 0 | c # cs \<Rightarrow>
     (let b = (of_char c :: nat) in
      if 0xC2 \<le> b \<and> b \<le> 0xDF \<and> 1 \<le> length cs \<and> cont (cs ! 0) then 2
      else if 0xE0 \<le> b \<and> b \<le> 0xEF \<and> 2 \<le> length cs \<and> second_ok b (cs ! 0) \<and> cont (cs ! 1) then 3
      else if 0xF0 \<le> b \<and> b \<le> 0xF4 \<and> 3 \<le> length cs \<and> second_ok b (cs ! 0)
              \<and> cont (cs ! 1) \<and> cont (cs ! 2) then 4
      else 1))"

lemma rune_len_pos [simp]: "s \<noteq> [] \<Longrightarrow> 0 < rune_len s"
  by (auto simp: rune_len_def Let_def split: list.splits)

lemma rune_len_le: "rune_len s \<le> length s"
  by (auto simp: rune_len_def Let_def split: list.splits)

lemma rune_len_ascii: "is_ascii c \<Longrightarrow> rune_len (c # cs) = 1"
proof -
  assume "is_ascii c"
  then have "(of_char c :: nat) < 0x80"
    by (simp add: is_ascii_def less_char_def)
  then show ?thesis by (simp add: rune_len_def Let_def)
qed

function runes :: "string \<Rightarrow> string list" where
  "runes [] = []"
| "runes (c # cs) = take (rune_len (c # cs)) (c # cs) # runes (drop (rune_len (c # cs)) (c # cs))"
  by pat_completeness auto
termination
  by (relation "measure length") (auto simp: rune_len_pos)

declare runes.simps(2) [simp del]

lemma concat_runes [simp]: "concat (runes s) = s"
  by (induction s rule: runes.induct) (simp_all add: runes.simps(2))

lemma runes_ascii: "list_all is_ascii s \<Longrightarrow> runes s = map (\<lambda>c. [c]) s"
  by (induction s) (simp_all add: runes.simps(2) rune_len_ascii)

text \<open>The white space of \<open>unicode.IsSpace\<close>, as runes.\<close>

definition rune_space :: "string \<Rightarrow> bool" where
  "rune_space r \<longleftrightarrow> (\<exists>c\<in>set r. r = [c] \<and> is_space c)
     \<or> r \<in> {[CHR 0xC2, CHR 0x85], [CHR 0xC2, CHR 0xA0], [CHR 0xE1, CHR 0x9A, CHR 0x80],
            [CHR 0xE2, CHR 0x80, CHR 0xA8], [CHR 0xE2, CHR 0x80, CHR 0xA9],
            [CHR 0xE2, CHR 0x80, CHR 0xAF], [CHR 0xE2, CHR 0x81, CHR 0x9F],
            [CHR 0xE3, CHR 0x80, CHR 0x80]}
     \<or> (length r = 3 \<and> take 2 r = [CHR 0xE2, CHR 0x80] \<and> byte_between 0x80 0x8A (r ! 2))"

lemma rune_space_single [simp]: "rune_space [c] = is_space c"
  by (simp add: rune_space_def)

section \<open>Cutting, trimming and joining\<close>

text \<open>
  \<open>strings.Split\<close> with a one-byte separator, over any alphabet: the pieces between
  the elements that satisfy \<open>p\<close>, empty ones included.
\<close>

fun split_on :: "('a \<Rightarrow> bool) \<Rightarrow> 'a list \<Rightarrow> 'a list list" where
  "split_on p [] = [[]]"
| "split_on p (x # xs) = (if p x then [] # split_on p xs
     else (case split_on p xs of [] \<Rightarrow> [[x]] | y # ys \<Rightarrow> (x # y) # ys))"

definition trim :: "('a \<Rightarrow> bool) \<Rightarrow> 'a list \<Rightarrow> 'a list" where
  "trim p xs = rev (dropWhile p (rev (dropWhile p xs)))"

text \<open>\<open>strings.Fields\<close>: the non-empty pieces between runs of white space.\<close>

definition fields_on :: "('a \<Rightarrow> bool) \<Rightarrow> 'a list \<Rightarrow> 'a list list" where
  "fields_on p xs = filter (\<lambda>y. y \<noteq> []) (split_on p xs)"

text \<open>\<open>strings.Join\<close>.\<close>

fun join :: "'a list \<Rightarrow> 'a list list \<Rightarrow> 'a list" where
  "join sep [] = []"
| "join sep [x] = x"
| "join sep (x # y # ys) = x @ sep @ join sep (y # ys)"

definition trim_space :: "string \<Rightarrow> string" where
  "trim_space s = concat (trim rune_space (runes s))"

definition fields_space :: "string \<Rightarrow> string list" where
  "fields_space s = map concat (fields_on rune_space (runes s))"

text \<open>\<open>strings.ReplaceAll\<close> of a one-byte old string.\<close>

definition replace_all :: "char \<Rightarrow> string \<Rightarrow> string \<Rightarrow> string" where
  "replace_all c r s = concat (map (\<lambda>x. if x = c then r else [x]) s)"

definition has_prefix :: "string \<Rightarrow> string \<Rightarrow> bool" where
  "has_prefix p s \<longleftrightarrow> take (length p) s = p"

lemma split_on_not_Nil [simp]: "split_on p xs \<noteq> []"
  by (induction xs) (auto split: list.splits)

lemma split_on_none: "\<forall>x\<in>set xs. \<not> p x \<Longrightarrow> split_on p xs = [xs]"
  by (induction xs) auto

lemma split_on_pieces: "ys \<in> set (split_on p xs) \<Longrightarrow> x \<in> set ys \<Longrightarrow> \<not> p x \<and> x \<in> set xs"
  by (induction xs arbitrary: ys) (auto split: if_splits list.splits, force+)

lemma split_on_append_sep:
  "p x \<Longrightarrow> split_on p (xs @ x # ys) = split_on p xs @ split_on p ys"
proof (induction xs)
  case Nil
  then show ?case by simp
next
  case (Cons a xs)
  then show ?case by (cases "split_on p xs") auto
qed

lemma join_split_on: "join [c] (split_on (\<lambda>x. x = c) xs) = xs"
proof (induction xs)
  case Nil
  then show ?case by simp
next
  case (Cons a xs)
  obtain y ys where "split_on (\<lambda>x. x = c) xs = y # ys"
    by (cases "split_on (\<lambda>x. x = c) xs") auto
  with Cons show ?case by (cases ys) auto
qed

lemma dropWhile_none: "\<forall>x\<in>set xs. \<not> p x \<Longrightarrow> dropWhile p xs = xs"
  by (cases xs) auto

lemma trim_none: "\<forall>x\<in>set xs. \<not> p x \<Longrightarrow> trim p xs = xs"
  by (simp add: trim_def dropWhile_none)

lemma set_trim: "set (trim p xs) \<subseteq> set xs"
  unfolding trim_def by (metis set_dropWhileD set_rev subsetI)

lemma trim_space_ascii: "list_all is_ascii s \<Longrightarrow> trim_space s = trim is_space s"
proof -
  have *: "dropWhile rune_space (map (\<lambda>c. [c]) xs) = map (\<lambda>c. [c]) (dropWhile is_space xs)" for xs
    by (induction xs) auto
  assume "list_all is_ascii s"
  then show ?thesis
    by (simp add: trim_space_def trim_def runes_ascii * rev_map concat_map_singleton)
qed

lemma split_on_map:
  "split_on p (map f xs) = map (map f) (split_on (p \<circ> f) xs)"
  by (induction xs) (auto split: list.splits)

lemma fields_space_ascii: "list_all is_ascii s \<Longrightarrow> fields_space s = fields_on is_space s"
  by (simp add: fields_space_def fields_on_def runes_ascii split_on_map filter_map comp_def
      concat_map_singleton)

subsection \<open>Cutting commutes with substitution\<close>

text \<open>
  Replacing each element \<open>x\<close> by the non-empty list \<open>h x\<close> commutes with cutting and
  trimming, when \<open>h\<close> maps separators to separators and puts none elsewhere. This is
  what lets a template be cut before its variables are filled in.
\<close>

definition sep_hom :: "('a \<Rightarrow> bool) \<Rightarrow> ('b \<Rightarrow> bool) \<Rightarrow> ('a \<Rightarrow> 'b list) \<Rightarrow> 'a \<Rightarrow> bool" where
  "sep_hom p q h x \<longleftrightarrow> (if p x then \<exists>c. h x = [c] \<and> q c
     else h x \<noteq> [] \<and> (\<forall>c\<in>set (h x). \<not> q c))"

abbreviation subst :: "('a \<Rightarrow> 'b list) \<Rightarrow> 'a list \<Rightarrow> 'b list" where
  "subst h xs \<equiv> concat (map h xs)"

lemma split_on_no_sep_append:
  "\<forall>c\<in>set us. \<not> q c \<Longrightarrow> split_on q vs = y # ys \<Longrightarrow> split_on q (us @ vs) = (us @ y) # ys"
  by (induction us) auto

lemma split_on_subst:
  "\<forall>x\<in>set xs. sep_hom p q h x \<Longrightarrow> split_on q (subst h xs) = map (subst h) (split_on p xs)"
proof (induction xs)
  case Nil
  then show ?case by simp
next
  case (Cons x xs)
  then have IH: "split_on q (subst h xs) = map (subst h) (split_on p xs)" by simp
  obtain y ys where yys: "split_on p xs = y # ys" by (cases "split_on p xs") auto
  show ?case
  proof (cases "p x")
    case True
    with Cons.prems obtain c where "h x = [c]" "q c" by (auto simp: sep_hom_def)
    with True IH show ?thesis by simp
  next
    case False
    with Cons.prems have "\<forall>c\<in>set (h x). \<not> q c" by (auto simp: sep_hom_def)
    with split_on_no_sep_append [OF this, of "subst h xs" "subst h y" "map (subst h) ys"]
    show ?thesis using False IH yys by simp
  qed
qed

lemma dropWhile_subst:
  "\<forall>x\<in>set xs. sep_hom p q h x \<Longrightarrow> dropWhile q (subst h xs) = subst h (dropWhile p xs)"
proof (induction xs)
  case Nil
  then show ?case by simp
next
  case (Cons x xs)
  show ?case
  proof (cases "p x")
    case True
    with Cons show ?thesis by (auto simp: sep_hom_def)
  next
    case False
    with Cons.prems obtain c cs where "h x = c # cs" "\<not> q c"
      by (cases "h x") (auto simp: sep_hom_def)
    with False show ?thesis by simp
  qed
qed

lemma rev_subst: "rev (subst h xs) = subst (rev \<circ> h) (rev xs)"
  by (simp add: rev_concat rev_map)

lemma sep_hom_rev: "sep_hom p q h x \<Longrightarrow> sep_hom p q (rev \<circ> h) x"
  by (auto simp: sep_hom_def split: if_splits)

lemma trim_subst:
  assumes "\<forall>x\<in>set xs. sep_hom p q h x"
  shows "trim q (subst h xs) = subst h (trim p xs)"
proof -
  let ?r = "rev (dropWhile p xs)"
  have "\<forall>x\<in>set ?r. sep_hom p q (rev \<circ> h) x"
    using assms by (auto dest: set_dropWhileD intro: sep_hom_rev)
  then have "dropWhile q (subst (rev \<circ> h) ?r) = subst (rev \<circ> h) (dropWhile p ?r)"
    by (rule dropWhile_subst)
  then show ?thesis
    using assms by (simp add: trim_def dropWhile_subst rev_subst)
      (simp add: rev_concat rev_map comp_def)
qed

lemma subst_eq_Nil: "\<forall>x\<in>set xs. h x \<noteq> [] \<Longrightarrow> subst h xs = [] \<longleftrightarrow> xs = []"
  by (cases xs) auto

lemma fields_subst:
  assumes "\<forall>x\<in>set xs. sep_hom p q h x"
  shows "fields_on q (subst h xs) = map (subst h) (fields_on p xs)"
proof -
  have "\<forall>x\<in>set xs. h x \<noteq> []"
    using assms by (auto simp: sep_hom_def split: if_splits)
  then have "\<forall>ys\<in>set (split_on p xs). subst h ys \<noteq> [] \<longleftrightarrow> ys \<noteq> []"
    by (metis split_on_pieces subst_eq_Nil)
  then show ?thesis
    by (simp add: fields_on_def split_on_subst [OF assms] filter_map comp_def cong: filter_cong)
qed

lemma join_subst: "subst h (join sep xss) = join (subst h sep) (map (subst h) xss)"
  by (induction sep xss rule: join.induct) auto

section \<open>Numbers and hexadecimal digits\<close>

definition digit_char :: "nat \<Rightarrow> char" where
  "digit_char d = (if d < 10 then char_of (48 + d) else char_of (87 + d))"

definition upper_hex :: "nat \<Rightarrow> char" where
  "upper_hex d = (if d < 10 then char_of (48 + d) else char_of (55 + d))"

fun nat_text :: "nat \<Rightarrow> string" where
  "nat_text n = (if n < 10 then [digit_char n] else nat_text (n div 10) @ [digit_char (n mod 10)])"

declare nat_text.simps [simp del]

text \<open>\<open>fmt.Sprintf("%d", n)\<close>.\<close>

definition int_text :: "int \<Rightarrow> string" where
  "int_text n = (if n < 0 then CHR ''-'' # nat_text (nat (- n)) else nat_text (nat n))"

text \<open>\<open>hex.EncodeToString\<close>.\<close>

definition hex_text :: "nat list \<Rightarrow> string" where
  "hex_text bs = concat (map (\<lambda>b. [digit_char (b div 16), digit_char (b mod 16)]) bs)"

lemma length_hex_text [simp]: "length (hex_text bs) = 2 * length bs"
  by (induction bs) (simp_all add: hex_text_def)

lemma is_digit_digit_char: "d < 10 \<Longrightarrow> is_digit (digit_char d)"
  by (simp add: digit_char_def class_codes)

lemma hex_digit_char: "d < 16 \<Longrightarrow> is_digit (digit_char d) \<or> is_lower (digit_char d)"
  by (simp add: digit_char_def class_codes)

lemma hex_text_chars:
  assumes "\<forall>b\<in>set bs. b < 256" and "c \<in> set (hex_text bs)"
  shows "is_digit c \<or> is_lower c"
proof -
  from assms obtain b where "b < 256" "c = digit_char (b div 16) \<or> c = digit_char (b mod 16)"
    by (auto simp: hex_text_def)
  moreover from \<open>b < 256\<close> have "b div 16 < 16" "b mod 16 < 16"
    by (simp_all add: less_mult_imp_div_less)
  ultimately show ?thesis using hex_digit_char by blast
qed

lemma nat_text_digits: "c \<in> set (nat_text n) \<Longrightarrow> is_digit c"
proof (induction n rule: nat_text.induct)
  case (1 n)
  then show ?case
    by (subst (asm) (2) nat_text.simps) (auto split: if_splits intro: is_digit_digit_char)
qed

lemma nat_text_not_Nil [simp]: "nat_text n \<noteq> []"
  by (subst nat_text.simps) simp

lemma int_text_not_Nil [simp]: "int_text n \<noteq> []"
  by (simp add: int_text_def)

text \<open>The digits read back to the number, so distinct numbers have distinct texts.\<close>

definition read_nat :: "string \<Rightarrow> nat" where
  "read_nat s = foldl (\<lambda>n c. 10 * n + (of_char c - 48)) 0 s"

lemma of_char_digit_char: "d < 10 \<Longrightarrow> (of_char (digit_char d) :: nat) = 48 + d"
  by (simp add: digit_char_def)

lemma read_nat_text [simp]: "read_nat (nat_text n) = n"
proof (induction n rule: nat_text.induct)
  case (1 n)
  show ?case
  proof (cases "n < 10")
    case True
    then show ?thesis
      by (subst nat_text.simps) (simp add: read_nat_def of_char_digit_char)
  next
    case False
    with 1 have "read_nat (nat_text (n div 10)) = n div 10" by simp
    with False show ?thesis
      by (subst nat_text.simps) (simp add: read_nat_def of_char_digit_char)
  qed
qed

section \<open>Escaping in URLs\<close>

text \<open>
  The modes of \<open>net/url\<close>'s \<open>shouldEscape\<close> that the broker reaches: a query
  component (\<open>url.QueryEscape\<close>, \<open>Values.Encode\<close>), user information, a host and a
  path (\<open>URL.String\<close>).
\<close>

datatype url_mode = QueryComponent | UserPassword | Host | Path

definition sub_delims_host :: "string" where
  "sub_delims_host = [CHR ''!'', CHR ''$'', CHR ''&'', CHR 0x27, CHR ''('', CHR '')'', CHR ''*'',
     CHR ''+'', CHR '','', CHR '';'', CHR ''='', CHR '':'', CHR ''['', CHR '']'', CHR ''<'', CHR ''>'', CHR 0x22]"

definition should_escape :: "url_mode \<Rightarrow> char \<Rightarrow> bool" where
  "should_escape m c = (
     if is_alnum c then False
     else if m = Host \<and> c \<in> set sub_delims_host then False
     else if c \<in> set ''-_.~'' then False
     else if c \<in> set ''$&+,/:;=?@'' then
       (case m of
          QueryComponent \<Rightarrow> True
        | UserPassword \<Rightarrow> c \<in> set ''@/?:''
        | Path \<Rightarrow> c = CHR ''?''
        | Host \<Rightarrow> True)
     else True)"

definition escape_byte :: "url_mode \<Rightarrow> char \<Rightarrow> string" where
  "escape_byte m c = (
     if should_escape m c then
       (if c = CHR '' '' \<and> m = QueryComponent then ''+''
        else [CHR ''%'', upper_hex (of_char c div 16), upper_hex (of_char c mod 16)])
     else [c])"

definition url_escape :: "url_mode \<Rightarrow> string \<Rightarrow> string" where
  "url_escape m s = concat (map (escape_byte m) s)"

text \<open>
  \<open>unescape\<close> of \<open>net/url\<close>, the reader's side of every mode (\<open>url.QueryUnescape\<close>,
  \<open>url.PathUnescape\<close>, \<open>url.Parse\<close>): \<open>None\<close> where it returns an error. A host is read
  strictly: only bytes beyond ASCII and \<open>%\<close> itself may be escaped, and an ASCII byte that
  would have to be escaped is an error.
\<close>

definition unhex :: "char \<Rightarrow> nat option" where
  "unhex c = (let b = (of_char c :: nat) in
     if 48 \<le> b \<and> b \<le> 57 then Some (b - 48)
     else if 65 \<le> b \<and> b \<le> 70 then Some (b - 55)
     else if 97 \<le> b \<and> b \<le> 102 then Some (b - 87)
     else None)"

fun url_unescape :: "url_mode \<Rightarrow> string \<Rightarrow> string option" where
  "url_unescape m [] = Some []"
| "url_unescape m (c # cs) = (
     if c = CHR ''%'' then
       (case cs of
          x # y # rest \<Rightarrow>
            (case (unhex x, unhex y, url_unescape m rest) of
               (Some hi, Some lo, Some r) \<Rightarrow>
                 if m = Host \<and> hi < 8 \<and> [x, y] \<noteq> ''25'' then None else Some (char_of (16 * hi + lo) # r)
             | _ \<Rightarrow> None)
        | _ \<Rightarrow> None)
     else if m = Host \<and> of_char c < (128 :: nat) \<and> should_escape m c then None
     else map_option (Cons (if c = CHR ''+'' \<and> m = QueryComponent then CHR '' '' else c))
            (url_unescape m cs))"

lemma unhex_upper_hex: "d < 16 \<Longrightarrow> unhex (upper_hex d) = Some d"
  by (auto simp: unhex_def upper_hex_def Let_def)

lemma should_escape_percent: "should_escape m (CHR ''%'')"
  by (cases m) (simp_all add: should_escape_def is_alnum_def is_lower_def is_upper_def
      is_digit_def sub_delims_host_def)

lemma should_escape_plus: "should_escape QueryComponent (CHR ''+'')"
  by (simp add: should_escape_def is_alnum_def is_lower_def is_upper_def is_digit_def)

text \<open>The bytes that a host can hold and be read back.\<close>

definition host_byte :: "char \<Rightarrow> bool" where
  "host_byte c \<longleftrightarrow> \<not> should_escape Host c \<or> c = CHR ''%'' \<or> 128 \<le> (of_char c :: nat)"

lemma upper_hex_25: "[upper_hex (of_char c div 16), upper_hex (of_char c mod 16)] = ''25'' \<longleftrightarrow> c = CHR ''%''"
proof
  have digits: "x div 16 = 2 \<Longrightarrow> x mod 16 = 5 \<Longrightarrow> x = 37" for x :: nat by presburger
  have lt: "(of_char c :: nat) div 16 < 16" "(of_char c :: nat) mod 16 < 16"
    by (simp_all add: less_mult_imp_div_less)
  assume "[upper_hex (of_char c div 16), upper_hex (of_char c mod 16)] = ''25''"
  then have "unhex (upper_hex (of_char c div 16)) = unhex (CHR ''2'')"
    "unhex (upper_hex (of_char c mod 16)) = unhex (CHR ''5'')" by simp_all
  then have "(of_char c :: nat) div 16 = 2" "(of_char c :: nat) mod 16 = 5"
    using lt by (simp_all add: unhex_upper_hex) (simp_all add: unhex_def)
  then have "(of_char c :: nat) = of_char (CHR ''%'')" using digits [of "of_char c"] by simp
  then show "c = CHR ''%''" by (metis char_of_char)
next
  assume "c = CHR ''%''"
  then show "[upper_hex (of_char c div 16), upper_hex (of_char c mod 16)] = ''25''"
    by (simp only:) code_simp
qed

lemma url_unescape_triple:
  assumes "unhex x = Some hi" and "unhex y = Some lo"
  shows "url_unescape m (CHR ''%'' # x # y # s) = (if m = Host \<and> hi < 8 \<and> [x, y] \<noteq> ''25'' then None
     else map_option (Cons (char_of (16 * hi + lo))) (url_unescape m s))"
  using assms by (cases "url_unescape m s") simp_all

lemma url_unescape_byte:
  "url_unescape m (escape_byte m c @ s)
     = (if m = Host \<and> \<not> host_byte c then None else map_option (Cons c) (url_unescape m s))"
proof (cases "should_escape m c")
  case True
  have c16: "16 * (of_char c div 16) + of_char c mod 16 = (of_char c :: nat)" by simp
  have lt: "(of_char c :: nat) div 16 < 16" "(of_char c :: nat) mod 16 < 16"
    by (simp_all add: less_mult_imp_div_less)
  show ?thesis
  proof (cases "c = CHR '' '' \<and> m = QueryComponent")
    case True
    with \<open>should_escape m c\<close> show ?thesis by (simp add: escape_byte_def)
  next
    case False
    have strict: "(m = Host \<and> (of_char c :: nat) div 16 < 8
        \<and> [upper_hex (of_char c div 16), upper_hex (of_char c mod 16)] \<noteq> ''25'') \<longleftrightarrow> m = Host \<and> \<not> host_byte c"
      using \<open>should_escape m c\<close> unfolding upper_hex_25 host_byte_def by auto
    have "escape_byte m c = [CHR ''%'', upper_hex (of_char c div 16), upper_hex (of_char c mod 16)]"
      using False \<open>should_escape m c\<close> by (simp add: escape_byte_def)
    then show ?thesis
      using url_unescape_triple [OF unhex_upper_hex [OF lt(1)] unhex_upper_hex [OF lt(2)], of m s]
      unfolding strict c16 char_of_char by simp
  qed
next
  case False
  then have "c \<noteq> CHR ''%''" and "\<not> (c = CHR ''+'' \<and> m = QueryComponent)"
    using should_escape_percent should_escape_plus by blast+
  with False show ?thesis by (auto simp: escape_byte_def host_byte_def)
qed

lemma url_unescape_escape [simp]: "m \<noteq> Host \<Longrightarrow> url_unescape m (url_escape m s) = Some s"
  by (induction s) (simp_all add: url_escape_def url_unescape_byte)

lemma host_unescape_escape:
  "url_unescape Host (url_escape Host s) = (if list_all host_byte s then Some s else None)"
  by (induction s) (simp_all add: url_escape_def url_unescape_byte)

lemma url_escape_inject: "m \<noteq> Host \<Longrightarrow> url_escape m s = url_escape m t \<longleftrightarrow> s = t"
  by (metis option.inject url_unescape_escape)

lemma upper_hex_alnum: "d < 16 \<Longrightarrow> is_alnum (upper_hex d)"
  by (auto simp: upper_hex_def is_alnum_def class_codes)

text \<open>Every byte of an escaped text is an unescaped byte of its mode, \<open>%\<close> or \<open>+\<close>.\<close>

lemma url_escape_chars:
  assumes "c \<in> set (url_escape m s)"
  shows "\<not> should_escape m c \<or> c = CHR ''%'' \<or> c = CHR ''+''"
proof -
  from assms obtain x where x: "x \<in> set s" "c \<in> set (escape_byte m x)"
    by (auto simp: url_escape_def)
  have lt: "(of_char x :: nat) div 16 < 16" "(of_char x :: nat) mod 16 < 16"
    by (simp_all add: less_mult_imp_div_less)
  have "is_alnum d \<Longrightarrow> \<not> should_escape m d" for d
    by (simp add: should_escape_def)
  with x lt show ?thesis
    by (auto simp: escape_byte_def upper_hex_alnum split: if_splits)
qed

end
