(* ===== verification/Names.thy ===== *)
theory Names
  imports Go_Strings Go_Sha256
begin

text \<open>
  \<open>names.go\<close>: every database object name and every generated secret. A slice out of
  range and a failed entropy source panic in Go; both are \<open>None\<close> here. The entropy
  source is the list of bytes \<open>rand.Reader\<close> still delivers; reading past its end is
  the read error the code turns into a panic.
\<close>

section \<open>Derived names\<close>

record names =
  n_Database :: string
  n_GroupRole :: string
  n_Tablespace :: string

definition maxIdentifier :: int where
  "maxIdentifier = 63"

text \<open>
  \<open>strings.ToLower\<close>, rune by rune. U+0130 and U+212A are the only runes outside ASCII
  whose lower case is an ASCII letter; an invalid byte becomes U+FFFD. Any other rune
  outside ASCII has a lower case outside ASCII, all of whose bytes the sanitizing
  pattern deletes, so its bytes are kept here as they are.
\<close>

definition lower_rune :: "string \<Rightarrow> string" where
  "lower_rune r = (case r of
      [c] \<Rightarrow> (if is_upper c then [char_of (of_char c + (32::nat))]
              else if is_ascii c then [c] else [CHR 0xEF, CHR 0xBF, CHR 0xBD])
    | _ \<Rightarrow> (if r = [CHR 0xC4, CHR 0xB0] then ''i''
            else if r = [CHR 0xE2, CHR 0x84, CHR 0xAA] then ''k'' else r))"

definition to_lower :: "string \<Rightarrow> string" where
  "to_lower s = concat (map lower_rune (runes s))"

text \<open>The complement of \<open>sanitizePattern\<close>: the runes it leaves.\<close>

definition name_char :: "char \<Rightarrow> bool" where
  "name_char c \<longleftrightarrow> is_lower c \<or> is_digit c \<or> c = CHR ''_''"

definition name_rune :: "string \<Rightarrow> bool" where
  "name_rune r \<longleftrightarrow> (\<exists>c\<in>set r. r = [c] \<and> name_char c)"

definition shortHash :: "string \<Rightarrow> string" where
  "shortHash iid = hex_text (take 6 (sha256 (map of_char iid)))"

definition sanitizeName :: "string \<Rightarrow> int \<Rightarrow> string option" where
  "sanitizeName name maxLen =
     (let cleaned = concat (filter name_rune (runes (to_lower name)))
      in if int (length cleaned) > maxLen
         then (if maxLen < 0 then None else Some (take (nat maxLen) cleaned))
         else Some cleaned)"

definition NamesFor :: "string \<Rightarrow> string \<Rightarrow> string \<Rightarrow> names option" where
  "NamesFor instanceID prefix customName =
     (case sanitizeName customName (maxIdentifier - int (length prefix) - 5) of
        None \<Rightarrow> None
      | Some name \<Rightarrow>
          (let base = (if name \<noteq> '''' then prefix @ ''_'' @ name
                       else prefix @ ''_'' @ shortHash instanceID)
           in Some \<lparr>n_Database = base, n_GroupRole = base @ ''_grp'', n_Tablespace = base @ ''_ts''\<rparr>))"

definition UserFor :: "string \<Rightarrow> string \<Rightarrow> string \<Rightarrow> string option" where
  "UserFor bindingID prefix customName =
     (case sanitizeName customName (maxIdentifier - int (length prefix) - 2) of
        None \<Rightarrow> None
      | Some name \<Rightarrow>
          Some (if name \<noteq> '''' then prefix @ ''u_'' @ name
                else prefix @ ''u_'' @ shortHash bindingID))"

definition quoteIdent :: "string \<Rightarrow> string" where
  "quoteIdent name = [CHR 0x22] @ replace_all (CHR 0x22) [CHR 0x22, CHR 0x22] name @ [CHR 0x22]"

definition quoteLiteral :: "string \<Rightarrow> string" where
  "quoteLiteral v = [CHR 0x27] @ replace_all (CHR 0x27) [CHR 0x27, CHR 0x27] v @ [CHR 0x27]"

section \<open>Generated passwords\<close>

definition passwordAlphabet :: string where
  "passwordAlphabet =
     ''abcdefghijklmnopqrstuvwxyzABCDEFGHIJKLMNOPQRSTUVWXYZ0123456789!#%*+-=?@^_~''"

fun bit_len :: "nat \<Rightarrow> nat" where
  "bit_len n = (if n = 0 then 0 else Suc (bit_len (n div 2)))"

declare bit_len.simps [simp del]

text \<open>
  \<open>rand.Int(rand.Reader, max)\<close> for a \<open>max\<close> of at most 256: one byte at a time, masked to
  the bits of \<open>max - 1\<close> and rejected when it is not below \<open>max\<close>.
\<close>

fun rand_int :: "nat \<Rightarrow> string \<Rightarrow> (nat \<times> string) option" where
  "rand_int mx [] = None"
| "rand_int mx (b # bs) = (let n = of_char b mod 2 ^ bit_len (mx - 1)
     in if n < mx then Some (n, bs) else rand_int mx bs)"

fun draw_chars :: "nat \<Rightarrow> string \<Rightarrow> (string \<times> string) option" where
  "draw_chars 0 pool = Some ([], pool)"
| "draw_chars (Suc k) pool =
     (case rand_int (length passwordAlphabet) pool of
        None \<Rightarrow> None
      | Some (n, pool') \<Rightarrow>
          (case draw_chars k pool' of
             None \<Rightarrow> None
           | Some (cs, pool'') \<Rightarrow> Some (passwordAlphabet ! n # cs, pool'')))"

definition has_all_classes :: "string \<Rightarrow> bool" where
  "has_all_classes pw \<longleftrightarrow>
     list_ex is_upper pw
   \<and> list_ex (\<lambda>c. \<not> is_upper c \<and> is_lower c) pw
   \<and> list_ex (\<lambda>c. \<not> is_upper c \<and> \<not> is_lower c \<and> is_digit c) pw
   \<and> list_ex (\<lambda>c. \<not> is_upper c \<and> \<not> is_lower c \<and> \<not> is_digit c) pw"

lemma rand_int_consumes: "rand_int mx pool = Some (n, pool') \<Longrightarrow> length pool' < length pool"
  by (induction mx pool rule: rand_int.induct) (auto simp: Let_def split: if_splits)

lemma draw_chars_consumes:
  "draw_chars k pool = Some (cs, pool') \<Longrightarrow> length pool' + k \<le> length pool"
proof (induction k arbitrary: pool cs)
  case 0
  then show ?case by simp
next
  case (Suc k)
  then obtain n pool1 cs' where "rand_int (length passwordAlphabet) pool = Some (n, pool1)"
    and "draw_chars k pool1 = Some (cs', pool')"
    by (auto split: option.splits prod.splits)
  with Suc.IH [of pool1 cs'] rand_int_consumes show ?case by fastforce
qed

function randomPassword :: "string \<Rightarrow> (string \<times> string) option" where
  "randomPassword pool =
     (case draw_chars 28 pool of
        None \<Rightarrow> None
      | Some (pw, pool') \<Rightarrow> if has_all_classes pw then Some (pw, pool') else randomPassword pool')"
  by pat_completeness auto
termination
  by (relation "measure length") (auto dest: draw_chars_consumes)

declare randomPassword.simps [simp del]

section \<open>What the names guarantee\<close>

lemma in_name_rune_iff: "name_rune r \<longleftrightarrow> (\<exists>c. r = [c] \<and> name_char c)"
  by (auto simp: name_rune_def)

lemma name_char_ascii: "name_char c \<Longrightarrow> is_ascii c"
  by (auto simp: name_char_def class_codes)

lemma cleaned_chars: "c \<in> set (concat (filter name_rune rs)) \<Longrightarrow> name_char c"
  by (auto simp: in_name_rune_iff)

lemma sanitizeName_Some:
  assumes "0 \<le> maxLen"
  obtains s where "sanitizeName name maxLen = Some s"
  using assms by (cases "int (length (concat (filter name_rune (runes (to_lower name))))) > maxLen")
    (auto simp: sanitizeName_def Let_def)

lemma sanitizeName_length:
  "sanitizeName name maxLen = Some s \<Longrightarrow> int (length s) \<le> maxLen"
  by (auto simp: sanitizeName_def Let_def split: if_splits)

lemma sanitizeName_chars:
  "sanitizeName name maxLen = Some s \<Longrightarrow> c \<in> set s \<Longrightarrow> name_char c"
  by (auto simp: sanitizeName_def Let_def split: if_splits dest!: in_set_takeD
      intro: cleaned_chars simp del: set_concat)

lemma length_shortHash [simp]: "length (shortHash iid) = 12"
  by (simp add: shortHash_def)

lemma shortHash_chars: "c \<in> set (shortHash iid) \<Longrightarrow> name_char c"
proof -
  assume c: "c \<in> set (shortHash iid)"
  have "\<forall>b\<in>set (take 6 (sha256 (map of_char iid))). b < 256"
    by (auto dest!: in_set_takeD sha256_bytes)
  then have "is_digit c \<or> is_lower c"
    using c unfolding shortHash_def by (rule hex_text_chars)
  then show ?thesis by (auto simp: name_char_def)
qed

text \<open>Sanitizing a text of name characters only cuts it.\<close>

lemma to_lower_name: "list_all name_char s \<Longrightarrow> to_lower s = s"
proof -
  assume s: "list_all name_char s"
  have "lower_rune [c] = [c]" if "name_char c" for c
    using that by (auto simp: lower_rune_def name_char_def class_codes)
  then have "map lower_rune (map (\<lambda>c. [c]) s) = map (\<lambda>c. [c]) s"
    using s by (simp add: list_all_iff)
  moreover have "runes s = map (\<lambda>c. [c]) s"
    using s by (intro runes_ascii) (auto simp: list_all_iff intro: name_char_ascii)
  ultimately show ?thesis by (simp add: to_lower_def concat_map_singleton del: map_map)
qed

lemma sanitizeName_of_clean:
  assumes "list_all name_char s" and "int (length s) \<le> maxLen"
  shows "sanitizeName s maxLen = Some s"
proof -
  have "runes s = map (\<lambda>c. [c]) s"
    using assms by (intro runes_ascii) (auto simp: list_all_iff intro: name_char_ascii)
  moreover have "filter name_rune (map (\<lambda>c. [c]) s) = map (\<lambda>c. [c]) s"
    using assms by (auto simp: list_all_iff in_name_rune_iff filter_id_conv)
  ultimately show ?thesis
    using assms by (simp add: sanitizeName_def to_lower_name concat_map_singleton)
qed

text \<open>Whatever the requested name, the base of the names is the prefix, \<open>_\<close> and a tail.\<close>

lemma NamesFor_cases:
  assumes "NamesFor iid pre cn = Some n"
  obtains tl where "n = \<lparr>n_Database = pre @ ''_'' @ tl, n_GroupRole = (pre @ ''_'' @ tl) @ ''_grp'',
      n_Tablespace = (pre @ ''_'' @ tl) @ ''_ts''\<rparr>"
    and "tl \<noteq> []" and "list_all name_char tl"
    and "length tl \<le> max 12 (nat (maxIdentifier - int (length pre) - 5))"
proof -
  from assms obtain s where s: "sanitizeName cn (maxIdentifier - int (length pre) - 5) = Some s"
    by (auto simp: NamesFor_def split: option.splits)
  let ?tl = "if s \<noteq> [] then s else shortHash iid"
  have "n = \<lparr>n_Database = pre @ ''_'' @ ?tl, n_GroupRole = (pre @ ''_'' @ ?tl) @ ''_grp'',
      n_Tablespace = (pre @ ''_'' @ ?tl) @ ''_ts''\<rparr>"
    using assms s by (auto simp: NamesFor_def Let_def)
  moreover have "?tl \<noteq> []"
    using length_shortHash [of iid] by (auto simp del: length_shortHash)
  moreover have "list_all name_char ?tl"
    using sanitizeName_chars [OF s] shortHash_chars by (auto simp: list_all_iff)
  moreover have "length ?tl \<le> max 12 (nat (maxIdentifier - int (length pre) - 5))"
    using sanitizeName_length [OF s] by auto
  ultimately show ?thesis by (rule that)
qed

lemma UserFor_cases:
  assumes "UserFor bid pre cn = Some u"
  obtains tl where "u = pre @ ''u_'' @ tl" and "tl \<noteq> []" and "list_all name_char tl"
    and "length tl \<le> max 12 (nat (maxIdentifier - int (length pre) - 2))"
proof -
  from assms obtain s where s: "sanitizeName cn (maxIdentifier - int (length pre) - 2) = Some s"
    by (auto simp: UserFor_def split: option.splits)
  let ?tl = "if s \<noteq> [] then s else shortHash bid"
  have "u = pre @ ''u_'' @ ?tl"
    using assms s by (auto simp: UserFor_def)
  moreover have "?tl \<noteq> []"
    using length_shortHash [of bid] by (auto simp del: length_shortHash)
  moreover have "list_all name_char ?tl"
    using sanitizeName_chars [OF s] shortHash_chars by (auto simp: list_all_iff)
  moreover have "length ?tl \<le> max 12 (nat (maxIdentifier - int (length pre) - 2))"
    using sanitizeName_length [OF s] by auto
  ultimately show ?thesis by (rule that)
qed

lemma NamesFor_returns:
  assumes "length pre \<le> 58" shows "\<exists>n. NamesFor iid pre cn = Some n"
proof -
  have "0 \<le> maxIdentifier - int (length pre) - 5" using assms by (simp add: maxIdentifier_def)
  then obtain s where "sanitizeName cn (maxIdentifier - int (length pre) - 5) = Some s"
    by (rule sanitizeName_Some)
  then show ?thesis by (simp add: NamesFor_def Let_def)
qed

lemma UserFor_returns:
  assumes "length pre \<le> 61" shows "\<exists>u. UserFor bid pre cn = Some u"
proof -
  have "0 \<le> maxIdentifier - int (length pre) - 2" using assms by (simp add: maxIdentifier_def)
  then obtain s where "sanitizeName cn (maxIdentifier - int (length pre) - 2) = Some s"
    by (rule sanitizeName_Some)
  then show ?thesis by (simp add: UserFor_def)
qed

section \<open>Reading quoted tokens\<close>

text \<open>
  The server's side of quoting: after the opening quote, read to the first quote that
  is not doubled, giving the value and the rest of the statement.
\<close>

fun read_quoted :: "char \<Rightarrow> string \<Rightarrow> (string \<times> string) option" where
  "read_quoted q [] = None"
| "read_quoted q (c # cs) =
     (if c = q then
        (case cs of
           d # ds \<Rightarrow> if d = q then map_option (map_prod (Cons q) id) (read_quoted q ds)
                    else Some ([], cs)
         | [] \<Rightarrow> Some ([], []))
      else map_option (map_prod (Cons c) id) (read_quoted q cs))"

lemma read_quoted_doubled:
  assumes "rest = [] \<or> hd rest \<noteq> q"
  shows "read_quoted q (replace_all q [q, q] v @ q # rest) = Some (v, rest)"
proof (induction v)
  case Nil
  then show ?case using assms by (cases rest) (auto simp: replace_all_def)
next
  case (Cons c v)
  then show ?case by (simp add: replace_all_def)
qed

lemma replace_all_none: "c \<notin> set s \<Longrightarrow> replace_all c r s = s"
  by (induction s) (auto simp: replace_all_def)

section \<open>The password generator\<close>

lemma rand_int_bound: "rand_int mx pool = Some (n, pool') \<Longrightarrow> n < mx"
  by (induction mx pool rule: rand_int.induct) (auto simp: Let_def split: if_splits)

lemma draw_chars_sound:
  "draw_chars k pool = Some (cs, pool') \<Longrightarrow> length cs = k \<and> set cs \<subseteq> set passwordAlphabet"
proof (induction k arbitrary: pool cs)
  case 0
  then show ?case by simp
next
  case (Suc k)
  then obtain n pool1 cs' where r: "rand_int (length passwordAlphabet) pool = Some (n, pool1)"
    and d: "draw_chars k pool1 = Some (cs', pool')" and cs: "cs = passwordAlphabet ! n # cs'"
    by (auto split: option.splits prod.splits)
  from r have "passwordAlphabet ! n \<in> set passwordAlphabet"
    by (auto intro: nth_mem dest: rand_int_bound)
  with Suc.IH [OF d] cs show ?case by simp
qed

lemma randomPassword_cases:
  "randomPassword pool = Some (pw, pool') \<Longrightarrow>
     has_all_classes pw \<and> length pw = 28 \<and> set pw \<subseteq> set passwordAlphabet"
proof (induction pool rule: randomPassword.induct)
  case (1 pool)
  from "1.prems" obtain pw1 pool1 where d: "draw_chars 28 pool = Some (pw1, pool1)"
    by (simp add: randomPassword.simps [of pool] split: option.splits prod.splits)
  show ?case
  proof (cases "has_all_classes pw1")
    case True
    with "1.prems" d show ?thesis
      by (simp add: randomPassword.simps [of pool] draw_chars_sound)
  next
    case False
    with "1.prems" d have "randomPassword pool1 = Some (pw, pool')"
      by (simp add: randomPassword.simps [of pool])
    with "1.IH" [OF d refl False] show ?thesis by simp
  qed
qed

text \<open>The successive rounds the entropy source pays for, accepted or not.\<close>

function candidates :: "string \<Rightarrow> string list" where
  "candidates pool = (case draw_chars 28 pool of
      None \<Rightarrow> []
    | Some (pw, pool') \<Rightarrow> pw # candidates pool')"
  by pat_completeness auto
termination
  by (relation "measure length") (auto dest: draw_chars_consumes)

declare candidates.simps [simp del]

lemma randomPassword_finds:
  "map_option fst (randomPassword pool) = List.find has_all_classes (candidates pool)"
proof (induction pool rule: randomPassword.induct)
  case (1 pool)
  show ?case
  proof (cases "draw_chars 28 pool")
    case None
    then show ?thesis by (simp add: randomPassword.simps [of pool] candidates.simps [of pool])
  next
    case (Some x)
    then obtain pw pool' where x: "draw_chars 28 pool = Some (pw, pool')" by (cases x) auto
    show ?thesis
    proof (cases "has_all_classes pw")
      case True
      with x show ?thesis by (simp add: randomPassword.simps [of pool] candidates.simps [of pool])
    next
      case False
      with x "1.IH" [of _ pw pool'] show ?thesis
        by (simp add: randomPassword.simps [of pool] candidates.simps [of pool])
    qed
  qed
qed

section \<open>Properties\<close>

text \<open>
  Claim C36. Every object name fits the server's 63-byte identifier limit: for a prefix
  of at most 46 bytes (configuration admits 30) the names of any instance and of any
  binding exist, whatever name was asked for, and none of the four is longer than
  \<open>maxIdentifier\<close>.
\<close>

theorem names_fit:
  assumes "length pre \<le> 46"
  shows "\<exists>n u. NamesFor iid pre cn = Some n \<and> UserFor bid pre bn = Some u
           \<and> int (length (n_Database n)) \<le> maxIdentifier
           \<and> int (length (n_GroupRole n)) \<le> maxIdentifier
           \<and> int (length (n_Tablespace n)) \<le> maxIdentifier
           \<and> int (length u) \<le> maxIdentifier"
proof -
  obtain n u where n: "NamesFor iid pre cn = Some n" and u: "UserFor bid pre bn = Some u"
    using NamesFor_returns [of pre iid cn] UserFor_returns [of pre bid bn] assms by auto
  have "int (length (n_Database n)) \<le> maxIdentifier
      \<and> int (length (n_GroupRole n)) \<le> maxIdentifier \<and> int (length (n_Tablespace n)) \<le> maxIdentifier"
    using n assms by (elim NamesFor_cases) (auto simp: maxIdentifier_def)
  moreover have "int (length u) \<le> maxIdentifier"
    using u assms by (elim UserFor_cases) (auto simp: maxIdentifier_def)
  ultimately show ?thesis using n u by blast
qed

theorem names_fit_witness:
  "\<exists>n u. NamesFor ''abc'' ''gdb'' (replicate 100 CHR ''x'') = Some n \<and> UserFor ''bid1'' ''gdb'' [] = Some u
     \<and> int (length (n_Database n)) \<le> maxIdentifier
     \<and> int (length (n_GroupRole n)) \<le> maxIdentifier
     \<and> int (length (n_Tablespace n)) \<le> maxIdentifier
     \<and> int (length u) \<le> maxIdentifier"
  by (rule names_fit) simp

text \<open>
  With one prefix, a binding user is never a database, group role or tablespace of any
  instance, so the user and group roles, which share one server namespace, cannot collide;
  and the three names of an instance determine each other.
\<close>

lemma user_apart:
  assumes "UserFor bid pre cn = Some u" and "NamesFor iid pre dn = Some n"
  shows "u \<noteq> n_Database n" and "u \<noteq> n_GroupRole n" and "u \<noteq> n_Tablespace n"
  using assms by (elim UserFor_cases NamesFor_cases; simp)+

lemma names_determined:
  assumes "NamesFor iid pre cn = Some n" and "NamesFor iid' pre cn' = Some n'"
  shows "n_GroupRole n = n_GroupRole n' \<longleftrightarrow> n_Database n = n_Database n'"
    and "n_Tablespace n = n_Tablespace n' \<longleftrightarrow> n_Database n = n_Database n'"
  using assms by (elim NamesFor_cases; simp)+

text \<open>
  Claim C28. Quoting is injection-proof: after its opening quote, a literal made by
  \<open>quoteLiteral\<close> or an identifier made by \<open>quoteIdent\<close> reads back as exactly the value
  that was quoted, and the statement goes on where the code put its next byte, for every
  value and for every continuation that does not start with the same quote.
\<close>

theorem quoting_reads_back:
  assumes "rest = [] \<or> hd rest \<noteq> CHR 0x27" and "tail = [] \<or> hd tail \<noteq> CHR 0x22"
  shows "read_quoted (CHR 0x27) (tl (quoteLiteral v @ rest)) = Some (v, rest)
       \<and> read_quoted (CHR 0x22) (tl (quoteIdent v @ tail)) = Some (v, tail)"
  using assms by (simp add: quoteLiteral_def quoteIdent_def read_quoted_doubled)

theorem quoting_reads_back_witness:
  "read_quoted (CHR 0x27) (tl (quoteLiteral ''a'' @ '' x'')) = Some (''a'', '' x'')
     \<and> read_quoted (CHR 0x22) (tl (quoteIdent ''a'' @ '' x'')) = Some (''a'', '' x'')"
  by (rule quoting_reads_back) simp_all

text \<open>The classes by their characters, and the alphabet as their union.\<close>

lemma alphabet_class:
  "list_all (\<lambda>c. (is_upper c \<longleftrightarrow> c \<in> set ''ABCDEFGHIJKLMNOPQRSTUVWXYZ'')
     \<and> (is_lower c \<longleftrightarrow> c \<in> set ''abcdefghijklmnopqrstuvwxyz'') \<and> (is_digit c \<longleftrightarrow> c \<in> set ''0123456789'')
     \<and> (is_upper c \<or> is_lower c \<or> is_digit c \<or> c \<in> set ''!#%*+-=?@^_~'')) passwordAlphabet"
  by code_simp

lemma alphabet_classes:
  "set passwordAlphabet \<subseteq> set ''abcdefghijklmnopqrstuvwxyz'' \<union> set ''ABCDEFGHIJKLMNOPQRSTUVWXYZ''
     \<union> set ''0123456789'' \<union> set ''!#%*+-=?@^_~''"
  using alphabet_class unfolding list_all_iff by blast

lemma classes_met:
  assumes "has_all_classes pw" and "set pw \<subseteq> set passwordAlphabet"
  shows "\<exists>c\<in>set pw. c \<in> set ''ABCDEFGHIJKLMNOPQRSTUVWXYZ''" "\<exists>c\<in>set pw. c \<in> set ''abcdefghijklmnopqrstuvwxyz''"
    "\<exists>c\<in>set pw. c \<in> set ''0123456789''" "\<exists>c\<in>set pw. c \<in> set ''!#%*+-=?@^_~''"
proof -
  from assms(1) have "list_ex is_upper pw" "list_ex (\<lambda>c. \<not> is_upper c \<and> is_lower c) pw"
    "list_ex (\<lambda>c. \<not> is_upper c \<and> \<not> is_lower c \<and> is_digit c) pw"
    "list_ex (\<lambda>c. \<not> is_upper c \<and> \<not> is_lower c \<and> \<not> is_digit c) pw"
    by (simp_all only: has_all_classes_def)
  then obtain u l d x where m: "u \<in> set pw" "is_upper u" "l \<in> set pw" "is_lower l" "d \<in> set pw" "is_digit d"
    "x \<in> set pw" "\<not> is_upper x" "\<not> is_lower x" "\<not> is_digit x" unfolding list_ex_iff by blast
  have c: "(is_upper c \<longleftrightarrow> c \<in> set ''ABCDEFGHIJKLMNOPQRSTUVWXYZ'')
     \<and> (is_lower c \<longleftrightarrow> c \<in> set ''abcdefghijklmnopqrstuvwxyz'') \<and> (is_digit c \<longleftrightarrow> c \<in> set ''0123456789'')
     \<and> (is_upper c \<or> is_lower c \<or> is_digit c \<or> c \<in> set ''!#%*+-=?@^_~'')" if "c \<in> set pw" for c
    using alphabet_class subsetD [OF assms(2) that] unfolding list_all_iff by (rule bspec)
  show "\<exists>c\<in>set pw. c \<in> set ''ABCDEFGHIJKLMNOPQRSTUVWXYZ''" by (rule bexI [OF _ m(1)]) (use c [OF m(1)] m(2) in argo)
  show "\<exists>c\<in>set pw. c \<in> set ''abcdefghijklmnopqrstuvwxyz''" by (rule bexI [OF _ m(3)]) (use c [OF m(3)] m(4) in argo)
  show "\<exists>c\<in>set pw. c \<in> set ''0123456789''" by (rule bexI [OF _ m(5)]) (use c [OF m(5)] m(6) in argo)
  show "\<exists>c\<in>set pw. c \<in> set ''!#%*+-=?@^_~''" by (rule bexI [OF _ m(7)]) (use c [OF m(7)] m(8-10) in argo)
qed

text \<open>
  Claim C37. A generated password has 28 characters; it has a lower-case letter, an upper-case
  letter, a digit and one of \<open>!#%*+-=?@^_~\<close>, and no character of any other kind; and its SQL
  literal is itself between two single quotes: no character of it is doubled.
\<close>

theorem password_sound:
  assumes "randomPassword pool = Some (pw, pool')"
  shows "length pw = 28
       \<and> (\<exists>c\<in>set pw. c \<in> set ''abcdefghijklmnopqrstuvwxyz'')
       \<and> (\<exists>c\<in>set pw. c \<in> set ''ABCDEFGHIJKLMNOPQRSTUVWXYZ'')
       \<and> (\<exists>c\<in>set pw. c \<in> set ''0123456789'')
       \<and> (\<exists>c\<in>set pw. c \<in> set ''!#%*+-=?@^_~'')
       \<and> set pw \<subseteq> set ''abcdefghijklmnopqrstuvwxyz'' \<union> set ''ABCDEFGHIJKLMNOPQRSTUVWXYZ''
           \<union> set ''0123456789'' \<union> set ''!#%*+-=?@^_~''
       \<and> quoteLiteral pw = [CHR 0x27] @ pw @ [CHR 0x27]"
proof -
  have pw: "length pw = 28" "set pw \<subseteq> set passwordAlphabet" "has_all_classes pw"
    using randomPassword_cases [OF assms] by simp_all
  moreover have "CHR 0x27 \<notin> set pw" using pw(2) by (auto simp: passwordAlphabet_def)
  then have "quoteLiteral pw = [CHR 0x27] @ pw @ [CHR 0x27]" by (simp add: quoteLiteral_def replace_all_none)
  ultimately show ?thesis
    using classes_met [OF pw(3,2)] order.trans [OF pw(2) alphabet_classes] by blast
qed

definition sample_pool :: string where
  "sample_pool = map char_of [0::nat, 26, 52, 62] @ replicate 24 (CHR 0x00)"

lemma sample_pool_draws: "draw_chars 28 sample_pool = Some (''aA0!'' @ replicate 24 CHR ''a'', [])"
  by code_simp

lemma sample_pool_password:
  "randomPassword sample_pool = Some (''aA0!'' @ replicate 24 CHR ''a'', [])"
  by (simp add: randomPassword.simps [of sample_pool] sample_pool_draws has_all_classes_def class_codes)

theorem password_sound_witness:
  "\<exists>pw pool'. randomPassword sample_pool = Some (pw, pool') \<and> length pw = 28
     \<and> (\<exists>c\<in>set pw. c \<in> set ''!#%*+-=?@^_~'') \<and> quoteLiteral pw = [CHR 0x27] @ pw @ [CHR 0x27]"
  using password_sound [OF sample_pool_password] sample_pool_password by blast

text \<open>
  Claim C38. The password loop returns exactly when the entropy source pays for an
  accepted round: the result is the first accepted one of the successive rounds, and
  it panics only when the source fails before any.
\<close>

theorem password_first_accepted:
  "map_option fst (randomPassword pool) = List.find has_all_classes (candidates pool)"
  by (rule randomPassword_finds)

text \<open>
  The choice of a character is unbiased: each index of the alphabet is
  selected by exactly two of the 256 values of an entropy byte, all others are rejected.
\<close>

lemma password_unbiased:
  assumes "i < length passwordAlphabet"
  shows "card {b. rand_int (length passwordAlphabet) [b] = Some (i, [])} = 2"
proof -
  have len: "length passwordAlphabet = 74" by (simp add: passwordAlphabet_def)
  have "bit_len 73 = 7" by (simp add: bit_len.simps)
  then have "rand_int 74 [b] = Some (i, []) \<longleftrightarrow> of_char b mod 128 = i" for b
    using assms len by (auto simp: Let_def)
  then have "{b. rand_int 74 [b] = Some (i, [])} = {b. of_char b mod 128 = i}" by simp
  also have "\<dots> = {char_of i, char_of (i + 128)}"
  proof -
    have i: "i < 128" using assms len by simp
    have "of_char b mod 128 = i \<longleftrightarrow> (of_char b :: nat) = i \<or> (of_char b :: nat) = i + 128" for b :: char
    proof -
      have "(of_char b :: nat) - 128 < 128" using nat_of_char_less_256 [of b] by linarith
      then have "(of_char b - 128) mod 128 = (of_char b :: nat) - 128" by (rule mod_less)
      with i show ?thesis
        by (cases "(of_char b :: nat) < 128") (auto simp: le_mod_geq)
    qed
    moreover have "(of_char b :: nat) = m \<longleftrightarrow> b = char_of m" if "m < 256" for b :: char and m
      using that by (rule of_char_eq_iff)
    ultimately show ?thesis using i by auto
  qed
  also have "card \<dots> = 2"
    using assms len by (auto simp: card_insert_if)
  finally show ?thesis by (simp add: len)
qed

end
