(* ===== verification/Config.thy ===== *)
theory Config
  imports Names
begin

text \<open>
  \<open>config.go\<close>: the environment variables, parsed once into a \<open>config\<close>. The process
  environment is a parameter: \<open>getenv\<close> is \<open>os.Getenv\<close>, the empty string for an unset
  variable. An error is a constructor per message of the file.
\<close>

section \<open>The configuration and its errors\<close>

record config =
  DBHost :: string
  DBPort :: int
  DBUser :: string
  DBPassword :: string
  DBAdminName :: string
  DBSSLMode :: string
  DBConnTimeout :: int
  PlansFile :: string
  TemplateDir :: string
  TablespacePrefix :: string
  BrokerUsername :: string
  BrokerPassword :: string
  StatePath :: string
  StateDSN :: string
  EncryptionKey :: string
  EncryptionKeyPrevious :: string
  NamePrefix :: string
  HTTPHost :: string
  HTTPPort :: int

datatype config_err =
    NotWholeNumber string string
  | BadLocationPrefix
  | BadNamePrefix
  | NoBrokerPassword
  | PreviousKeyWithoutKey

section \<open>Reading one variable\<close>

text \<open>\<open>strconv.Atoi\<close>: an optional sign, at least one digit, and the range of a 64-bit int.\<close>

definition atoi :: "string \<Rightarrow> int option" where
  "atoi s =
     (let neg = (take 1 s = ''-''); ds = (if take 1 s \<in> {''-'', ''+''} then drop 1 s else s)
      in if ds = [] \<or> \<not> list_all is_digit ds then None
         else (let n = (if neg then - int (read_nat ds) else int (read_nat ds))
               in if - (2 ^ 63) \<le> n \<and> n < 2 ^ 63 then Some n else None))"

definition env_str :: "(string \<Rightarrow> string) \<Rightarrow> string \<Rightarrow> string \<Rightarrow> string" where
  "env_str getenv key fallback = (if getenv key \<noteq> '''' then getenv key else fallback)"

definition envInt :: "(string \<Rightarrow> string) \<Rightarrow> string \<Rightarrow> int \<Rightarrow> (config_err, int) go" where
  "envInt getenv key fallback =
     (if getenv key = '''' then Ok fallback
      else (case atoi (getenv key) of
              None \<Rightarrow> Err (NotWholeNumber key (getenv key))
            | Some n \<Rightarrow> Ok n))"

text \<open>The two patterns of the file, as bool-valued functions.\<close>

definition namePrefixPattern :: "string \<Rightarrow> bool" where
  "namePrefixPattern s = (case s of [] \<Rightarrow> False
     | c # cs \<Rightarrow> is_lower c \<and> list_all name_char cs \<and> length cs \<le> 29)"

definition locationPrefixPattern :: "string \<Rightarrow> bool" where
  "locationPrefixPattern s \<longleftrightarrow>
     1 \<le> length s \<and> length s \<le> 32 \<and> list_all (\<lambda>c. is_alnum c \<or> c = CHR ''_'' \<or> c = CHR ''-'') s"

section \<open>Loading\<close>

definition LoadConfig :: "(string \<Rightarrow> string) \<Rightarrow> (config_err, config) go" where
  "LoadConfig getenv =
     bind_go (envInt getenv ''GAUSSDB_PORT'' 5432) (\<lambda>dbPort.
     bind_go (envInt getenv ''GAUSSDB_CONNECT_TIMEOUT'' 10) (\<lambda>connTimeout.
     bind_go (envInt getenv ''BROKER_PORT'' 5000) (\<lambda>brokerPort.
     let cfg = \<lparr>
           DBHost = env_str getenv ''GAUSSDB_HOST'' ''localhost'',
           DBPort = dbPort,
           DBUser = env_str getenv ''GAUSSDB_ADMIN_USER'' ''gaussdb'',
           DBPassword = getenv ''GAUSSDB_ADMIN_PASSWORD'',
           DBAdminName = env_str getenv ''GAUSSDB_ADMIN_DB'' ''postgres'',
           DBSSLMode = env_str getenv ''GAUSSDB_SSLMODE'' ''disable'',
           DBConnTimeout = connTimeout,
           PlansFile = env_str getenv ''GAUSSDB_PLANS_FILE'' ''plans.toml'',
           TemplateDir = getenv ''TEMPLATE_DIR'',
           TablespacePrefix = trim (\<lambda>c. c = CHR ''/'')
             (env_str getenv ''GAUSSDB_TABLESPACE_LOCATION_PREFIX'' ''broker''),
           BrokerUsername = env_str getenv ''BROKER_USERNAME'' ''broker'',
           BrokerPassword = getenv ''BROKER_PASSWORD'',
           StatePath = env_str getenv ''STATE_DB_PATH'' ''osb-opengauss-state.db'',
           StateDSN = getenv ''STATE_DSN'',
           EncryptionKey = getenv ''STATE_ENCRYPTION_KEY'',
           EncryptionKeyPrevious = getenv ''STATE_ENCRYPTION_KEY_PREVIOUS'',
           NamePrefix = env_str getenv ''GAUSSDB_NAME_PREFIX'' ''gdb'',
           HTTPHost = env_str getenv ''BROKER_HOST'' ''127.0.0.1'',
           HTTPPort = brokerPort\<rparr>
     in if \<not> locationPrefixPattern (TablespacePrefix cfg) then Err BadLocationPrefix
        else if \<not> namePrefixPattern (NamePrefix cfg) then Err BadNamePrefix
        else if BrokerPassword cfg = '''' then Err NoBrokerPassword
        else if EncryptionKeyPrevious cfg \<noteq> '''' \<and> EncryptionKey cfg = '''' then Err PreviousKeyWithoutKey
        else Ok cfg)))"

section \<open>What a loaded configuration guarantees\<close>

definition config_ok :: "config \<Rightarrow> bool" where
  "config_ok cfg \<longleftrightarrow>
     namePrefixPattern (NamePrefix cfg)
   \<and> locationPrefixPattern (TablespacePrefix cfg)
   \<and> BrokerPassword cfg \<noteq> ''''
   \<and> (EncryptionKeyPrevious cfg = '''' \<or> EncryptionKey cfg \<noteq> '''')"

lemma envInt_not_Panic [simp]: "envInt getenv key fallback \<noteq> Panic"
  by (simp add: envInt_def split: option.splits)

lemma LoadConfig_not_Panic: "LoadConfig getenv \<noteq> Panic"
proof -
  have bind: "bind_go r f = Panic \<longleftrightarrow> r = Panic \<or> (\<exists>a. r = Ok a \<and> f a = Panic)"
    for r :: "('e, 'a) go" and f :: "'a \<Rightarrow> ('e, 'b) go"
    by (cases r) auto
  show ?thesis by (simp add: LoadConfig_def bind Let_def)
qed

lemma namePrefixPattern_length: "namePrefixPattern p \<Longrightarrow> 1 \<le> length p \<and> length p \<le> 30"
  by (simp add: namePrefixPattern_def split: list.splits)

lemma namePrefixPattern_chars: "namePrefixPattern p \<Longrightarrow> list_all name_char p"
  by (auto simp: namePrefixPattern_def name_char_def split: list.splits)

lemma LoadConfig_config_ok: "LoadConfig getenv = Ok cfg \<Longrightarrow> config_ok cfg"
  by (auto simp: LoadConfig_def Let_def config_ok_def split: if_splits)

lemma envInt_ok: "is_ok (envInt getenv key d) \<longleftrightarrow> getenv key = '''' \<or> (\<exists>n. atoi (getenv key) = Some n)"
  by (simp add: envInt_def split: option.splits)

lemma name_chars_plain: "list_all name_char s \<Longrightarrow> quoteIdent s = [CHR 0x22] @ s @ [CHR 0x22]"
  by (auto simp: quoteIdent_def list_all_iff name_char_def class_codes intro!: replace_all_none)

section \<open>Properties\<close>

text \<open>
  Claim C39. \<open>LoadConfig\<close> never panics, and it returns a configuration exactly when the
  three numeric variables are unset or whole numbers of 64 bits, both prefixes match
  their patterns after defaults and trimming, the API password is set, and a retired
  key does not stand alone.
\<close>

theorem config_loads_iff:
  "LoadConfig getenv \<noteq> Panic \<and>
   (is_ok (LoadConfig getenv) \<longleftrightarrow>
      (\<nexists>key. key \<in> {''GAUSSDB_PORT'', ''GAUSSDB_CONNECT_TIMEOUT'', ''BROKER_PORT''}
              \<and> getenv key \<noteq> '''' \<and> atoi (getenv key) = None)
    \<and> locationPrefixPattern (trim (\<lambda>c. c = CHR ''/'')
        (env_str getenv ''GAUSSDB_TABLESPACE_LOCATION_PREFIX'' ''broker''))
    \<and> namePrefixPattern (env_str getenv ''GAUSSDB_NAME_PREFIX'' ''gdb'')
    \<and> getenv ''BROKER_PASSWORD'' \<noteq> ''''
    \<and> \<not> (getenv ''STATE_ENCRYPTION_KEY_PREVIOUS'' \<noteq> '''' \<and> getenv ''STATE_ENCRYPTION_KEY'' = ''''))"
proof (rule conjI, rule LoadConfig_not_Panic)
  let ?keys = "{''GAUSSDB_PORT'', ''GAUSSDB_CONNECT_TIMEOUT'', ''BROKER_PORT''}"
  have num: "(\<nexists>key. key \<in> ?keys \<and> getenv key \<noteq> '''' \<and> atoi (getenv key) = None) \<longleftrightarrow>
      (\<exists>a. envInt getenv ''GAUSSDB_PORT'' 5432 = Ok a)
      \<and> (\<exists>b. envInt getenv ''GAUSSDB_CONNECT_TIMEOUT'' 10 = Ok b)
      \<and> (\<exists>c. envInt getenv ''BROKER_PORT'' 5000 = Ok c)"
    using envInt_ok [of getenv "''GAUSSDB_PORT''" 5432]
      envInt_ok [of getenv "''GAUSSDB_CONNECT_TIMEOUT''" 10] envInt_ok [of getenv "''BROKER_PORT''" 5000]
    by (auto simp: is_ok_iff)
  show "is_ok (LoadConfig getenv) \<longleftrightarrow>
      (\<nexists>key. key \<in> ?keys \<and> getenv key \<noteq> '''' \<and> atoi (getenv key) = None)
    \<and> locationPrefixPattern (trim (\<lambda>c. c = CHR ''/'')
        (env_str getenv ''GAUSSDB_TABLESPACE_LOCATION_PREFIX'' ''broker''))
    \<and> namePrefixPattern (env_str getenv ''GAUSSDB_NAME_PREFIX'' ''gdb'')
    \<and> getenv ''BROKER_PASSWORD'' \<noteq> ''''
    \<and> \<not> (getenv ''STATE_ENCRYPTION_KEY_PREVIOUS'' \<noteq> '''' \<and> getenv ''STATE_ENCRYPTION_KEY'' = '''')"
    unfolding num by (simp add: is_ok_iff LoadConfig_def Let_def) auto
qed

text \<open>
  Under any configuration the broker can start with, every instance and every
  binding has names (no slice panics), they are made of lower-case letters, digits and
  underscores only, and so quoting them adds nothing but the quotes.
\<close>

lemma loaded_config_plain_names:
  assumes "LoadConfig getenv = Ok cfg"
  shows "\<exists>n u. NamesFor iid (NamePrefix cfg) cn = Some n \<and> UserFor bid (NamePrefix cfg) bn = Some u
     \<and> (\<nexists>s. s \<in> {n_Database n, n_GroupRole n, n_Tablespace n, u}
          \<and> (\<not> list_all name_char s \<or> quoteIdent s \<noteq> [CHR 0x22] @ s @ [CHR 0x22]))"
proof -
  have "namePrefixPattern (NamePrefix cfg)"
    using LoadConfig_config_ok [OF assms] by (simp add: config_ok_def)
  then have len: "length (NamePrefix cfg) \<le> 30" and chars: "list_all name_char (NamePrefix cfg)"
    by (simp_all add: namePrefixPattern_length namePrefixPattern_chars)
  obtain n u where n: "NamesFor iid (NamePrefix cfg) cn = Some n"
    and u: "UserFor bid (NamePrefix cfg) bn = Some u"
    using len NamesFor_returns [of "NamePrefix cfg" iid cn] UserFor_returns [of "NamePrefix cfg" bid bn]
    by auto
  have "list_all name_char ''_'' \<and> list_all name_char ''u_'' \<and> list_all name_char ''_grp''
      \<and> list_all name_char ''_ts''"
    by (simp add: name_char_def class_codes)
  then have "list_all name_char s" if "s \<in> {n_Database n, n_GroupRole n, n_Tablespace n, u}" for s
    using n u chars that by (elim NamesFor_cases UserFor_cases) auto
  with n u name_chars_plain show ?thesis by blast
qed

definition sample_env :: "string \<Rightarrow> string" where
  "sample_env key = (if key = ''BROKER_PASSWORD'' then ''x'' else '''')"

end
