(* ===== verification/Go_Float.thy ===== *)
theory Go_Float
  imports Complex_Main Names
begin

text \<open>
  float64 arithmetic as far as the broker meets it: the value of a finite float64 is a
  rational; converting a decimal literal (\<open>strconv.ParseFloat\<close>) or an int to float64
  rounds to the nearest one, ties to even, and fails past the largest; converting back
  to int truncates.
\<close>

section \<open>Rounding to float64\<close>

definition pow2 :: "int \<Rightarrow> rat" where
  "pow2 e = (if 0 \<le> e then 2 ^ nat e else 1 / 2 ^ nat (- e))"

text \<open>The exponent of the leading bit of a positive rational.\<close>

definition flog2 :: "rat \<Rightarrow> int" where
  "flog2 q = (if 1 \<le> q then int (bit_len (nat \<lfloor>q\<rfloor>)) - 1
              else - int (bit_len (nat (\<lceil>1 / q\<rceil> - 1))))"

definition round_even :: "rat \<Rightarrow> int" where
  "round_even x = (let f = \<lfloor>x\<rfloor>; d = x - of_int f in
     if d < 1 / 2 then f else if 1 / 2 < d then f + 1 else if even f then f else f + 1)"

definition float_round :: "rat \<Rightarrow> rat option" where
  "float_round q = (if q = 0 then Some 0 else
     (let a = \<bar>q\<bar>; e = max (- 1074) (flog2 a - 52);
          v = of_int (round_even (a * pow2 (- e))) * pow2 e
      in if 2 ^ 1024 \<le> v then None else Some (sgn q * v)))"

text \<open>\<open>float64(n)\<close> for an int.\<close>

definition float_of_int :: "int \<Rightarrow> rat" where
  "float_of_int n = (case float_round (of_int n) of None \<Rightarrow> 0 | Some v \<Rightarrow> v)"

text \<open>
  \<open>int(v)\<close> for a float64. The language leaves the result open when \<open>v\<close> is out of the
  int64 range; the value here is amd64's.
\<close>

definition int_of_float :: "rat \<Rightarrow> int" where
  "int_of_float v = (let t = (if 0 \<le> v then \<lfloor>v\<rfloor> else \<lceil>v\<rceil>) in
     if - (2 ^ 63) \<le> t \<and> t < 2 ^ 63 then t else - (2 ^ 63))"

section \<open>Exactness on small integers\<close>

lemma pow2_neg: "pow2 (- e) * pow2 e = 1"
  by (simp add: pow2_def)

lemma round_even_int [simp]: "round_even (of_int n) = n"
  by (simp add: round_even_def Let_def)

lemma bit_len_0 [simp]: "bit_len 0 = 0"
  by (simp add: bit_len.simps)

lemma bit_len_upper: "n < 2 ^ bit_len n"
proof (induction n rule: bit_len.induct)
  case (1 n)
  show ?case
  proof (cases "n = 0")
    case False
    then have "n div 2 < 2 ^ bit_len (n div 2)" using 1 by simp
    with False show ?thesis by (subst bit_len.simps) auto
  qed simp
qed

lemma bit_len_lower: "0 < n \<Longrightarrow> 2 ^ (bit_len n - 1) \<le> n"
proof (induction n rule: bit_len.induct)
  case (1 n)
  show ?case
  proof (cases "n = 1")
    case True
    then show ?thesis by (simp add: bit_len.simps)
  next
    case False
    with 1 have IH: "2 ^ (bit_len (n div 2) - 1) \<le> n div 2" and "0 < n div 2" by auto
    then have "bit_len (n div 2) \<noteq> 0" using bit_len_upper [of "n div 2"] by (intro notI) simp
    with IH 1 show ?thesis
      by (subst bit_len.simps) (cases "bit_len (n div 2)", auto)
  qed
qed

lemma float_round_small_int:
  assumes "\<bar>n\<bar> \<le> 2 ^ 53"
  shows "float_round (of_int n) = Some (of_int n)"
proof (cases "n = 0")
  case True
  then show ?thesis by (simp add: float_round_def)
next
  case False
  define a where "a = \<bar>n\<bar>"
  have a: "1 \<le> a" "a \<le> 2 ^ 53" using False assms by (simp_all add: a_def)
  define e where "e = max (- 1074) (flog2 (of_int a) - 52)"
  have fl: "flog2 (of_int a) = int (bit_len (nat a)) - 1" using a by (simp add: flog2_def)
  have "0 < nat a" using a by simp
  from bit_len_lower [OF this] a have "(2::nat) ^ (bit_len (nat a) - 1) \<le> 2 ^ 53"
    by (metis nat_le_iff of_nat_numeral of_nat_power order_trans)
  then have "bit_len (nat a) - 1 \<le> 53" by (rule power_le_imp_le_exp [rotated]) simp
  then have e1: "e \<le> 1" by (simp add: e_def fl)
  have "\<exists>m. of_int a * pow2 (- e) = of_int m"
  proof (cases "e \<le> 0")
    case True
    then have "of_int a * pow2 (- e) = of_int (a * 2 ^ nat (- e))" by (simp add: pow2_def)
    then show ?thesis by blast
  next
    case False
    with e1 have "e = 1" by simp
    then have "53 \<le> bit_len (nat a) - 1" using fl by (simp add: e_def max_def split: if_splits)
    then have "(2::nat) ^ 53 \<le> 2 ^ (bit_len (nat a) - 1)" by (rule power_increasing) simp
    also have "\<dots> \<le> nat a" using bit_len_lower \<open>0 < nat a\<close> by blast
    finally have "a = 2 ^ 53" using a by simp
    then have "of_int a * pow2 (- e) = of_int (2 ^ 52)" using \<open>e = 1\<close> by (simp add: pow2_def)
    then show ?thesis by blast
  qed
  then obtain m where m: "of_int a * pow2 (- e) = of_int m" ..
  then have "of_int (round_even (of_int a * pow2 (- e))) * pow2 e = of_int a * (pow2 (- e) * pow2 e)"
    by simp
  then have v: "of_int (round_even (of_int a * pow2 (- e))) * pow2 e = of_int a"
    by (simp add: pow2_neg)
  have "(of_int a :: rat) \<le> of_int (2 ^ 53)" using a by (simp only: of_int_le_iff)
  moreover have "(of_int (2 ^ 53) :: rat) < 2 ^ 1024" by simp
  ultimately have lt: "\<not> 2 ^ 1024 \<le> (of_int a :: rat)" by linarith
  have abs: "\<bar>of_int n :: rat\<bar> = of_int a" by (simp add: a_def)
  have "float_round (of_int n) = Some (sgn (of_int n) * of_int a)"
    using False lt unfolding float_round_def abs Let_def e_def [symmetric] v by simp
  also have "sgn (of_int n) * of_int a = (of_int n :: rat)"
    by (simp add: a_def abs_if sgn_if)
  finally show ?thesis .
qed

lemma float_of_small_int: "\<bar>n\<bar> \<le> 2 ^ 53 \<Longrightarrow> float_of_int n = of_int n"
  by (simp add: float_of_int_def float_round_small_int)

lemma int_of_float_int: "- (2 ^ 63) \<le> n \<Longrightarrow> n < 2 ^ 63 \<Longrightarrow> int_of_float (of_int n) = n"
  by (simp add: int_of_float_def Let_def)

end
