(* ===== verification/Go_Json.thy ===== *)
theory Go_Json
  imports Go_Float
begin

text \<open>
  Go's \<open>encoding/json\<close>: the decoder the broker runs on request parameters
  (\<open>json.Unmarshal\<close> into \<open>map[string]any\<close>) and on stored credentials (into
  \<open>map[string]string\<close>), and the encoder it runs on credentials (\<open>json.Marshal\<close> of a
  \<open>map[string]string\<close>). Objects keep their members in source order; a repeated key
  takes its last value, as the decoder's map does.
\<close>

section \<open>Values\<close>

datatype json =
    JNull
  | JBool bool
  | JNum rat
  | JStr string
  | JArr "json list"
  | JObj "(string \<times> json) list"

section \<open>Scanning\<close>

definition json_space :: "char \<Rightarrow> bool" where
  "json_space c \<longleftrightarrow> c \<in> {CHR '' '', CHR 0x09, CHR 0x0A, CHR 0x0D}"

definition skip_ws :: "string \<Rightarrow> string" where
  "skip_ws s = dropWhile json_space s"

text \<open>UTF-8 encoding of a code point.\<close>

definition utf8 :: "nat \<Rightarrow> string" where
  "utf8 n = (if n < 0x80 then [char_of n]
     else if n < 0x800 then [char_of (0xC0 + n div 64), char_of (0x80 + n mod 64)]
     else if n < 0x10000 then
       [char_of (0xE0 + n div 4096), char_of (0x80 + n div 64 mod 64), char_of (0x80 + n mod 64)]
     else [char_of (0xF0 + n div 262144), char_of (0x80 + n div 4096 mod 64),
           char_of (0x80 + n div 64 mod 64), char_of (0x80 + n mod 64)])"

definition replacement :: string where
  "replacement = [CHR 0xEF, CHR 0xBF, CHR 0xBD]"

definition hex4 :: "string \<Rightarrow> nat option" where
  "hex4 s = (case s of a # b # c # d # _ \<Rightarrow>
       (case (unhex a, unhex b, unhex c, unhex d) of
          (Some w, Some x, Some y, Some z) \<Rightarrow> Some (((16 * w + x) * 16 + y) * 16 + z)
        | _ \<Rightarrow> None)
     | _ \<Rightarrow> None)"

text \<open>
  The text after \<open>\u\<close>: its bytes and the rest. A surrogate needs a partner in a
  following \<open>\u\<close> escape; a lone one is U+FFFD.
\<close>

definition unicode_escape :: "string \<Rightarrow> (string \<times> string) option" where
  "unicode_escape s = (case hex4 s of
      None \<Rightarrow> None
    | Some r \<Rightarrow>
        (let rest = drop 4 s in
         if 0xD800 \<le> r \<and> r < 0xE000 then
           (case (if take 2 rest = [CHR 0x5C, CHR ''u''] then hex4 (drop 2 rest) else None) of
              Some r2 \<Rightarrow>
                if r < 0xDC00 \<and> 0xDC00 \<le> r2 \<and> r2 < 0xE000
                then Some (utf8 (0x10000 + (r - 0xD800) * 1024 + (r2 - 0xDC00)), drop 6 rest)
                else Some (replacement, rest)
            | None \<Rightarrow> Some (replacement, rest))
         else Some (utf8 r, rest)))"

definition simple_escape :: "char \<Rightarrow> char option" where
  "simple_escape c =
     (if c = CHR 0x22 then Some (CHR 0x22) else if c = CHR 0x5C then Some (CHR 0x5C)
      else if c = CHR ''/'' then Some (CHR ''/'') else if c = CHR ''b'' then Some (CHR 0x08)
      else if c = CHR ''f'' then Some (CHR 0x0C) else if c = CHR ''n'' then Some (CHR 0x0A)
      else if c = CHR ''r'' then Some (CHR 0x0D) else if c = CHR ''t'' then Some (CHR 0x09)
      else None)"

text \<open>
  A string literal after its opening quote: the decoded bytes and the rest. The fuel
  bounds the number of runes and escapes; the length of the input is enough.
\<close>

fun scan_string :: "nat \<Rightarrow> string \<Rightarrow> (string \<times> string) option" where
  "scan_string 0 s = None"
| "scan_string (Suc fuel) s = (case s of
      [] \<Rightarrow> None
    | c # cs \<Rightarrow>
        if c = CHR 0x22 then Some ([], cs)
        else if c = CHR 0x5C then
          (case cs of
             [] \<Rightarrow> None
           | e # es \<Rightarrow>
               if e = CHR ''u'' then
                 (case unicode_escape es of
                    None \<Rightarrow> None
                  | Some (bs, rest) \<Rightarrow> map_option (map_prod (\<lambda>t. bs @ t) id) (scan_string fuel rest))
               else (case simple_escape e of
                       None \<Rightarrow> None
                     | Some b \<Rightarrow> map_option (map_prod (Cons b) id) (scan_string fuel es)))
        else if c < CHR '' '' then None
        else
          (let k = rune_len s; r = take k s;
               bs = (if k = 1 \<and> \<not> is_ascii c then replacement else r)
           in map_option (map_prod (\<lambda>t. bs @ t) id) (scan_string fuel (drop k s))))"

text \<open>A number literal: its exact value and the rest.\<close>

definition scan_digits :: "string \<Rightarrow> string \<times> string" where
  "scan_digits s = (takeWhile is_digit s, dropWhile is_digit s)"

definition scan_number :: "string \<Rightarrow> (rat \<times> string) option" where
  "scan_number s =
     (let neg = (take 1 s = ''-''); s1 = (if neg then drop 1 s else s);
          (ip, s2) = (if take 1 s1 = ''0'' then (''0'', drop 1 s1) else scan_digits s1);
          (frac, fracok, s3) = (if take 1 s2 = ''.'' then (let (f, r) = scan_digits (drop 1 s2) in (f, f \<noteq> [], r))
                                else ([], True, s2));
          (ex, exok, s4) = (if take 1 s3 \<in> {''e'', ''E''}
             then (let t = drop 1 s3; eneg = (take 1 t = ''-'');
                       t1 = (if take 1 t \<in> {''-'', ''+''} then drop 1 t else t);
                       (d, r) = scan_digits t1
                   in ((if eneg then - int (read_nat d) else int (read_nat d)), d \<noteq> [], r))
             else (0, True, s3));
          m = rat_of_nat (read_nat (ip @ frac)); e = ex - int (length frac);
          v = (if 0 \<le> e then m * 10 ^ nat e else m / 10 ^ nat (- e))
      in if ip = [] \<or> \<not> fracok \<or> \<not> exok then None else Some ((if neg then - v else v), s4))"

section \<open>Parsing\<close>

definition max_depth :: nat where
  "max_depth = 10000"

definition expect :: "string \<Rightarrow> 'a \<Rightarrow> string \<Rightarrow> ('a \<times> string) option" where
  "expect w v s = (if has_prefix w s then Some (v, drop (length w) s) else None)"

text \<open>
  A value at the start of the text (white space skipped), then the members of an array
  or object. \<open>d\<close> counts open brackets; past \<open>max_depth\<close> the decoder fails.
\<close>

fun pval :: "nat \<Rightarrow> nat \<Rightarrow> string \<Rightarrow> (json \<times> string) option"
  and parr :: "nat \<Rightarrow> nat \<Rightarrow> string \<Rightarrow> (json list \<times> string) option"
  and pobj :: "nat \<Rightarrow> nat \<Rightarrow> string \<Rightarrow> ((string \<times> json) list \<times> string) option"
where
  "pval 0 d s = None"
| "pval (Suc fuel) d s = (case skip_ws s of
      [] \<Rightarrow> None
    | c # cs \<Rightarrow>
        if c = CHR 0x22 then map_option (map_prod JStr id) (scan_string (length cs) cs)
        else if c = CHR ''['' then
          (if d \<ge> max_depth then None
           else if take 1 (skip_ws cs) = '']'' then Some (JArr [], drop 1 (skip_ws cs))
           else map_option (map_prod JArr id) (parr fuel (Suc d) cs))
        else if c = CHR ''{'' then
          (if d \<ge> max_depth then None
           else if take 1 (skip_ws cs) = ''}'' then Some (JObj [], drop 1 (skip_ws cs))
           else map_option (map_prod JObj id) (pobj fuel (Suc d) cs))
        else if c = CHR ''t'' then expect ''true'' (JBool True) (c # cs)
        else if c = CHR ''f'' then expect ''false'' (JBool False) (c # cs)
        else if c = CHR ''n'' then expect ''null'' JNull (c # cs)
        else map_option (map_prod JNum id) (scan_number (c # cs)))"
| "parr 0 d s = None"
| "parr (Suc fuel) d s = (case pval fuel d s of
      None \<Rightarrow> None
    | Some (v, rest) \<Rightarrow>
        (case skip_ws rest of
           [] \<Rightarrow> None
         | c # cs \<Rightarrow>
             if c = CHR '']'' then Some ([v], cs)
             else if c = CHR '','' then map_option (map_prod (Cons v) id) (parr fuel d cs)
             else None))"
| "pobj 0 d s = None"
| "pobj (Suc fuel) d s = (case skip_ws s of
      [] \<Rightarrow> None
    | q # qs \<Rightarrow>
        if q \<noteq> CHR 0x22 then None
        else (case scan_string (length qs) qs of
            None \<Rightarrow> None
          | Some (k, rest) \<Rightarrow>
              (case skip_ws rest of
                 [] \<Rightarrow> None
               | col # cols \<Rightarrow>
                   if col \<noteq> CHR '':'' then None
                   else (case pval fuel d cols of
                       None \<Rightarrow> None
                     | Some (v, rest2) \<Rightarrow>
                         (case skip_ws rest2 of
                            [] \<Rightarrow> None
                          | c # cs \<Rightarrow>
                              if c = CHR ''}'' then Some ([(k, v)], cs)
                              else if c = CHR '','' then map_option (map_prod (Cons (k, v)) id) (pobj fuel d cs)
                              else None)))))"

text \<open>A whole document: one value and nothing but white space after it.\<close>

definition json_parse :: "string \<Rightarrow> json option" where
  "json_parse s = (case pval (Suc (2 * length s)) 0 s of
      Some (v, rest) \<Rightarrow> if skip_ws rest = [] then Some v else None
    | None \<Rightarrow> None)"

section \<open>Decoding\<close>

text \<open>Into \<open>any\<close>: numbers become float64, an error when one is out of range.\<close>

fun decode_any :: "json \<Rightarrow> json option" where
  "decode_any (JNum q) = map_option JNum (float_round q)"
| "decode_any (JArr vs) = map_option JArr (those (map decode_any vs))"
| "decode_any (JObj kvs) = map_option JObj
     (those (map (\<lambda>(k, v). map_option (Pair k) (decode_any v)) kvs))"
| "decode_any v = Some v"

text \<open>\<open>json.Unmarshal\<close> into a \<open>map[string]any\<close>; \<open>null\<close> leaves a nil map, which reads as empty.\<close>

definition unmarshal_any_map :: "string \<Rightarrow> (string \<rightharpoonup> json) option" where
  "unmarshal_any_map s = (case json_parse s of
      Some (JObj kvs) \<Rightarrow> (case decode_any (JObj kvs) of
          Some (JObj dvs) \<Rightarrow> Some (map_of (rev dvs))
        | _ \<Rightarrow> None)
    | Some JNull \<Rightarrow> Some Map.empty
    | _ \<Rightarrow> None)"

text \<open>
  Into a \<open>map[string]string\<close>, as the list of its entries: a \<open>null\<close> member leaves the
  empty string, any other value that is not a string is an error.
\<close>

definition string_member :: "string \<times> json \<Rightarrow> (string \<times> string) option" where
  "string_member kv = (case snd kv of
      JStr t \<Rightarrow> Some (fst kv, t)
    | JNull \<Rightarrow> Some (fst kv, [])
    | _ \<Rightarrow> None)"

definition unmarshal_string_map :: "string \<Rightarrow> (string \<rightharpoonup> string) option" where
  "unmarshal_string_map s = (case json_parse s of
      Some (JObj kvs) \<Rightarrow> map_option (\<lambda>es. map_of (rev es)) (those (map string_member kvs))
    | Some JNull \<Rightarrow> Some Map.empty
    | _ \<Rightarrow> None)"

section \<open>Encoding a string map\<close>

definition u00 :: "char \<Rightarrow> string" where
  "u00 c = [CHR 0x5C, CHR ''u'', CHR ''0'', CHR ''0'', digit_char (of_char c div 16), digit_char (of_char c mod 16)]"

text \<open>
  The encoder's escapes, rune by rune: quotes, backslash, control bytes, the three
  HTML bytes, U+2028 and U+2029; an invalid byte becomes \<open>\ufffd\<close>.
\<close>

definition escape_rune :: "string \<Rightarrow> string" where
  "escape_rune r = (case r of
      [c] \<Rightarrow>
        (if c = CHR 0x22 \<or> c = CHR 0x5C then [CHR 0x5C, c]
         else if c = CHR 0x08 then [CHR 0x5C, CHR ''b'']
         else if c = CHR 0x0C then [CHR 0x5C, CHR ''f'']
         else if c = CHR 0x0A then [CHR 0x5C, CHR ''n'']
         else if c = CHR 0x0D then [CHR 0x5C, CHR ''r'']
         else if c = CHR 0x09 then [CHR 0x5C, CHR ''t'']
         else if c < CHR '' '' \<or> c \<in> {CHR ''<'', CHR ''>'', CHR ''&''} then u00 c
         else if is_ascii c then [c]
         else [CHR 0x5C] @ ''ufffd'')
    | _ \<Rightarrow>
        (if r = [CHR 0xE2, CHR 0x80, CHR 0xA8] then [CHR 0x5C] @ ''u2028''
         else if r = [CHR 0xE2, CHR 0x80, CHR 0xA9] then [CHR 0x5C] @ ''u2029''
         else r))"

definition encode_string :: "string \<Rightarrow> string" where
  "encode_string s = [CHR 0x22] @ concat (map escape_rune (runes s)) @ [CHR 0x22]"

text \<open>
  \<open>json.Marshal\<close> of a non-nil \<open>map[string]string\<close>, given as its entries: the encoder
  sorts them by key.
\<close>

fun string_le :: "string \<Rightarrow> string \<Rightarrow> bool" where
  "string_le [] t = True"
| "string_le (c # cs) [] = False"
| "string_le (c # cs) (d # ds) = (c < d \<or> (c = d \<and> string_le cs ds))"

fun insert_entry :: "string \<times> string \<Rightarrow> (string \<times> string) list \<Rightarrow> (string \<times> string) list" where
  "insert_entry e [] = [e]"
| "insert_entry e (f # fs) = (if string_le (fst e) (fst f) then e # f # fs else f # insert_entry e fs)"

definition sort_entries :: "(string \<times> string) list \<Rightarrow> (string \<times> string) list" where
  "sort_entries es = foldr insert_entry es []"

definition encode_entry :: "string \<times> string \<Rightarrow> string" where
  "encode_entry e = encode_string (fst e) @ '':'' @ encode_string (snd e)"

definition marshal_string_map :: "(string \<times> string) list \<Rightarrow> string" where
  "marshal_string_map es = ''{'' @ join '','' (map encode_entry (sort_entries es)) @ ''}''"

section \<open>Round trip\<close>

definition valid_rune :: "string \<Rightarrow> bool" where
  "valid_rune r \<longleftrightarrow> r \<noteq> [] \<and> (\<forall>c\<in>set r. r = [c] \<longrightarrow> is_ascii c)"

text \<open>A string is valid UTF-8 when no rune of it is an invalid byte.\<close>

definition valid_utf8 :: "string \<Rightarrow> bool" where
  "valid_utf8 s \<longleftrightarrow> list_all valid_rune (runes s)"

lemma valid_utf8_ascii: "list_all is_ascii s \<Longrightarrow> valid_utf8 s"
  by (simp add: valid_utf8_def runes_ascii valid_rune_def list_all_iff)

lemma unhex_digit_char: "d < 16 \<Longrightarrow> unhex (digit_char d) = Some d"
  by (auto simp: unhex_def digit_char_def Let_def)

lemma runes_shape:
  "r \<in> set (runes s) \<Longrightarrow> \<exists>u. u \<noteq> [] \<and> r = take (rune_len u) u"
  by (induction s rule: runes.induct) (auto simp: runes.simps(2))

lemma rune_len_take:
  assumes "u \<noteq> []" and "valid_rune (take (rune_len u) u)"
  shows "rune_len (take (rune_len u) u @ t) = rune_len u"
proof -
  obtain c cs where u: "u = c # cs" using assms(1) by (cases u) auto
  have "rune_len u = 1 \<or> rune_len u = 2 \<or> rune_len u = 3 \<or> rune_len u = 4"
    by (simp add: u rune_len_def Let_def)
  then consider "rune_len u = 1" | "rune_len u = 2" | "rune_len u = 3" | "rune_len u = 4"
    by blast
  then show ?thesis
  proof cases
    case 1
    with assms u have "is_ascii c" by (simp add: valid_rune_def)
    with 1 u show ?thesis by (simp add: rune_len_ascii)
  next
    case 2
    then have "1 \<le> length cs" using rune_len_le [of u] u by simp
    then obtain x xs where "cs = x # xs" by (cases cs) auto
    with 2 u show ?thesis
      by (auto simp: rune_len_def Let_def numeral_2_eq_2 split: if_splits)
  next
    case 3
    then have "2 \<le> length cs" using rune_len_le [of u] u by simp
    then obtain x y xs where "cs = x # y # xs" by (cases cs; cases "tl cs") auto
    with 3 u show ?thesis
      by (auto simp: rune_len_def Let_def numeral_3_eq_3 split: if_splits)
  next
    case 4
    then have "3 \<le> length cs" using rune_len_le [of u] u by simp
    then obtain x y z xs where "cs = x # y # z # xs"
      by (cases cs; cases "tl cs"; cases "tl (tl cs)") auto
    with 4 u show ?thesis
      by (auto simp: rune_len_def Let_def eval_nat_numeral split: if_splits)
  qed
qed

lemma rune_len_big: "2 \<le> rune_len (c # cs) \<Longrightarrow> \<not> is_ascii c"
  using rune_len_ascii [of c cs] by force

lemma not_ascii_code: "\<not> is_ascii c \<Longrightarrow> c \<noteq> CHR 0x22 \<and> c \<noteq> CHR 0x5C \<and> \<not> c < CHR '' ''"
  by (auto simp: is_ascii_def less_char_def)

lemma append_single: "(@) [c] = Cons c"
  by (rule ext) simp

lemma append_triple: "(@) [a, b, c] = (\<lambda>v. a # b # c # v)"
  by (rule ext) simp

lemma append_cons2: "(@) (a # b # cs) = (\<lambda>v. a # b # cs @ v)"
  by (rule ext) simp

lemma scan_u00:
  assumes "is_ascii c"
  shows "scan_string (Suc fuel) (u00 c @ t) = map_option (map_prod (Cons c) id) (scan_string fuel t)"
proof -
  have lt: "(of_char c :: nat) < 128" using assms by (simp add: class_codes)
  then have d: "(of_char c :: nat) div 16 < 16" "(of_char c :: nat) mod 16 < 16"
    by (simp_all add: less_mult_imp_div_less)
  have "unhex (CHR ''0'') = Some 0" by (simp add: unhex_def)
  with d have h: "hex4 (CHR ''0'' # CHR ''0'' # digit_char (of_char c div 16)
      # digit_char (of_char c mod 16) # t) = Some (of_char c)"
    by (simp add: hex4_def unhex_digit_char)
  then have "unicode_escape (CHR ''0'' # CHR ''0'' # digit_char (of_char c div 16)
      # digit_char (of_char c mod 16) # t) = Some ([c], t)"
    using lt by (simp add: unicode_escape_def utf8_def Let_def)
  then show ?thesis by (simp add: u00_def append_single)
qed

lemma scan_rune:
  assumes "r \<in> set (runes s)" and "valid_rune r"
  shows "scan_string (Suc fuel) (escape_rune r @ t) = map_option (map_prod (\<lambda>v. r @ v) id) (scan_string fuel t)"
proof -
  from assms(1) obtain u where u: "u \<noteq> []" "r = take (rune_len u) u"
    using runes_shape by blast
  then obtain c cs where ucs: "u = c # cs" by (cases u) auto
  have len: "rune_len (r @ t) = length r"
    using rune_len_take [of u t] u assms(2) rune_len_le [of u] by simp
  show ?thesis
  proof (cases "length r = 1")
    case True
    then obtain x where r: "r = [x]" by (cases r) auto
    with assms(2) have ascii: "is_ascii x" by (simp add: valid_rune_def)
    define S where "S = {CHR 0x22, CHR 0x5C, CHR 0x08, CHR 0x0C, CHR 0x0A, CHR 0x0D, CHR 0x09}"
    define H where "H = {CHR ''<'', CHR ''>'', CHR ''&''}"
    consider (simple) "x \<in> S" | (u00) "x \<notin> S" "x < CHR '' '' \<or> x \<in> H"
      | (plain) "x \<notin> S" "\<not> (x < CHR '' '' \<or> x \<in> H)"
      by blast
    then show ?thesis
    proof cases
      case u00
      then have "escape_rune r = u00 x" using r by (simp add: escape_rune_def S_def H_def)
      with ascii r show ?thesis by (simp only: scan_u00) (simp add: append_single)
    next
      case simple
      then show ?thesis unfolding r S_def
        by (elim insertE emptyE) (simp_all add: escape_rune_def simple_escape_def append_single)
    next
      case plain
      with r ascii have "escape_rune r = [x]" by (simp add: escape_rune_def S_def H_def)
      with plain ascii r len show ?thesis by (simp add: S_def Let_def append_single)
    qed
  next
    case False
    with assms(2) have big: "2 \<le> length r"
      by (cases r) (auto simp: valid_rune_def Suc_le_eq)
    then have "2 \<le> rune_len u" using u rune_len_le [of u] by simp
    then have na: "\<not> is_ascii c" using rune_len_big ucs by simp
    have hd: "r = c # tl r" using u ucs big by (cases r; cases "rune_len u") auto
    obtain x y ys where xy: "r = x # y # ys" using big by (cases r; cases "tl r") auto
    consider "r = [CHR 0xE2, CHR 0x80, CHR 0xA8]" | "r = [CHR 0xE2, CHR 0x80, CHR 0xA9]"
      | "r \<noteq> [CHR 0xE2, CHR 0x80, CHR 0xA8]" "r \<noteq> [CHR 0xE2, CHR 0x80, CHR 0xA9]" by blast
    then show ?thesis
    proof cases
      case 1
      have "utf8 0x2028 = [CHR 0xE2, CHR 0x80, CHR 0xA8]" by (simp add: utf8_def char_of_def bit_simps)
      with 1 show ?thesis
        by (simp add: escape_rune_def unicode_escape_def hex4_def unhex_def append_triple)
    next
      case 2
      have "utf8 0x2029 = [CHR 0xE2, CHR 0x80, CHR 0xA9]" by (simp add: utf8_def char_of_def bit_simps)
      with 2 show ?thesis
        by (simp add: escape_rune_def unicode_escape_def hex4_def unhex_def append_triple)
    next
      case 3
      then have esc: "escape_rune r = r" using xy by (simp add: escape_rune_def)
      have "x = c" using hd xy by simp
      with na have x: "x \<noteq> CHR 0x22" "x \<noteq> CHR 0x5C" "\<not> x < CHR '' ''"
        using not_ascii_code by auto
      have "take (rune_len (r @ t)) (r @ t) = r" "drop (rune_len (r @ t)) (r @ t) = t"
        using len by simp_all
      moreover have "length r \<noteq> 1" using False .
      ultimately show ?thesis
        unfolding esc using x len xy by (simp add: Let_def append_cons2)
    qed
  qed
qed

declare scan_string.simps [simp del]

lemma scan_runes:
  assumes "set rs \<subseteq> set (runes s)" and "list_all valid_rune rs" and "length rs < fuel"
  shows "scan_string fuel (concat (map escape_rune rs) @ CHR 0x22 # t) = Some (concat rs, t)"
  using assms
proof (induction rs arbitrary: fuel)
  case Nil
  then obtain f where "fuel = Suc f" by (cases fuel) auto
  then show ?case by (simp add: scan_string.simps)
next
  case (Cons r rs)
  then obtain f where f: "fuel = Suc f" by (cases fuel) auto
  with Cons.prems Cons.IH [of f]
  have IH: "scan_string f (concat (map escape_rune rs) @ CHR 0x22 # t) = Some (concat rs, t)" by simp
  have "scan_string (Suc f) (escape_rune r @ (concat (map escape_rune rs) @ CHR 0x22 # t))
      = map_option (map_prod (\<lambda>v. r @ v) id) (scan_string f (concat (map escape_rune rs) @ CHR 0x22 # t))"
    using Cons.prems by (intro scan_rune) auto
  with f IH show ?case by simp
qed

lemma length_escape_rune: "r \<noteq> [] \<Longrightarrow> 1 \<le> length (escape_rune r)"
  by (auto simp: escape_rune_def u00_def Suc_le_eq split: list.splits)

lemma length_escaped: "list_all valid_rune rs \<Longrightarrow> length rs \<le> length (concat (map escape_rune rs))"
  by (induction rs) (auto simp: valid_rune_def dest!: length_escape_rune)

lemma scan_encoded:
  assumes "valid_utf8 s"
  shows "scan_string (length (concat (map escape_rune (runes s)) @ CHR 0x22 # t))
           (concat (map escape_rune (runes s)) @ CHR 0x22 # t) = Some (s, t)"
proof -
  have "length (runes s) < length (concat (map escape_rune (runes s)) @ CHR 0x22 # t)"
    using length_escaped [of "runes s"] assms by (simp add: valid_utf8_def)
  from scan_runes [OF order.refl _ this, of t] show ?thesis
    using assms by (simp add: valid_utf8_def)
qed

lemma skip_ws_simps [simp]:
  "skip_ws (CHR 0x22 # s) = CHR 0x22 # s" "skip_ws (CHR ''{'' # s) = CHR ''{'' # s"
  "skip_ws (CHR '':'' # s) = CHR '':'' # s" "skip_ws (CHR '','' # s) = CHR '','' # s"
  "skip_ws (CHR ''}'' # s) = CHR ''}'' # s" "skip_ws [] = []"
  by (simp_all add: skip_ws_def json_space_def)

lemma pval_string:
  assumes "valid_utf8 s"
  shows "pval (Suc fuel) d (encode_string s @ t) = Some (JStr s, t)"
  using scan_encoded [OF assms, of t] by (simp add: encode_string_def)

definition valid_entry :: "string \<times> string \<Rightarrow> bool" where
  "valid_entry e \<longleftrightarrow> valid_utf8 (fst e) \<and> valid_utf8 (snd e)"

lemma pobj_step:
  assumes "valid_entry e"
  shows "pobj (Suc (Suc fuel)) d (encode_entry e @ c # t) =
    (if c = CHR ''}'' then Some ([(fst e, JStr (snd e))], t)
     else if c = CHR '','' then map_option (map_prod (Cons (fst e, JStr (snd e))) id) (pobj (Suc fuel) d t)
     else if json_space c then pobj (Suc (Suc fuel)) d (encode_entry e @ c # t) else None)"
proof (cases "json_space c")
  case False
  have k: "valid_utf8 (fst e)" and v: "valid_utf8 (snd e)" using assms by (simp_all add: valid_entry_def)
  have "skip_ws (c # t) = c # t" using False by (simp add: skip_ws_def)
  then show ?thesis
    using False scan_encoded [OF k, of "CHR '':'' # encode_string (snd e) @ c # t"] pval_string [OF v, of fuel d "c # t"]
    by (simp add: encode_entry_def encode_string_def [of "fst e"] del: pval.simps)
next
  case True
  then have "c \<noteq> CHR ''}''" "c \<noteq> CHR '',''" by (auto simp: json_space_def)
  with True show ?thesis by simp
qed

lemma pobj_entries:
  assumes "list_all valid_entry es" and "es \<noteq> []" and "Suc (length es) \<le> fuel"
  shows "pobj fuel d (join '','' (map encode_entry es) @ CHR ''}'' # t)
           = Some (map (\<lambda>e. (fst e, JStr (snd e))) es, t)"
  using assms
proof (induction es arbitrary: fuel)
  case Nil
  then show ?case by simp
next
  case (Cons e es)
  then obtain f where f: "fuel = Suc (Suc f)"
    by (metis Suc_le_D le_SucE length_Cons not0_implies_Suc not_less_eq_eq Suc_le_mono)
  show ?case
  proof (cases es)
    case Nil
    with Cons.prems f pobj_step [of e f d "CHR ''}''" t] show ?thesis by (simp del: pobj.simps)
  next
    case (Cons e2 es2)
    with Cons.prems f Cons.IH [of "Suc f"]
    have "pobj (Suc f) d (join '','' (map encode_entry es) @ CHR ''}'' # t)
        = Some (map (\<lambda>e. (fst e, JStr (snd e))) es, t)" by (simp del: pobj.simps)
    with Cons Cons.prems f pobj_step [of e f d "CHR '',''" "join '','' (map encode_entry es) @ CHR ''}'' # t"]
    show ?thesis by (simp del: pobj.simps)
  qed
qed


lemma string_le_total: "\<not> string_le s t \<Longrightarrow> string_le t s"
  by (induction s t rule: string_le.induct) auto

lemma mset_insert_entry: "set (insert_entry e es) = insert e (set es)"
  by (induction es) auto

lemma distinct_insert_entry:
  "distinct (map fst (insert_entry e es)) \<longleftrightarrow> fst e \<notin> fst ` set es \<and> distinct (map fst es)"
  by (induction es) (auto simp: mset_insert_entry)

lemma set_sort_entries [simp]: "set (sort_entries es) = set es"
  by (induction es) (simp_all add: sort_entries_def mset_insert_entry)

lemma distinct_sort_entries [simp]: "distinct (map fst (sort_entries es)) \<longleftrightarrow> distinct (map fst es)"
proof (induction es)
  case Nil
  then show ?case by (simp add: sort_entries_def)
next
  case (Cons e es)
  have "sort_entries (e # es) = insert_entry e (sort_entries es)" by (simp add: sort_entries_def)
  with Cons show ?case by (simp add: distinct_insert_entry)
qed

lemma sort_entries_Nil [simp]: "sort_entries es = [] \<longleftrightarrow> es = []"
  by (metis set_empty set_sort_entries)

lemma map_of_rev_sorted: "distinct (map fst es) \<Longrightarrow> map_of (rev (sort_entries es)) = map_of es"
  by (subst map_of_inject_set) (simp_all flip: rev_map)

lemma those_Some [simp]: "those (map (\<lambda>x. Some (f x)) xs) = Some (map f xs)"
  by (induction xs) auto

lemma length_encode_entry: "5 \<le> length (encode_entry e)"
  by (simp add: encode_entry_def encode_string_def)

lemma length_join_entries: "length es \<le> length (join '','' (map encode_entry es))"
proof (induction es)
  case Nil
  then show ?case by simp
next
  case (Cons e es)
  then show ?case using length_encode_entry [of e] by (cases es) auto
qed

text \<open>
  Decoding what was encoded gives the map back, for valid UTF-8 text.
\<close>

lemma unmarshal_marshal:
  assumes "distinct (map fst es)" and "list_all valid_entry es"
  shows "unmarshal_string_map (marshal_string_map es) = Some (map_of es)"
proof -
  let ?ss = "sort_entries es"
  have members: "those (map string_member (map (\<lambda>e. (fst e, JStr (snd e))) xs)) = Some xs" for xs
    by (induction xs) (auto simp: string_member_def)
  have "json_parse (marshal_string_map es) = Some (JObj (map (\<lambda>e. (fst e, JStr (snd e))) ?ss))"
  proof (cases "es = []")
    case True
    then show ?thesis
      by (simp add: marshal_string_map_def json_parse_def sort_entries_def max_depth_def eval_nat_numeral)
  next
    case False
    let ?body = "join '','' (map encode_entry ?ss)"
    define f where "f = 2 * length (marshal_string_map es)"
    have len: "Suc (length ?ss) \<le> f"
      using length_join_entries [of ?ss] by (simp add: f_def marshal_string_map_def)
    have "list_all valid_entry ?ss" using assms(2) by (simp add: list_all_iff)
    then have p: "pobj f 1 (?body @ CHR ''}'' # []) = Some (map (\<lambda>e. (fst e, JStr (snd e))) ?ss, [])"
      using False len by (intro pobj_entries) simp_all
    obtain e ss where "?ss = e # ss" using False by (cases ?ss) auto
    then obtain u where "?body = CHR 0x22 # u"
      by (cases ss) (auto simp: encode_entry_def encode_string_def)
    with p have "pval (Suc f) 0 (marshal_string_map es)
        = Some (JObj (map (\<lambda>e. (fst e, JStr (snd e))) ?ss), [])"
      by (simp add: marshal_string_map_def max_depth_def del: pobj.simps)
    then show ?thesis by (simp add: json_parse_def f_def del: pval.simps)
  qed
  then show ?thesis
    using assms(1) by (simp add: unmarshal_string_map_def members map_of_rev_sorted del: map_map)
qed

end
