(* ===== verification/Plans.thy ===== *)
theory Plans
  imports Config Go_Json
begin

text \<open>
  \<open>plans.go\<close>: the plan catalog. Reading the file (\<open>os.ReadFile\<close>) and decoding it
  (\<open>toml.Unmarshal\<close>, a third-party decoder) are parameters; what the broker itself does,
  validating the data and assembling the catalog of brokerapi, is modelled. The JSON
  schemas of a plan (\<open>params.go\<close>) are part of that catalog and stand here too.
\<close>

section \<open>The catalog data\<close>

record service_config =
  s_ServiceID :: string
  s_Name :: string
  s_DisplayName :: string
  s_Description :: string
  s_Provider :: string
  s_DocsURL :: string
  s_SupportURL :: string
  s_Tags :: "string list"

record plan =
  p_ID :: string
  p_Name :: string
  p_DisplayName :: string
  p_Description :: string
  p_StorageGB :: int
  p_MaxConnections :: int

record catalog_data =
  Service :: service_config
  Plans :: "plan list"

datatype catalog_err =
    PlansNotReadable string
  | PlansNotToml string
  | MissingServiceId
  | BadServiceId string
  | MissingServiceName
  | MissingServiceDescription
  | NoPlans
  | PlanIncomplete nat
  | PlanBadId string string
  | DuplicatePlanId string
  | DuplicatePlanName string
  | PlanBadQuota string

section \<open>Validation\<close>

definition hex_lower :: "char \<Rightarrow> bool" where
  "hex_lower c \<longleftrightarrow> is_digit c \<or> (CHR ''a'' \<le> c \<and> c \<le> CHR ''f'')"

definition uuidPattern :: "string \<Rightarrow> bool" where
  "uuidPattern s \<longleftrightarrow>
     map length (split_on (\<lambda>c. c = CHR ''-'') s) = [8, 4, 4, 4, 12]
   \<and> list_all (\<lambda>c. hex_lower c \<or> c = CHR ''-'') s"

definition validateService :: "service_config \<Rightarrow> (catalog_err, unit) go" where
  "validateService svc =
     (if s_ServiceID svc = '''' then Err MissingServiceId
      else if \<not> uuidPattern (s_ServiceID svc) then Err (BadServiceId (s_ServiceID svc))
      else if s_Name svc = '''' then Err MissingServiceName
      else if s_Description svc = '''' then Err MissingServiceDescription
      else Ok ())"

text \<open>The loop of \<open>validatePlans\<close>: \<open>i\<close> is the index, the two lists what \<open>seenIDs\<close> and \<open>seenNames\<close> hold.\<close>

fun validate_loop :: "nat \<Rightarrow> string list \<Rightarrow> string list \<Rightarrow> plan list \<Rightarrow> (catalog_err, unit) go" where
  "validate_loop i ids nms [] = Ok ()"
| "validate_loop i ids nms (p # ps) =
     (if p_ID p = '''' \<or> p_Name p = '''' \<or> p_Description p = '''' then Err (PlanIncomplete (i + 1))
      else if \<not> uuidPattern (p_ID p) then Err (PlanBadId (p_Name p) (p_ID p))
      else if p_ID p \<in> set ids then Err (DuplicatePlanId (p_ID p))
      else if p_Name p \<in> set nms then Err (DuplicatePlanName (p_Name p))
      else if p_StorageGB p < 1 \<or> p_MaxConnections p < 1 then Err (PlanBadQuota (p_Name p))
      else validate_loop (Suc i) (p_ID p # ids) (p_Name p # nms) ps)"

definition validatePlans :: "plan list \<Rightarrow> (catalog_err, unit) go" where
  "validatePlans ps = (if length ps = 0 then Err NoPlans else validate_loop 0 [] [] ps)"

definition LoadCatalog ::
    "(string \<Rightarrow> string + string) \<Rightarrow> (string \<Rightarrow> string + catalog_data) \<Rightarrow> string \<Rightarrow> (catalog_err, catalog_data) go" where
  "LoadCatalog read_file toml_unmarshal path =
     (case read_file path of
        Inl e \<Rightarrow> Err (PlansNotReadable e)
      | Inr raw \<Rightarrow>
          (case toml_unmarshal raw of
             Inl e \<Rightarrow> Err (PlansNotToml e)
           | Inr data \<Rightarrow>
               bind_go (validateService (Service data)) (\<lambda>_.
               bind_go (validatePlans (Plans data)) (\<lambda>_. Ok data))))"

section \<open>The schemas of a plan\<close>

definition compatibilities :: "string list" where
  "compatibilities = [''PG'', ''A'', ''B'', ''C'']"

definition encodings :: "string list" where
  "encodings = [''UTF8'', ''GBK'', ''GB18030'', ''Latin1'']"

definition draft04 :: "(string \<times> json) list \<Rightarrow> json" where
  "draft04 props = JObj [(''$schema'', JStr ''http://json-schema.org/draft-04/schema#''),
     (''type'', JStr ''object''), (''properties'', JObj props)]"

definition instance_properties :: "plan \<Rightarrow> (string \<times> json) list" where
  "instance_properties p = [
     (''compatibility'', JObj [(''type'', JStr ''string''), (''enum'', JArr (map JStr compatibilities)),
        (''default'', JStr ''PG''),
        (''description'', JStr ''openGauss DBCOMPATIBILITY: PG=PostgreSQL, A=Oracle, B=MySQL, C=Teradata.'')]),
     (''encoding'', JObj [(''type'', JStr ''string''), (''enum'', JArr (map JStr encodings)),
        (''default'', JStr ''UTF8''),
        (''description'', JStr (''Character set of the logical database (LC_COLLATE/LC_CTYPE stay ''
           @ [CHR 0x27] @ ''C'' @ [CHR 0x27] @ '').''))]),
     (''max_connections'', JObj [(''type'', JStr ''integer''), (''minimum'', JNum 1),
        (''maximum'', JNum (of_int (p_MaxConnections p))), (''default'', JNum (of_int (p_MaxConnections p))),
        (''description'', JStr ''CONNECTION LIMIT of the logical database.'')]),
     (''storage_gb'', JObj [(''type'', JStr ''integer''), (''minimum'', JNum 1),
        (''maximum'', JNum (of_int (p_StorageGB p))), (''default'', JNum (of_int (p_StorageGB p))),
        (''description'', JStr ''Storage quota of the logical database (tablespace MAXSIZE).'')]),
     (''name'', JObj [(''type'', JStr ''string''),
        (''description'', JStr ''Human-readable name for the database.'')])]"

definition instanceSchema :: "plan \<Rightarrow> json" where
  "instanceSchema p = draft04 (instance_properties p)"

definition updatableSchema :: "plan \<Rightarrow> json" where
  "updatableSchema p = draft04
     (map (\<lambda>key. (key, case map_of (instance_properties p) key of None \<Rightarrow> JNull | Some v \<Rightarrow> v))
        [''max_connections'', ''storage_gb''])"

definition bindingSchema :: json where
  "bindingSchema = draft04 [(''name'', JObj [(''type'', JStr ''string''),
     (''description'', JStr ''Human-readable name for the binding user.'')])]"

section \<open>The catalog payload\<close>

text \<open>The fields of brokerapi's \<open>domain.Service\<close> and \<open>domain.ServicePlan\<close> the code sets.\<close>

record service_plan =
  sp_ID :: string
  sp_Name :: string
  sp_Description :: string
  sp_DisplayName :: string
  sp_Bullets :: "string list"
  sp_InstanceCreate :: json
  sp_InstanceUpdate :: json
  sp_BindingCreate :: json

record service =
  sv_ID :: string
  sv_Name :: string
  sv_Description :: string
  sv_Bindable :: bool
  sv_InstancesRetrievable :: bool
  sv_BindingsRetrievable :: bool
  sv_Tags :: "string list"
  sv_PlanUpdatable :: bool
  sv_Plans :: "service_plan list"
  sv_DisplayName :: string
  sv_ProviderDisplayName :: string
  sv_DocumentationUrl :: string
  sv_SupportUrl :: string

definition catalog_plan :: "plan \<Rightarrow> service_plan" where
  "catalog_plan p = \<lparr>
     sp_ID = p_ID p, sp_Name = p_Name p, sp_Description = p_Description p,
     sp_DisplayName = (if p_DisplayName p = '''' then p_Name p else p_DisplayName p),
     sp_Bullets = [int_text (p_StorageGB p) @ '' GB storage (tablespace MAXSIZE)'',
                   ''up to '' @ int_text (p_MaxConnections p) @ '' concurrent connections''],
     sp_InstanceCreate = instanceSchema p,
     sp_InstanceUpdate = updatableSchema p,
     sp_BindingCreate = bindingSchema\<rparr>"

definition Catalog :: "catalog_data \<Rightarrow> service list" where
  "Catalog data = (let svc = Service data in [\<lparr>
     sv_ID = s_ServiceID svc, sv_Name = s_Name svc, sv_Description = s_Description svc,
     sv_Bindable = True, sv_InstancesRetrievable = True, sv_BindingsRetrievable = True,
     sv_Tags = s_Tags svc, sv_PlanUpdatable = True,
     sv_Plans = map catalog_plan (Plans data),
     sv_DisplayName = (if s_DisplayName svc = '''' then s_Name svc else s_DisplayName svc),
     sv_ProviderDisplayName = s_Provider svc,
     sv_DocumentationUrl = s_DocsURL svc,
     sv_SupportUrl = s_SupportURL svc\<rparr>])"

section \<open>What validation guarantees\<close>

definition plan_ok :: "plan \<Rightarrow> bool" where
  "plan_ok p \<longleftrightarrow> p_ID p \<noteq> '''' \<and> p_Name p \<noteq> '''' \<and> p_Description p \<noteq> ''''
     \<and> uuidPattern (p_ID p) \<and> 1 \<le> p_StorageGB p \<and> 1 \<le> p_MaxConnections p"

definition service_ok :: "service_config \<Rightarrow> bool" where
  "service_ok svc \<longleftrightarrow> uuidPattern (s_ServiceID svc) \<and> s_Name svc \<noteq> '''' \<and> s_Description svc \<noteq> ''''"

definition catalog_ok :: "catalog_data \<Rightarrow> bool" where
  "catalog_ok data \<longleftrightarrow> service_ok (Service data) \<and> Plans data \<noteq> [] \<and> list_all plan_ok (Plans data)
     \<and> distinct (map p_ID (Plans data)) \<and> distinct (map p_Name (Plans data))"

lemma validate_loop_ok:
  "validate_loop i ids nms ps = Ok () \<longleftrightarrow>
     list_all plan_ok ps \<and> distinct (map p_ID ps) \<and> distinct (map p_Name ps)
     \<and> p_ID ` set ps \<inter> set ids = {} \<and> p_Name ` set ps \<inter> set nms = {}"
  by (induction i ids nms ps rule: validate_loop.induct) (auto simp: plan_ok_def)

lemma validate_loop_not_Panic [simp]: "validate_loop i ids nms ps \<noteq> Panic"
  by (induction i ids nms ps rule: validate_loop.induct) auto

lemma uuidPattern_not_Nil: "uuidPattern s \<Longrightarrow> s \<noteq> []"
  by (auto simp: uuidPattern_def)

lemma validateService_ok: "validateService svc = Ok () \<longleftrightarrow> service_ok svc"
  by (auto simp: validateService_def service_ok_def dest: uuidPattern_not_Nil)

lemma validatePlans_ok:
  "validatePlans ps = Ok () \<longleftrightarrow> ps \<noteq> [] \<and> list_all plan_ok ps
     \<and> distinct (map p_ID ps) \<and> distinct (map p_Name ps)"
  by (auto simp: validatePlans_def validate_loop_ok)

section \<open>Properties\<close>

text \<open>
  Claim C40. The broker starts on a plans file exactly when the file can be read and
  decoded and its catalog is well formed: a UUID service with a name and a description,
  at least one plan, every plan complete with a UUID and positive quotas, no plan id and
  no plan name twice. The catalog it starts with is the one the file holds.
\<close>

theorem catalog_loads_iff:
  "LoadCatalog read_file toml_unmarshal path = Ok data \<longleftrightarrow>
     (\<exists>raw. read_file path = Inr raw \<and> toml_unmarshal raw = Inr data \<and> catalog_ok data)"
  by (auto simp: LoadCatalog_def catalog_ok_def validateService_ok validatePlans_ok split: sum.splits)

text \<open>
  The published catalog is faithful to the plans: one service with the
  configured id, its plans in file order with their ids and names, and every plan
  carries its own create and update schema.
\<close>

lemma catalog_publishes_plans:
  "\<exists>svc. Catalog data = [svc] \<and> sv_ID svc = s_ServiceID (Service data) \<and> sv_PlanUpdatable svc
     \<and> map sp_ID (sv_Plans svc) = map p_ID (Plans data)
     \<and> map sp_Name (sv_Plans svc) = map p_Name (Plans data)
     \<and> map sp_InstanceCreate (sv_Plans svc) = map instanceSchema (Plans data)
     \<and> map sp_InstanceUpdate (sv_Plans svc) = map updatableSchema (Plans data)"
  by (simp add: Catalog_def catalog_plan_def comp_def Let_def)

end
