(* ===== verification/Errors.thy ===== *)
theory Errors
  imports Prelude
begin

text \<open>
  The error values of the running broker. Each constructor of \<open>err\<close> is one place of
  the code that makes an error (\<open>errors.New\<close>, \<open>fmt.Errorf\<close>, an error type); what it
  carries is what the code puts into the message. An error of a library (the database
  driver, GORM, the file system, a decoder) is opaque text, \<open>ext\<close>.
\<close>

type_synonym ext = string

datatype err =
    External ext                              \<comment> \<open>returned unchanged from a library\<close>
  | StatementFailed nat nat ext               \<comment> \<open>driver.go: statement i of n failed\<close>
  | AlreadyExists string string               \<comment> \<open>gaussdb.go: AlreadyExistsError, table and name\<close>
  | CannotLoadTemplate string ext             \<comment> \<open>templates.go\<close>
  | CannotRender string ext
  | CannotRead string ext                     \<comment> \<open>state.go: cannot read instance / binding\<close>
  | CannotList string ext
  | CannotEncrypt ext
  | CannotDecode string
  | CannotDecrypt string ext
  | Corrupted string
  | CannotReadForRotation ext
  | NeitherKey string ext
  | CannotReencrypt string ext
  | CannotRewrite string ext
  | NotJsonObject                             \<comment> \<open>params.go\<close>
  | BadCompatibility
  | BadEncoding
  | BadQuota string int
  | CannotValidate ext                        \<comment> \<open>validate.go\<close>
  | InvalidParameters "string list"
  | UnknownServiceId string                   \<comment> \<open>broker.go\<close>
  | UnknownPlanId string
  | StillHasBindings

text \<open>
  What a handler answers to brokerapi: one of the library's responses, a 400 made by
  \<open>invalidInput\<close>, or an error passed through (which the library reports as a 500).
\<close>

datatype api_err =
    PassThrough err
  | BadRequest err
  | ErrInstanceAlreadyExists
  | ErrInstanceNotFound
  | ErrBindingAlreadyExists
  | ErrBindingNotFound
  | ErrPlanChangeNotSupported

end
