(* ===== verification/Params.thy ===== *)
theory Params
  imports Plans Errors
begin

text \<open>
  \<open>params.go\<close> and \<open>validate.go\<close>: what a valid request looks like. The schema validator
  (gojsonschema) is a parameter, a function from a schema and the raw document to its
  verdict; decoding, \<open>fmt.Sprint\<close> of a decoded value, the defaults, the bounds and every
  refusal are modelled.
\<close>

section \<open>fmt.Sprint of a decoded JSON value\<close>

text \<open>
  The shortest decimal that reads back as a positive float64: with \<open>n\<close> digits and the
  leading one at \<open>10 ^ x\<close>, the truncated candidate or the next one up.
\<close>

definition pow10 :: "int \<Rightarrow> rat" where
  "pow10 x = (if 0 \<le> x then 10 ^ nat x else 1 / 10 ^ nat (- x))"

definition flog10 :: "rat \<Rightarrow> int" where
  "flog10 q = (if 1 \<le> q then int (length (nat_text (nat \<lfloor>q\<rfloor>))) - 1
               else - int (length (nat_text (nat (\<lceil>1 / q\<rceil> - 1)))))"

definition decimal_of :: "rat \<Rightarrow> nat \<Rightarrow> (nat \<times> int) option" where
  "decimal_of q n = (let u = flog10 q - (int n - 1); t = q * pow10 (- u); f = \<lfloor>t\<rfloor>;
       ok = (\<lambda>m. float_round (of_int m * pow10 u) = Some q)
     in if ok f \<and> ok (f + 1) then Some (nat (round_even t), u)
        else if ok f then Some (nat f, u)
        else if ok (f + 1) then Some (nat (f + 1), u)
        else None)"

definition shortest_decimal :: "rat \<Rightarrow> nat \<times> int" where
  "shortest_decimal q = (case List.find (\<lambda>d. d \<noteq> None) (map (decimal_of q) [1..<18]) of
      Some (Some d) \<Rightarrow> d
    | _ \<Rightarrow> (0, 0))"

text \<open>
  \<open>%v\<close> of a float64 is \<open>%g\<close> with the shortest digits: scientific for an
  exponent below \<open>-4\<close> or from \<open>6\<close> on.
\<close>

definition float_text :: "rat \<Rightarrow> string" where
  "float_text q = (if q = 0 then ''0'' else
     (let (m, u) = shortest_decimal \<bar>q\<bar>;
          ds = rev (dropWhile (\<lambda>c. c = CHR ''0'') (rev (nat_text m)));
          x = u + int (length (nat_text m)) - 1;
          body =
            (if x < - 4 \<or> 6 \<le> x then
               [hd ds] @ (if tl ds = [] then [] else CHR ''.'' # tl ds) @ ''e''
               @ (if x < 0 then ''-'' else ''+'')
               @ (if \<bar>x\<bar> < 10 then ''0'' else []) @ nat_text (nat \<bar>x\<bar>)
             else if x < 0 then ''0.'' @ replicate (nat (- x) - 1) (CHR ''0'') @ ds
             else if length ds \<le> nat x + 1 then ds @ replicate (nat x + 1 - length ds) (CHR ''0'')
             else take (nat x + 1) ds @ ''.'' @ drop (nat x + 1) ds)
      in (if q < 0 then ''-'' else []) @ body))"

text \<open>The entries of a Go map built from a member list: the last of equal keys, in key order.\<close>

definition map_entries :: "(string \<times> string) list \<Rightarrow> (string \<times> string) list" where
  "map_entries es = sort_entries
     (map (\<lambda>k. (k, case map_of (rev es) k of Some v \<Rightarrow> v | None \<Rightarrow> [])) (remdups (map fst es)))"

text \<open>
  \<open>fmt.Sprint\<close> of a decoded value. JSON numbers are rationals here, so the negative zero of
  float64 is written 0 where Go writes -0; a text parameter given as a number is what the
  published schema refuses, and neither text is a compatibility or an encoding.
\<close>

fun go_sprint :: "json \<Rightarrow> string" where
  "go_sprint JNull = ''<nil>''"
| "go_sprint (JBool b) = (if b then ''true'' else ''false'')"
| "go_sprint (JNum q) = float_text q"
| "go_sprint (JStr s) = s"
| "go_sprint (JArr vs) = ''['' @ join '' '' (map go_sprint vs) @ '']''"
| "go_sprint (JObj kvs) = ''map['' @ join '' ''
     (map (\<lambda>(k, t). k @ '':'' @ t) (map_entries (map (\<lambda>(k, v). (k, go_sprint v)) kvs))) @ '']''"

section \<open>Resolving parameters\<close>

type_synonym param_map = "string \<rightharpoonup> json"

record InstanceParams =
  ip_Name :: string
  ip_Compatibility :: string
  ip_Encoding :: string
  ip_MaxConnections :: int
  ip_StorageGB :: int

record BindingParams =
  bp_Name :: string

definition no_params :: InstanceParams where
  "no_params = \<lparr>ip_Name = [], ip_Compatibility = [], ip_Encoding = [], ip_MaxConnections = 0, ip_StorageGB = 0\<rparr>"

definition rawParameters :: "string \<Rightarrow> (err, param_map) go" where
  "rawParameters raw =
     (if raw = [] then Ok Map.empty
      else case unmarshal_any_map raw of
        None \<Rightarrow> Err NotJsonObject
      | Some params \<Rightarrow> Ok params)"

definition boundedInt :: "param_map \<Rightarrow> string \<Rightarrow> int \<Rightarrow> int \<Rightarrow> (err, int) go" where
  "boundedInt params key fallback mx =
     (case params key of
        None \<Rightarrow> Ok fallback
      | Some (JNum v) \<Rightarrow>
          if v = float_of_int (int_of_float v) \<and> 1 \<le> v \<and> v \<le> float_of_int mx
          then Ok (int_of_float v) else Err (BadQuota key mx)
      | Some _ \<Rightarrow> Err (BadQuota key mx))"

definition ResolveInstanceParams :: "plan \<Rightarrow> param_map \<Rightarrow> (err, InstanceParams) go" where
  "ResolveInstanceParams p params =
     (let compat = (case params ''compatibility'' of Some v \<Rightarrow> go_sprint v | None \<Rightarrow> ''PG'');
          enc = (case params ''encoding'' of Some v \<Rightarrow> go_sprint v | None \<Rightarrow> ''UTF8'');
          name = (case params ''name'' of Some v \<Rightarrow> go_sprint v | None \<Rightarrow> [])
      in if params ''compatibility'' \<noteq> None \<and> compat \<notin> set compatibilities then Err BadCompatibility
         else if params ''encoding'' \<noteq> None \<and> enc \<notin> set encodings then Err BadEncoding
         else
           bind_go (boundedInt params ''max_connections'' (p_MaxConnections p) (p_MaxConnections p)) (\<lambda>mc.
           bind_go (boundedInt params ''storage_gb'' (p_StorageGB p) (p_StorageGB p)) (\<lambda>sg.
           Ok \<lparr>ip_Name = name, ip_Compatibility = compat, ip_Encoding = enc,
               ip_MaxConnections = mc, ip_StorageGB = sg\<rparr>)))"

section \<open>Validating parameters\<close>

text \<open>The verdict of the schema validator: it cannot run, the document is valid, or a list of violations.\<close>

datatype schema_verdict = SchemaError ext | Valid | Invalid "string list"

type_synonym validator = "json \<Rightarrow> string \<Rightarrow> schema_verdict"

definition ValidateParameters :: "validator \<Rightarrow> json \<Rightarrow> string \<Rightarrow> (err, unit) go" where
  "ValidateParameters validate schema raw =
     (if raw = [] \<or> raw = ''null'' then Ok ()
      else case validate schema raw of
        SchemaError e \<Rightarrow> Err (CannotValidate e)
      | Invalid msgs \<Rightarrow> Err (InvalidParameters msgs)
      | Valid \<Rightarrow> Ok ())"

text \<open>\<open>parseParams\<close> and the binding parameters of \<open>Bind\<close> stand in \<open>broker.go\<close>.\<close>

definition parseParams :: "validator \<Rightarrow> json \<Rightarrow> string \<Rightarrow> (err, param_map) go" where
  "parseParams validate schema raw =
     bind_go (ValidateParameters validate schema raw) (\<lambda>_. rawParameters raw)"

definition binding_spec :: "param_map \<Rightarrow> BindingParams" where
  "binding_spec params = \<lparr>bp_Name = (case params ''name'' of Some v \<Rightarrow> go_sprint v | None \<Rightarrow> [])\<rparr>"

section \<open>What the resolver accepts\<close>

lemma boundedInt_not_Panic [simp]: "boundedInt params key fb mx \<noteq> Panic"
  by (auto simp: boundedInt_def split: option.splits json.splits)

lemma boundedInt_Ok:
  assumes mx: "1 \<le> mx" "mx \<le> 2 ^ 53"
  shows "boundedInt params key fb mx = Ok n \<longleftrightarrow>
    (params key = None \<and> n = fb) \<or> (params key = Some (JNum (of_int n)) \<and> 1 \<le> n \<and> n \<le> mx)"
proof (cases "\<exists>v. params key = Some (JNum v)")
  case True
  then obtain v where v: "params key = Some (JNum v)" ..
  have fm: "float_of_int mx = of_int mx" using mx by (simp add: float_of_small_int)
  show ?thesis
  proof
    assume "boundedInt params key fb mx = Ok n"
    then have eq: "v = float_of_int (int_of_float v)" and ge: "1 \<le> v" and le: "v \<le> of_int mx"
      and n: "n = int_of_float v"
      by (auto simp: boundedInt_def v fm split: if_splits)
    have fl: "1 \<le> \<lfloor>v\<rfloor>" "\<lfloor>v\<rfloor> \<le> mx" using ge le by (simp_all add: le_floor_iff floor_le_iff)
    moreover have "(of_int mx :: rat) \<le> of_int (2 ^ 53)" using mx by (simp only: of_int_le_iff)
    then have "v < 9223372036854775808" using le by simp
    ultimately have "n = \<lfloor>v\<rfloor>" using ge by (simp add: n int_of_float_def)
    moreover have "float_of_int \<lfloor>v\<rfloor> = of_int \<lfloor>v\<rfloor>"
      by (rule float_of_small_int) (use fl mx in linarith)
    then have "v = of_int \<lfloor>v\<rfloor>" using eq \<open>n = \<lfloor>v\<rfloor>\<close> n by simp
    ultimately show "(params key = None \<and> n = fb) \<or> (params key = Some (JNum (of_int n)) \<and> 1 \<le> n \<and> n \<le> mx)"
      using fl v by simp
  next
    assume "(params key = None \<and> n = fb) \<or> (params key = Some (JNum (of_int n)) \<and> 1 \<le> n \<and> n \<le> mx)"
    then show "boundedInt params key fb mx = Ok n"
      using mx by (auto simp: v boundedInt_def int_of_float_int float_of_small_int)
  qed
qed (auto simp: boundedInt_def split: option.splits json.splits)

text \<open>The quotas of a plan for which float64 comparison is exact.\<close>

definition exact_quotas :: "plan \<Rightarrow> bool" where
  "exact_quotas p \<longleftrightarrow> 1 \<le> p_MaxConnections p \<and> p_MaxConnections p \<le> 2 ^ 53
                     \<and> 1 \<le> p_StorageGB p \<and> p_StorageGB p \<le> 2 ^ 53"

definition quota_of :: "param_map \<Rightarrow> string \<Rightarrow> int \<Rightarrow> int \<Rightarrow> bool" where
  "quota_of params key mx n \<longleftrightarrow>
     (params key = None \<and> n = mx) \<or> (params key = Some (JNum (of_int n)) \<and> 1 \<le> n \<and> n \<le> mx)"

text \<open>A resolved parameter set within its plan: what the broker promises the operator.\<close>

definition within_plan :: "plan \<Rightarrow> InstanceParams \<Rightarrow> bool" where
  "within_plan p spec \<longleftrightarrow>
     ip_Compatibility spec \<in> set compatibilities \<and> ip_Encoding spec \<in> set encodings
   \<and> 1 \<le> ip_MaxConnections spec \<and> ip_MaxConnections spec \<le> p_MaxConnections p
   \<and> 1 \<le> ip_StorageGB spec \<and> ip_StorageGB spec \<le> p_StorageGB p"

lemma ResolveInstanceParams_Ok:
  assumes "exact_quotas p"
  shows "ResolveInstanceParams p params = Ok spec \<longleftrightarrow>
     ip_Compatibility spec = (case params ''compatibility'' of Some v \<Rightarrow> go_sprint v | None \<Rightarrow> ''PG'')
   \<and> ip_Encoding spec = (case params ''encoding'' of Some v \<Rightarrow> go_sprint v | None \<Rightarrow> ''UTF8'')
   \<and> ip_Name spec = (case params ''name'' of Some v \<Rightarrow> go_sprint v | None \<Rightarrow> [])
   \<and> quota_of params ''max_connections'' (p_MaxConnections p) (ip_MaxConnections spec)
   \<and> quota_of params ''storage_gb'' (p_StorageGB p) (ip_StorageGB spec)
   \<and> ip_Compatibility spec \<in> set compatibilities \<and> ip_Encoding spec \<in> set encodings"
proof -
  have d: "''PG'' \<in> set compatibilities" "''UTF8'' \<in> set encodings"
    by (simp_all add: compatibilities_def encodings_def)
  show ?thesis
    using assms d
    by (cases spec)
       (auto simp: ResolveInstanceParams_def Let_def boundedInt_Ok exact_quotas_def quota_of_def
             split: option.splits)
qed

lemma ResolveInstanceParams_within:
  assumes "exact_quotas p" and "ResolveInstanceParams p params = Ok spec"
  shows "within_plan p spec"
  using assms by (auto simp: ResolveInstanceParams_Ok within_plan_def quota_of_def exact_quotas_def)

lemma ResolveInstanceParams_not_Panic [simp]: "ResolveInstanceParams p params \<noteq> Panic"
  by (simp add: ResolveInstanceParams_def Let_def bind_go_eq_Panic)

lemma ResolveInstanceParams_defaults:
  "ResolveInstanceParams p Map.empty = Ok \<lparr>ip_Name = [], ip_Compatibility = ''PG'', ip_Encoding = ''UTF8'',
     ip_MaxConnections = p_MaxConnections p, ip_StorageGB = p_StorageGB p\<rparr>"
  by (simp add: ResolveInstanceParams_def boundedInt_def)

lemma parseParams_Ok:
  "parseParams validate schema raw = Ok params \<longleftrightarrow>
     ValidateParameters validate schema raw = Ok () \<and> rawParameters raw = Ok params"
  by (auto simp: parseParams_def)

lemma parseParams_not_Panic [simp]: "parseParams validate schema raw \<noteq> Panic"
  by (auto simp: parseParams_def ValidateParameters_def rawParameters_def bind_go_eq_Panic
           split: schema_verdict.splits option.splits)

section \<open>The published schema states the same rules\<close>

text \<open>
  What JSON Schema draft-04 says of the keywords the plan schemas use: \<open>type\<close>, \<open>enum\<close>,
  \<open>minimum\<close> and \<open>maximum\<close> of a value, \<open>properties\<close> of an object. This is the reading of
  the published schemas, written here for those keywords only; gojsonschema, which the code
  calls, stays the parameter \<open>validate\<close>. A number such as 3.0 counts as an integer, as
  gojsonschema has it; the text of draft-04 would not admit it.
\<close>

definition keyword :: "string \<Rightarrow> json \<Rightarrow> json option" where
  "keyword k schema = (case schema of JObj kvs \<Rightarrow> map_of kvs k | _ \<Rightarrow> None)"

definition type_valid :: "json \<Rightarrow> json \<Rightarrow> bool" where
  "type_valid schema v \<longleftrightarrow>
     (if keyword ''type'' schema = Some (JStr ''string'') then (case v of JStr _ \<Rightarrow> True | _ \<Rightarrow> False)
      else if keyword ''type'' schema = Some (JStr ''integer'')
        then (case v of JNum q \<Rightarrow> of_int \<lfloor>q\<rfloor> = q | _ \<Rightarrow> False)
      else True)"

definition value_valid :: "json \<Rightarrow> json \<Rightarrow> bool" where
  "value_valid schema v \<longleftrightarrow> type_valid schema v
   \<and> (case keyword ''enum'' schema of Some (JArr vs) \<Rightarrow> v \<in> set vs | _ \<Rightarrow> True)
   \<and> (case (keyword ''minimum'' schema, v) of (Some (JNum m), JNum q) \<Rightarrow> m \<le> q | _ \<Rightarrow> True)
   \<and> (case (keyword ''maximum'' schema, v) of (Some (JNum m), JNum q) \<Rightarrow> q \<le> m | _ \<Rightarrow> True)"

definition member_valid :: "(string \<times> json) list \<Rightarrow> string \<times> json \<Rightarrow> bool" where
  "member_valid kvs prop =
     (case map_of (rev kvs) (fst prop) of None \<Rightarrow> True | Some v \<Rightarrow> value_valid (snd prop) v)"

definition document_valid :: "json \<Rightarrow> json \<Rightarrow> bool" where
  "document_valid schema doc = (case (keyword ''properties'' schema, doc) of
      (Some (JObj props), JObj kvs) \<Rightarrow> list_all (member_valid kvs) props
    | _ \<Rightarrow> False)"

lemma decode_any_lookup:
  "those (map (\<lambda>(k, v). map_option (Pair k) (decode_any v)) kvs) = Some dvs \<Longrightarrow>
   map_of (rev dvs) k = Option.bind (map_of (rev kvs) k) decode_any
   \<and> (\<forall>v. map_of (rev kvs) k = Some v \<longrightarrow> decode_any v \<noteq> None)"
proof (induction kvs arbitrary: dvs)
  case (Cons kv kvs)
  obtain k' v where kv: "kv = (k', v)" by (cases kv)
  with Cons.prems obtain d ds where d: "decode_any v = Some d" "dvs = (k', d) # ds"
    and ds: "those (map (\<lambda>(k, v). map_option (Pair k) (decode_any v)) kvs) = Some ds"
    by (auto split: option.splits)
  show ?case using Cons.IH [OF ds] d
    by (auto simp: kv map_add_def split: option.splits)
qed simp

lemma value_valid_decode:
  assumes "value_valid schema v" and "decode_any v = Some d"
    and "keyword ''type'' schema = Some (JStr ''string'')
       \<or> (keyword ''type'' schema = Some (JStr ''integer'')
          \<and> (\<exists>m. keyword ''maximum'' schema = Some (JNum (of_int m)) \<and> m \<le> 2 ^ 53)
          \<and> keyword ''minimum'' schema = Some (JNum 1))"
  shows "d = v"
proof (cases v)
  case (JNum q)
  with assms(1) assms(3) obtain m where q: "of_int \<lfloor>q\<rfloor> = q" "1 \<le> q" "q \<le> of_int m" "m \<le> 2 ^ 53"
    by (auto simp: value_valid_def type_valid_def)
  then have "\<bar>\<lfloor>q\<rfloor>\<bar> \<le> 2 ^ 53" by (simp add: le_floor_iff floor_le_iff)
  then have "float_round q = Some q" using float_round_small_int [of "\<lfloor>q\<rfloor>"] q(1) by simp
  then show ?thesis using assms(2) JNum by simp
qed (use assms in \<open>auto simp: value_valid_def type_valid_def\<close>)

definition string_keys :: "string list" where
  "string_keys = [''compatibility'', ''encoding'', ''name'']"

lemma plan_schema_properties:
  "keyword ''properties'' (instanceSchema p) = Some (JObj (instance_properties p))"
  by (simp add: keyword_def instanceSchema_def draft04_def)

lemma value_valid_enum:
  "value_valid (JObj [(''type'', JStr ''string''), (''enum'', JArr (map JStr ss)), (''default'', d), (''description'', e)]) v
     \<longleftrightarrow> (\<exists>s\<in>set ss. v = JStr s)"
  by (cases v) (auto simp: value_valid_def type_valid_def keyword_def)

lemma value_valid_string:
  "value_valid (JObj [(''type'', JStr ''string''), (''description'', e)]) v \<longleftrightarrow> (\<exists>s. v = JStr s)"
  by (cases v) (auto simp: value_valid_def type_valid_def keyword_def)

lemma value_valid_integer:
  "value_valid (JObj [(''type'', JStr ''integer''), (''minimum'', JNum 1), (''maximum'', JNum (of_int mx)),
       (''default'', d), (''description'', e)]) v
     \<longleftrightarrow> (\<exists>n. v = JNum (of_int n) \<and> 1 \<le> n \<and> n \<le> mx)"
proof (cases v)
  case (JNum q)
  show ?thesis
  proof (cases "of_int \<lfloor>q\<rfloor> = q")
    case True
    then obtain n where "q = of_int n" by metis
    then show ?thesis using JNum by (simp add: value_valid_def type_valid_def keyword_def)
  next
    case False
    then show ?thesis using JNum by (auto simp: value_valid_def type_valid_def keyword_def)
  qed
qed (auto simp: value_valid_def type_valid_def keyword_def)

lemma document_valid_iff:
  "document_valid (instanceSchema p) (JObj kvs) \<longleftrightarrow>
     (\<forall>v. map_of (rev kvs) ''compatibility'' = Some v \<longrightarrow> (\<exists>s\<in>set compatibilities. v = JStr s))
   \<and> (\<forall>v. map_of (rev kvs) ''encoding'' = Some v \<longrightarrow> (\<exists>s\<in>set encodings. v = JStr s))
   \<and> (\<forall>v. map_of (rev kvs) ''max_connections'' = Some v \<longrightarrow>
        (\<exists>n. v = JNum (of_int n) \<and> 1 \<le> n \<and> n \<le> p_MaxConnections p))
   \<and> (\<forall>v. map_of (rev kvs) ''storage_gb'' = Some v \<longrightarrow>
        (\<exists>n. v = JNum (of_int n) \<and> 1 \<le> n \<and> n \<le> p_StorageGB p))
   \<and> (\<forall>v. map_of (rev kvs) ''name'' = Some v \<longrightarrow> (\<exists>s. v = JStr s))"
proof -
  have each: "member_valid kvs (k, s) \<longleftrightarrow> (\<forall>v. map_of (rev kvs) k = Some v \<longrightarrow> value_valid s v)" for k s
    by (auto simp: member_valid_def split: option.splits)
  show ?thesis
    unfolding document_valid_def plan_schema_properties
    by (simp add: instance_properties_def each value_valid_enum value_valid_string value_valid_integer)
qed

lemma resolves_iff:
  assumes "exact_quotas p"
  shows "is_ok (ResolveInstanceParams p params) \<longleftrightarrow>
     (\<forall>v. params ''compatibility'' = Some v \<longrightarrow> go_sprint v \<in> set compatibilities)
   \<and> (\<forall>v. params ''encoding'' = Some v \<longrightarrow> go_sprint v \<in> set encodings)
   \<and> (\<forall>v. params ''max_connections'' = Some v \<longrightarrow>
        (\<exists>n. v = JNum (of_int n) \<and> 1 \<le> n \<and> n \<le> p_MaxConnections p))
   \<and> (\<forall>v. params ''storage_gb'' = Some v \<longrightarrow>
        (\<exists>n. v = JNum (of_int n) \<and> 1 \<le> n \<and> n \<le> p_StorageGB p))"
proof -
  have b: "(\<exists>n. boundedInt params k m m = Ok n) \<longleftrightarrow>
      (\<forall>v. params k = Some v \<longrightarrow> (\<exists>n. v = JNum (of_int n) \<and> 1 \<le> n \<and> n \<le> m))"
    if "1 \<le> m" "m \<le> 2 ^ 53" for k m
    using that by (cases "params k") (auto simp: boundedInt_Ok)
  have "is_ok (ResolveInstanceParams p params) \<longleftrightarrow>
     (\<forall>v. params ''compatibility'' = Some v \<longrightarrow> go_sprint v \<in> set compatibilities)
   \<and> (\<forall>v. params ''encoding'' = Some v \<longrightarrow> go_sprint v \<in> set encodings)
   \<and> (\<exists>n. boundedInt params ''max_connections'' (p_MaxConnections p) (p_MaxConnections p) = Ok n)
   \<and> (\<exists>n. boundedInt params ''storage_gb'' (p_StorageGB p) (p_StorageGB p) = Ok n)"
    by (auto simp: is_ok_iff ResolveInstanceParams_def Let_def split: option.splits)
  then show ?thesis using assms by (simp only: b exact_quotas_def simp_thms)
qed

lemma rawParameters_decoded:
  assumes "json_parse raw = Some (JObj kvs)" and "rawParameters raw = Ok params"
  shows "\<exists>dvs. those (map (\<lambda>(k, v). map_option (Pair k) (decode_any v)) kvs) = Some dvs
           \<and> params = map_of (rev dvs)"
proof -
  have "raw \<noteq> []" using assms(1) by (auto simp: json_parse_def skip_ws_def)
  with assms show ?thesis
    by (auto simp: rawParameters_def unmarshal_any_map_def split: option.splits)
qed

lemma rawParameters_object:
  assumes "json_parse raw = Some (JObj kvs)" and "rawParameters raw = Ok params"
  shows "params k = Option.bind (map_of (rev kvs) k) decode_any
       \<and> (map_of (rev kvs) k = None \<or> params k \<noteq> None)"
proof -
  obtain dvs where d: "those (map (\<lambda>(k, v). map_option (Pair k) (decode_any v)) kvs) = Some dvs"
    and p: "params = map_of (rev dvs)" using rawParameters_decoded [OF assms] by blast
  show ?thesis unfolding p using decode_any_lookup [OF d, of k] by (cases "map_of (rev kvs) k") auto
qed

lemma decode_string: "decode_any v = Some (JStr s) \<longleftrightarrow> v = JStr s"
  by (cases v) auto

lemma decode_number: "decode_any v = Some (JNum r) \<longleftrightarrow> (\<exists>q. v = JNum q \<and> float_round q = Some r)"
  by (cases v) auto

lemma quota_decoded:
  assumes "mx \<le> 2 ^ 53" and "params k = Option.bind m decode_any" and "m = None \<or> params k \<noteq> None"
  shows "(\<forall>v. m = Some v \<longrightarrow> (\<exists>n. v = JNum (of_int n) \<and> 1 \<le> n \<and> n \<le> mx)) \<longleftrightarrow>
     (\<forall>v. params k = Some v \<longrightarrow> (\<exists>n. v = JNum (of_int n) \<and> 1 \<le> n \<and> n \<le> mx))
     \<and> \<not> (\<exists>q. m = Some (JNum q) \<and> float_round q \<noteq> Some q)"
proof (cases m)
  case (Some v)
  have "float_round (of_int n) = Some (of_int n)" if "1 \<le> n" "n \<le> mx" for n
    by (rule float_round_small_int) (use that assms(1) in linarith)
  then show ?thesis using assms Some by (cases v) auto
qed (use assms in auto)

lemma enum_decoded:
  assumes "params k = Option.bind m decode_any"
  shows "(\<forall>v. m = Some v \<longrightarrow> (\<exists>s\<in>set C. v = JStr s)) \<longleftrightarrow>
     (\<forall>v. params k = Some v \<longrightarrow> go_sprint v \<in> set C) \<and> \<not> (\<exists>v. m = Some v \<and> (\<nexists>s. v = JStr s))"
  using assms by (cases m) auto

section \<open>Properties\<close>

text \<open>
  Claim C26. The resolver against its specification, on every plan whose quotas float64
  represents exactly: it succeeds exactly with the defaults for what is absent, the
  named compatibility and encoding when they are of the two lists, and each quota a whole
  number between 1 and the plan's, which is read without loss.
\<close>

theorem resolve_exact:
  assumes "exact_quotas p"
  shows "ResolveInstanceParams p params = Ok spec \<longleftrightarrow>
     ip_Compatibility spec = (case params ''compatibility'' of Some v \<Rightarrow> go_sprint v | None \<Rightarrow> ''PG'')
   \<and> ip_Encoding spec = (case params ''encoding'' of Some v \<Rightarrow> go_sprint v | None \<Rightarrow> ''UTF8'')
   \<and> ip_Name spec = (case params ''name'' of Some v \<Rightarrow> go_sprint v | None \<Rightarrow> [])
   \<and> quota_of params ''max_connections'' (p_MaxConnections p) (ip_MaxConnections spec)
   \<and> quota_of params ''storage_gb'' (p_StorageGB p) (ip_StorageGB spec)
   \<and> ip_Compatibility spec \<in> set compatibilities \<and> ip_Encoding spec \<in> set encodings"
  by (rule ResolveInstanceParams_Ok [OF assms])

definition sample_plan :: plan where
  "sample_plan = \<lparr>p_ID = ''11111111-2222-3333-4444-555555555555'', p_Name = ''small'', p_DisplayName = [],
     p_Description = ''Small'', p_StorageGB = 5, p_MaxConnections = 20\<rparr>"

lemma sample_plan_exact: "exact_quotas sample_plan"
  by (simp add: exact_quotas_def sample_plan_def)

theorem resolve_exact_witness:
  "ResolveInstanceParams sample_plan [''max_connections'' \<mapsto> JNum 7, ''encoding'' \<mapsto> JStr ''GBK''] =
     Ok \<lparr>ip_Name = [], ip_Compatibility = ''PG'', ip_Encoding = ''GBK'', ip_MaxConnections = 7, ip_StorageGB = 5\<rparr>"
proof -
  have "JNum 7 = JNum (of_int 7)" by simp
  then show ?thesis
    by (subst resolve_exact [OF sample_plan_exact])
       (simp add: quota_of_def sample_plan_def compatibilities_def encodings_def)
qed

text \<open>
  Claim C25. The schema published for a plan and the resolver state the same rules, read
  as draft-04 reads the keywords used: a JSON object satisfies the schema exactly when the
  resolver accepts it, its three text parameters are JSON strings, and decoding to float64
  did not round a quota. Nothing the platform validates against the catalog is refused.
\<close>

theorem schema_agrees:
  assumes "exact_quotas p" and "json_parse raw = Some (JObj kvs)" and "rawParameters raw = Ok params"
  shows "document_valid (instanceSchema p) (JObj kvs) \<longleftrightarrow>
     is_ok (ResolveInstanceParams p params)
   \<and> \<not> (\<exists>k v. k \<in> set string_keys \<and> map_of (rev kvs) k = Some v \<and> (\<nexists>s. v = JStr s))
   \<and> \<not> (\<exists>k q. k \<in> {''max_connections'', ''storage_gb''}
            \<and> map_of (rev kvs) k = Some (JNum q) \<and> float_round q \<noteq> Some q)"
proof -
  have lk: "params k = Option.bind (map_of (rev kvs) k) decode_any"
    and all: "map_of (rev kvs) k = None \<or> params k \<noteq> None" for k
    using rawParameters_object [OF assms(2,3), of k] by blast+
  have q: "p_MaxConnections p \<le> 2 ^ 53" "p_StorageGB p \<le> 2 ^ 53"
    using assms(1) by (simp_all add: exact_quotas_def)
  note mc = quota_decoded [where params = params and k = "''max_connections''", OF q(1) lk [of "''max_connections''"] all [of "''max_connections''"]]
  note sg = quota_decoded [where params = params and k = "''storage_gb''", OF q(2) lk [of "''storage_gb''"] all [of "''storage_gb''"]]
  note en = enum_decoded [where params = params and k = "''compatibility''", OF lk] enum_decoded [where params = params and k = "''encoding''", OF lk]
  show ?thesis
    unfolding document_valid_iff resolves_iff [OF assms(1)] mc sg en string_keys_def
    by (simp add: ex_disj_distrib conj_disj_distribR) blast
qed

definition sample_raw :: "char \<Rightarrow> string" where
  "sample_raw d = ''{'' @ [CHR 0x22] @ ''storage_gb'' @ [CHR 0x22] @ '':'' @ [d] @ ''}''"

lemma sample_raw_parses:
  "json_parse (sample_raw CHR ''3'') = Some (JObj [(''storage_gb'', JNum 3)])"
  "sample_raw CHR ''3'' \<noteq> []"
  by code_simp (simp add: sample_raw_def)

lemma sample_raw_params: "rawParameters (sample_raw CHR ''3'') = Ok [''storage_gb'' \<mapsto> JNum 3]"
proof -
  have "float_round 3 = Some 3" using float_round_small_int [of 3] by simp
  then show ?thesis using sample_raw_parses by (simp add: rawParameters_def unmarshal_any_map_def)
qed

definition sample_pair :: "string \<Rightarrow> char \<Rightarrow> string" where
  "sample_pair v d = ''{'' @ [CHR 0x22] @ ''compatibility'' @ [CHR 0x22] @ '':'' @ [CHR 0x22] @ v @ [CHR 0x22]
     @ '','' @ [CHR 0x22] @ ''storage_gb'' @ [CHR 0x22] @ '':'' @ [d] @ ''}''"

lemma sample_pair_parses:
  "json_parse (sample_pair ''PG'' CHR ''3'') = Some (JObj [(''compatibility'', JStr ''PG''), (''storage_gb'', JNum 3)])"
  "json_parse (sample_pair ''PG'' CHR ''0'') = Some (JObj [(''compatibility'', JStr ''PG''), (''storage_gb'', JNum 0)])"
  "sample_pair v d \<noteq> []"
  by (code_simp, code_simp, simp add: sample_pair_def)

lemma sample_pair_params:
  "rawParameters (sample_pair ''PG'' CHR ''3'') = Ok [''compatibility'' \<mapsto> JStr ''PG'', ''storage_gb'' \<mapsto> JNum 3]"
  "rawParameters (sample_pair ''PG'' CHR ''0'') = Ok [''compatibility'' \<mapsto> JStr ''PG'', ''storage_gb'' \<mapsto> JNum 0]"
proof -
  have "float_round 3 = Some 3" "float_round 0 = Some 0"
    using float_round_small_int [of 3] float_round_small_int [of 0] by simp_all
  then show "rawParameters (sample_pair ''PG'' CHR ''3'') = Ok [''compatibility'' \<mapsto> JStr ''PG'', ''storage_gb'' \<mapsto> JNum 3]"
    "rawParameters (sample_pair ''PG'' CHR ''0'') = Ok [''compatibility'' \<mapsto> JStr ''PG'', ''storage_gb'' \<mapsto> JNum 0]"
    using sample_pair_parses by (simp_all add: rawParameters_def unmarshal_any_map_def fun_upd_twist)
qed

theorem schema_agrees_witness:
  "is_ok (ResolveInstanceParams sample_plan [''compatibility'' \<mapsto> JStr ''PG'', ''storage_gb'' \<mapsto> JNum 3])
   \<and> \<not> document_valid (instanceSchema sample_plan) (JObj [(''compatibility'', JStr ''PG''), (''storage_gb'', JNum 0)])"
proof
  have "(JNum 3 :: json) = JNum (of_int 3)" by simp
  then have "document_valid (instanceSchema sample_plan) (JObj [(''compatibility'', JStr ''PG''), (''storage_gb'', JNum 3)])"
    unfolding document_valid_iff by (simp add: sample_plan_def compatibilities_def)
  then show "is_ok (ResolveInstanceParams sample_plan [''compatibility'' \<mapsto> JStr ''PG'', ''storage_gb'' \<mapsto> JNum 3])"
    using schema_agrees [OF sample_plan_exact sample_pair_parses(1) sample_pair_params(1)] by blast
  have "\<not> is_ok (ResolveInstanceParams sample_plan [''compatibility'' \<mapsto> JStr ''PG'', ''storage_gb'' \<mapsto> JNum 0])"
    by (simp add: ResolveInstanceParams_def Let_def boundedInt_def compatibilities_def encodings_def)
  then show "\<not> document_valid (instanceSchema sample_plan) (JObj [(''compatibility'', JStr ''PG''), (''storage_gb'', JNum 0)])"
    using schema_agrees [OF sample_plan_exact sample_pair_parses(2) sample_pair_params(2)] by blast
qed

end
