(* ===== verification/Templates.thy ===== *)
theory Templates
  imports Params
begin

text \<open>
  \<open>templates.go\<close> and the SQL templates under \<open>templates/opengauss/\<close>. Of \<open>text/template\<close>
  the model has plain text and \<open>{{.Field}}\<close> actions, which is all the embedded templates
  use; the rest of that language, reachable only through an override in TEMPLATE_DIR, is
  a parameter of the environment, as is the file system.
\<close>

section \<open>Variables\<close>

record TemplateVars =
  tv_Database :: string
  tv_GroupRole :: string
  tv_Tablespace :: string
  tv_AdminUser :: string
  tv_Username :: string
  tv_Password :: string
  tv_GroupPassword :: string
  tv_Encoding :: string
  tv_Compatibility :: string
  tv_StorageQuota :: string
  tv_TablePrefix :: string
  tv_DatabaseLiteral :: string
  tv_UsernameLiteral :: string
  tv_MaxConnections :: int

definition field_value :: "TemplateVars \<Rightarrow> string \<Rightarrow> string option" where
  "field_value v = map_of [
     (''Database'', tv_Database v), (''GroupRole'', tv_GroupRole v),
     (''Tablespace'', tv_Tablespace v), (''AdminUser'', tv_AdminUser v),
     (''Username'', tv_Username v), (''Password'', tv_Password v),
     (''GroupPassword'', tv_GroupPassword v), (''Encoding'', tv_Encoding v),
     (''Compatibility'', tv_Compatibility v), (''StorageQuota'', tv_StorageQuota v),
     (''TablePrefix'', tv_TablePrefix v), (''DatabaseLiteral'', tv_DatabaseLiteral v),
     (''UsernameLiteral'', tv_UsernameLiteral v), (''MaxConnections'', int_text (tv_MaxConnections v))]"

section \<open>The template language\<close>

datatype tok = C char | V string

definition ident_char :: "char \<Rightarrow> bool" where
  "ident_char c \<longleftrightarrow> is_alnum c \<or> c = CHR ''_''"

definition field_action :: "string \<Rightarrow> (string \<times> string) option" where
  "field_action s = (case s of
      [] \<Rightarrow> None
    | d # cs \<Rightarrow>
        (let f = takeWhile ident_char cs; rest = dropWhile ident_char cs
         in if d = CHR ''.'' \<and> f \<noteq> [] \<and> \<not> is_digit (hd f) \<and> has_prefix ''}}'' rest
            then Some (f, drop 2 rest) else None))"

lemma field_action_shorter: "field_action s = Some (f, rest) \<Longrightarrow> length rest < length s"
proof -
  assume "field_action s = Some (f, rest)"
  then obtain d cs where s: "s = d # cs" and r: "rest = drop 2 (dropWhile ident_char cs)"
    by (auto simp: field_action_def Let_def split: list.splits if_splits)
  have "length rest \<le> length cs" unfolding r
    by (rule order_trans [OF _ length_dropWhile_le [of ident_char cs]]) simp
  then show ?thesis using s by simp
qed

function parse_fields :: "string \<Rightarrow> tok list option" where
  "parse_fields [] = Some []"
| "parse_fields (c # cs) =
     (if has_prefix ''{{'' (c # cs) then
        (case field_action (tl cs) of
           None \<Rightarrow> None
         | Some (f, rest) \<Rightarrow> map_option (Cons (V f)) (parse_fields rest))
      else map_option (Cons (C c)) (parse_fields cs))"
  by pat_completeness auto

termination
  by (relation "measure length") (auto dest!: field_action_shorter)

text \<open>
  Executing a template: an unknown field ends it with an error (whose position prefix is
  left out here).
\<close>

fun tok_text :: "TemplateVars \<Rightarrow> tok \<Rightarrow> ext + string" where
  "tok_text v (C c) = Inr [c]"
| "tok_text v (V f) = (case field_value v f of
      None \<Rightarrow> Inl (''cannot evaluate field '' @ f @ '' in type main.TemplateVars'')
    | Some t \<Rightarrow> Inr t)"

fun exec_fields :: "TemplateVars \<Rightarrow> tok list \<Rightarrow> ext + string" where
  "exec_fields v [] = Inr []"
| "exec_fields v (t # ts) = (case tok_text v t of
      Inl e \<Rightarrow> Inl e
    | Inr s \<Rightarrow> (case exec_fields v ts of Inl e \<Rightarrow> Inl e | Inr r \<Rightarrow> Inr (s @ r)))"

text \<open>A parsed template: its name and what \<open>Execute\<close> writes for given variables.\<close>

type_synonym template = "string \<times> (TemplateVars \<Rightarrow> ext + string)"

datatype read_result = NotExist | ReadError ext | Content string

record template_env =
  te_read :: "string \<Rightarrow> string \<Rightarrow> read_result"
  te_parse :: "string \<Rightarrow> string \<Rightarrow> ext + (TemplateVars \<Rightarrow> ext + string)"

definition parse_template :: "template_env \<Rightarrow> string \<Rightarrow> string \<Rightarrow> (err, template) go" where
  "parse_template env name content = (case parse_fields content of
      Some toks \<Rightarrow> Ok (name, \<lambda>v. exec_fields v toks)
    | None \<Rightarrow> map_err External (go_of_sum (map_sum id (Pair name) (te_parse env name content))))"

section \<open>The embedded templates\<close>

definition admin_bind_sql :: string where
  "admin_bind_sql = ''-- bind.sql: creates a read-write login user and joins it to the group role.
-- Executed on the admin database.

CREATE USER {{.Username}} LOGIN PASSWORD {{.Password}};

GRANT {{.GroupRole}} TO {{.Username}};
''"

definition admin_deprovision_sql :: string where
  "admin_deprovision_sql = ''-- deprovision.sql: removes the whole tenant (database, tablespace, role).
-- Executed on the admin database.

-- DROP DATABASE requires membership in the owner role.
GRANT {{.GroupRole}} TO {{.AdminUser}};

SELECT pg_terminate_backend(pid) FROM pg_stat_activity WHERE datname = {{.DatabaseLiteral}};

DROP DATABASE IF EXISTS {{.Database}};

DROP TABLESPACE IF EXISTS {{.Tablespace}};

REVOKE {{.GroupRole}} FROM {{.AdminUser}};

DROP ROLE IF EXISTS {{.GroupRole}};
''"

definition admin_provision_sql :: string where
  "admin_provision_sql = ''-- provision.sql: creates the tenant's group role, tablespace and database.
-- Executed on the admin database (usually postgres).

CREATE ROLE {{.GroupRole}} NOLOGIN PASSWORD {{.GroupPassword}};

-- Temporary membership: CREATE DATABASE OWNER and CREATE TABLESPACE OWNER
-- require the executing user to be a member of the owner role.
GRANT {{.GroupRole}} TO {{.AdminUser}};

CREATE TABLESPACE {{.Tablespace}} OWNER {{.GroupRole}}
  RELATIVE LOCATION {{.TablePrefix}} MAXSIZE {{.StorageQuota}};

CREATE DATABASE {{.Database}} OWNER {{.GroupRole}}
  TEMPLATE template0
  ENCODING {{.Encoding}}
  DBCOMPATIBILITY {{.Compatibility}}
  TABLESPACE {{.Tablespace}}
  CONNECTION LIMIT {{.MaxConnections}};

-- Lock connection isolation: only the group role and the broker admin
-- may connect to this database.
REVOKE CONNECT ON DATABASE {{.Database}} FROM PUBLIC;
GRANT CONNECT ON DATABASE {{.Database}} TO {{.GroupRole}};
GRANT CONNECT ON DATABASE {{.Database}} TO {{.AdminUser}};

-- Drop the temporary membership used for CREATE DATABASE OWNER.
REVOKE {{.GroupRole}} FROM {{.AdminUser}};
''"

definition admin_unbind_sql :: string where
  "admin_unbind_sql = ''-- unbind.sql: removes the user's auto-created schema and the user itself.
-- Executed on the admin database.

-- openGauss auto-creates a same-named schema for new users in the
-- database where they are created; clean it up.
DROP SCHEMA IF EXISTS {{.Username}} CASCADE;

DROP USER IF EXISTS {{.Username}};
''"

definition admin_update_sql :: string where
  "admin_update_sql = ''-- update.sql: changes the connection limit and the storage cap.
-- Executed on the admin database.

-- ALTER DATABASE requires membership in the owner role.
GRANT {{.GroupRole}} TO {{.AdminUser}};

ALTER DATABASE {{.Database}} CONNECTION LIMIT = {{.MaxConnections}};

-- Resize the tenant's storage cap. If the new quota is below current
-- usage the change still succeeds, but writes are blocked until usage
-- drops under the new limit.
ALTER TABLESPACE {{.Tablespace}} RESIZE MAXSIZE {{.StorageQuota}};

REVOKE {{.GroupRole}} FROM {{.AdminUser}};
''"

definition tenant_bind_sql :: string where
  "tenant_bind_sql = ''-- bind.sql: sets up per-binding default privileges so everything the user
-- creates in public is visible to the whole group.
-- Executed on the tenant database.

ALTER DEFAULT PRIVILEGES FOR ROLE {{.Username}}
  IN SCHEMA public
  GRANT SELECT, INSERT, UPDATE, DELETE ON TABLES TO {{.GroupRole}};

ALTER DEFAULT PRIVILEGES FOR ROLE {{.Username}}
  IN SCHEMA public
  GRANT USAGE, SELECT ON SEQUENCES TO {{.GroupRole}};
''"

definition tenant_provision_sql :: string where
  "tenant_provision_sql = ''-- provision.sql: sets up the tenant database's shared public schema.
-- Executed on the newly created tenant database.

-- Object isolation: ordinary users only see objects they may access.
ALTER DATABASE {{.Database}} ENABLE PRIVATE OBJECT;

-- The tenant's group role gets full access to the shared namespace.
GRANT USAGE, CREATE ON SCHEMA public TO {{.GroupRole}};

-- Allow the group role to create additional schemas (opt-in namespaces).
GRANT CREATE ON DATABASE {{.Database}} TO {{.GroupRole}};
''"

definition tenant_unbind_sql :: string where
  "tenant_unbind_sql = ''-- unbind.sql: terminates the user's sessions and drops everything it owns.
-- Executed on the tenant database.

SELECT pg_terminate_backend(pid) FROM pg_stat_activity WHERE usename = {{.UsernameLiteral}};

DROP OWNED BY {{.Username}} CASCADE;
''"

definition embedded :: "string \<Rightarrow> string option" where
  "embedded = map_of [
     (''templates/opengauss/admin-db/bind.sql'', admin_bind_sql),
     (''templates/opengauss/admin-db/deprovision.sql'', admin_deprovision_sql),
     (''templates/opengauss/admin-db/provision.sql'', admin_provision_sql),
     (''templates/opengauss/admin-db/unbind.sql'', admin_unbind_sql),
     (''templates/opengauss/admin-db/update.sql'', admin_update_sql),
     (''templates/opengauss/tenant-db/bind.sql'', tenant_bind_sql),
     (''templates/opengauss/tenant-db/provision.sql'', tenant_provision_sql),
     (''templates/opengauss/tenant-db/unbind.sql'', tenant_unbind_sql)]"

section \<open>Loading and rendering\<close>

definition read_embedded :: "string \<Rightarrow> read_result" where
  "read_embedded relPath = (case embedded (''templates/'' @ relPath) of
      Some content \<Rightarrow> Content content
    | None \<Rightarrow> ReadError (''open templates/'' @ relPath @ '': file does not exist''))"

definition LoadTemplate :: "template_env \<Rightarrow> string \<Rightarrow> string \<Rightarrow> (err, template) go" where
  "LoadTemplate env dir relPath =
     (let found = (if dir \<noteq> [] then
                     (case te_read env dir relPath of
                        NotExist \<Rightarrow> read_embedded relPath
                      | r \<Rightarrow> r)
                   else read_embedded relPath)
      in case found of
           Content content \<Rightarrow> parse_template env relPath content
         | ReadError e \<Rightarrow> Err (CannotLoadTemplate relPath e)
         | NotExist \<Rightarrow> Err (CannotLoadTemplate relPath ''file does not exist''))"

definition newline :: char where
  "newline = CHR 0x0A"

text \<open>The pattern \<open>^\s*--\<close>; its \<open>\s\<close> is tab, newline, form feed, return and space.\<close>

definition sqlComment :: "string \<Rightarrow> bool" where
  "sqlComment line \<longleftrightarrow> has_prefix ''--''
     (dropWhile (\<lambda>c. c \<in> {CHR 0x09, CHR 0x0A, CHR 0x0C, CHR 0x0D, CHR '' ''}) line)"

definition clean_lines :: "string \<Rightarrow> string list" where
  "clean_lines sql = filter (\<lambda>line. \<not> (line = [] \<or> sqlComment line))
     (map trim_space (split_on (\<lambda>c. c = newline) sql))"

definition splitSQL :: "string \<Rightarrow> string list" where
  "splitSQL sql = filter (\<lambda>stmt. stmt \<noteq> [])
     (map (\<lambda>stmt. join '' '' (fields_space stmt))
        (split_on (\<lambda>c. c = CHR '';'') (join [newline] (clean_lines sql))))"

definition RenderTemplate :: "template \<Rightarrow> TemplateVars \<Rightarrow> (err, string list) go" where
  "RenderTemplate tmpl v = (case snd tmpl v of
      Inl e \<Rightarrow> Err (CannotRender (fst tmpl) e)
    | Inr sql \<Rightarrow> Ok (splitSQL sql))"

section \<open>The layout of a SQL file\<close>

text \<open>
  A file laid out as the templates are: blank lines, comment lines, and code lines of
  words separated by one space, a statement ending with the \<open>;\<close> at the end of a line. A
  word is plain text or one variable.
\<close>

datatype word = W string | F string

datatype line = Blank | Comment string | Code nat "word list" bool

fun word_source :: "word \<Rightarrow> string" where
  "word_source (W s) = s"
| "word_source (F f) = ''{{.'' @ f @ ''}}''"

fun line_source :: "line \<Rightarrow> string" where
  "line_source Blank = [newline]"
| "line_source (Comment s) = ''-- '' @ s @ [newline]"
| "line_source (Code n ws e) =
     replicate n (CHR '' '') @ join '' '' (map word_source ws) @ (if e then '';'' else []) @ [newline]"

definition file_source :: "line list \<Rightarrow> string" where
  "file_source ls = concat (map line_source ls)"

text \<open>The statements of a file: its words, up to each end of a statement.\<close>

fun layout_stmts :: "word list \<Rightarrow> line list \<Rightarrow> word list list" where
  "layout_stmts acc [] = (if acc = [] then [] else [acc])"
| "layout_stmts acc (Code n ws e # ls) =
     (if e then (acc @ ws) # layout_stmts [] ls else layout_stmts (acc @ ws) ls)"
| "layout_stmts acc (_ # ls) = layout_stmts acc ls"

fun word_toks :: "word \<Rightarrow> tok list" where
  "word_toks (W s) = map C s"
| "word_toks (F f) = [V f]"

fun line_toks :: "line \<Rightarrow> tok list" where
  "line_toks Blank = [C newline]"
| "line_toks (Comment s) = map C (''-- '' @ s @ [newline])"
| "line_toks (Code n ws e) = replicate n (C (CHR '' '')) @ join [C (CHR '' '')] (map word_toks ws)
     @ map C (if e then '';'' else []) @ [C newline]"

fun tok_source :: "tok \<Rightarrow> string" where
  "tok_source (C c) = [c]"
| "tok_source (V f) = ''{{.'' @ f @ ''}}''"

definition tok_value :: "TemplateVars \<Rightarrow> tok \<Rightarrow> string" where
  "tok_value v t = (case tok_text v t of Inr s \<Rightarrow> s | Inl e \<Rightarrow> [])"

definition word_value :: "TemplateVars \<Rightarrow> word \<Rightarrow> string" where
  "word_value v w = (case w of W s \<Rightarrow> s | F f \<Rightarrow> (case field_value v f of Some t \<Rightarrow> t | None \<Rightarrow> []))"

definition ident :: "string \<Rightarrow> bool" where
  "ident f \<longleftrightarrow> f \<noteq> [] \<and> list_all ident_char f \<and> \<not> is_digit (hd f)"

definition tok_ok :: "tok \<Rightarrow> bool" where
  "tok_ok t = (case t of C c \<Rightarrow> c \<noteq> CHR ''{'' | V f \<Rightarrow> ident f)"

lemma subst_chars: "subst tok_source (map C s) = s" "subst (tok_value v) (map C s) = s"
  by (induction s) (simp_all add: tok_value_def)

lemma subst_word_source: "subst tok_source (word_toks w) = word_source w"
  by (cases w) (simp_all only: word_toks.simps subst_chars word_source.simps, simp)

lemma subst_word_value: "subst (tok_value v) (word_toks w) = word_value v w"
proof (cases w)
  case (W s)
  then show ?thesis by (simp only: word_toks.simps subst_chars word_value_def word.case)
next
  case (F f)
  then show ?thesis by (cases "field_value v f") (simp_all add: tok_value_def word_value_def)
qed

lemma line_source_toks: "line_source l = subst tok_source (line_toks l)"
proof (cases l)
  case (Comment s)
  then show ?thesis by (simp only: line_toks.simps line_source.simps subst_chars)
next
  case (Code n ws e)
  have "subst tok_source (join [C (CHR '' '')] (map word_toks ws)) = join '' '' (map word_source ws)"
    by (simp add: join_subst comp_def subst_word_source)
  moreover have "subst tok_source (map C (if e then '';'' else [])) = (if e then '';'' else [])"
    by (rule subst_chars)
  ultimately show ?thesis using Code by (simp add: map_replicate_const concat_replicate_single)
qed simp

lemma parse_fields_toks: "list_all tok_ok ts \<Longrightarrow> parse_fields (subst tok_source ts) = Some ts"
proof (induction ts)
  case (Cons t ts)
  show ?case
  proof (cases t)
    case (C c)
    then show ?thesis using Cons by (simp add: has_prefix_def tok_ok_def)
  next
    case (V f)
    then have f: "f \<noteq> []" "\<forall>c\<in>set f. ident_char c" "\<not> is_digit (hd f)"
      using Cons.prems by (auto simp: tok_ok_def ident_def list_all_iff)
    have b: "\<not> ident_char (CHR ''}'')" by code_simp
    have "field_action (''.'' @ f @ ''}}'' @ subst tok_source ts) = Some (f, subst tok_source ts)"
      using f b by (simp add: field_action_def Let_def has_prefix_def takeWhile_append2 dropWhile_append2)
    then show ?thesis using Cons V by (simp add: has_prefix_def)
  qed
qed simp

lemma exec_fields_toks:
  "\<forall>t\<in>set ts. \<exists>s. tok_text v t = Inr s \<Longrightarrow> exec_fields v ts = Inr (subst (tok_value v) ts)"
  by (induction ts) (auto simp: tok_value_def)

section \<open>Splitting a laid-out file\<close>

definition clean_word :: "string \<Rightarrow> bool" where
  "clean_word s \<longleftrightarrow> s \<noteq> [] \<and> list_all (\<lambda>c. is_ascii c \<and> \<not> is_space c \<and> c \<noteq> CHR '';'') s"

abbreviation semi :: "char \<Rightarrow> bool" where
  "semi c \<equiv> c = CHR '';''"

lemma join_words_chars: "c \<in> set (join '' '' ws) \<Longrightarrow> c = CHR '' '' \<or> (\<exists>w\<in>set ws. c \<in> set w)"
  by (induction "'' ''" ws rule: join.induct) auto

lemma newline_facts: "is_space newline" "is_space (CHR '' '')" "is_ascii newline" "is_ascii (CHR '' '')"
    "\<not> is_space (CHR '';'')" "is_ascii (CHR '';'')" "\<not> is_space (CHR ''-'')" "is_ascii (CHR ''-'')"
    "newline \<noteq> CHR '';''"
  by code_simp+

lemma join_clean:
  assumes "list_all clean_word ws"
  shows "list_all is_ascii (join '' '' ws)" and "\<not> (\<exists>c\<in>set (join '' '' ws). semi c)"
    and "\<not> (\<exists>c\<in>set (join '' '' ws). c = newline)"
proof -
  have "is_ascii c \<and> \<not> semi c \<and> c \<noteq> newline" if "c \<in> set (join '' '' ws)" for c
    using join_words_chars [OF that] assms newline_facts
    by (auto simp: list_all_iff clean_word_def newline_def)
  then show "list_all is_ascii (join '' '' ws)" and "\<not> (\<exists>c\<in>set (join '' '' ws). semi c)"
    and "\<not> (\<exists>c\<in>set (join '' '' ws). c = newline)" by (auto simp: list_all_iff)
qed

lemma fields_none: "xs \<noteq> [] \<Longrightarrow> \<forall>x\<in>set xs. \<not> p x \<Longrightarrow> fields_on p xs = [xs]"
  by (simp add: fields_on_def split_on_none)

lemma fields_Nil [simp]: "fields_on p [] = []"
  by (simp add: fields_on_def)

lemma fields_append_sep: "p x \<Longrightarrow> fields_on p (xs @ x # ys) = fields_on p xs @ fields_on p ys"
  by (simp add: fields_on_def split_on_append_sep)

lemma fields_join: "list_all clean_word ws \<Longrightarrow> fields_on is_space (join '' '' ws) = ws"
proof (induction "'' ''" ws rule: join.induct)
  case (2 x)
  then show ?case by (simp add: fields_none clean_word_def list_all_iff)
next
  case (3 x y ys)
  then have "fields_on is_space x = [x]" by (intro fields_none) (auto simp: clean_word_def list_all_iff)
  moreover have "fields_on is_space (x @ '' '' @ join '' '' (y # ys))
      = fields_on is_space x @ fields_on is_space (join '' '' (y # ys))"
    using fields_append_sep [of is_space "CHR '' ''"] newline_facts(2) by simp
  ultimately show ?case using 3 by simp
qed simp

definition cut :: "string \<Rightarrow> string list list" where
  "cut s = filter (\<lambda>ws. ws \<noteq> []) (map (fields_on is_space) (split_on semi s))"

fun code_text :: "string list \<times> bool \<Rightarrow> string" where
  "code_text (ws, e) = join '' '' ws @ (if e then '';'' else [])"

fun group :: "string list \<Rightarrow> (string list \<times> bool) list \<Rightarrow> string list list" where
  "group acc [] = (if acc = [] then [] else [acc])"
| "group acc ((ws, e) # cs) = (if e then (acc @ ws) # group [] cs else group (acc @ ws) cs)"

lemma cut_single: "\<not> (\<exists>c\<in>set s. semi c) \<Longrightarrow> cut s = (if fields_on is_space s = [] then [] else [fields_on is_space s])"
proof -
  assume "\<not> (\<exists>c\<in>set s. semi c)"
  then have "split_on semi s = [s]" by (intro split_on_none) auto
  then show ?thesis by (simp add: cut_def)
qed

lemma cut_append_semi: "cut (s @ CHR '';'' # t) = cut s @ cut t"
  by (simp add: cut_def split_on_append_sep)

lemma cut_join:
  assumes "\<forall>c\<in>set cs. fst c \<noteq> [] \<and> list_all clean_word (fst c)"
    and "\<not> (\<exists>c\<in>set a. semi c)" and "a = [] \<or> (\<exists>b. a = b @ [newline])"
  shows "cut (a @ join [newline] (map code_text cs)) = group (fields_on is_space a) cs"
  using assms
proof (induction cs arbitrary: a)
  case Nil
  then show ?case by (simp add: cut_single)
next
  case (Cons c cs)
  obtain ws e where c: "c = (ws, e)" by (cases c)
  with Cons.prems have ws: "ws \<noteq> []" "list_all clean_word ws" by auto
  have joined: "fields_on is_space (a @ join '' '' ws) = fields_on is_space a @ ws"
    using Cons.prems(3) fields_join [OF ws(2)] newline_facts(1)
    by (auto simp: fields_append_sep simp del: append_assoc) (simp add: fields_append_sep)
  have na: "\<not> (\<exists>c\<in>set (a @ join '' '' ws). semi c)" using Cons.prems(2) join_clean(2) [OF ws(2)] by auto
  define r where "r = (if cs = [] then [] else newline # join [newline] (map code_text cs))"
  have eqn: "a @ join [newline] (map code_text (c # cs))
      = (a @ join '' '' ws) @ (if e then '';'' else []) @ r"
    by (cases cs) (simp_all add: c r_def)
  have IH: "cut (b @ join [newline] (map code_text cs)) = group (fields_on is_space b) cs"
    if "\<not> (\<exists>c\<in>set b. semi c)" "\<exists>d. b = d @ [newline]" for b
    using Cons.IH [of b] Cons.prems that by auto
  show ?case
  proof (cases e)
    case True
    have "cut r = group [] cs"
      using IH [of "[newline]"] newline_facts by (simp add: r_def cut_def fields_on_def)
    moreover have "cut (a @ join '' '' ws) = [fields_on is_space a @ ws]"
      using cut_single [OF na] joined ws by simp
    ultimately show ?thesis unfolding eqn using True c cut_append_semi [of "a @ join '' '' ws" r] by simp
  next
    case False
    show ?thesis
    proof (cases "cs = []")
      case True
      then show ?thesis unfolding eqn using False c joined ws cut_single [OF na] by (simp add: r_def)
    next
      case ne: False
      have "fields_on is_space (a @ join '' '' ws @ [newline]) = fields_on is_space a @ ws"
        using joined fields_append_sep [of is_space newline "a @ join '' '' ws" "[]"] newline_facts(1) by simp
      then show ?thesis unfolding eqn
        using IH [of "a @ join '' '' ws @ [newline]"] na newline_facts False c ne by (simp add: r_def)
    qed
  qed
qed

text \<open>From the rendered text of a file to its code lines.\<close>

fun line_body :: "TemplateVars \<Rightarrow> line \<Rightarrow> string" where
  "line_body v Blank = []"
| "line_body v (Comment s) = ''-- '' @ s"
| "line_body v (Code n ws e) = replicate n (CHR '' '') @ code_text (map (word_value v) ws, e)"

fun line_ok :: "TemplateVars \<Rightarrow> line \<Rightarrow> bool" where
  "line_ok v Blank = True"
| "line_ok v (Comment s) = list_all (\<lambda>c. is_ascii c \<and> c \<noteq> newline) s"
| "line_ok v (Code n ws e) = (ws \<noteq> [] \<and> list_all clean_word (map (word_value v) ws)
     \<and> hd (word_value v (hd ws)) \<noteq> CHR ''-'')"

fun code_of :: "TemplateVars \<Rightarrow> line \<Rightarrow> (string list \<times> bool) list" where
  "code_of v (Code n ws e) = [(map (word_value v) ws, e)]"
| "code_of v _ = []"

lemma subst_line: "subst (tok_value v) (line_toks l) = line_body v l @ [newline]"
proof (cases l)
  case (Comment s)
  then show ?thesis by (simp only: line_toks.simps line_body.simps subst_chars append_assoc)
next
  case (Code n ws e)
  have "subst (tok_value v) (join [C (CHR '' '')] (map word_toks ws)) = join '' '' (map (word_value v) ws)"
    by (simp add: join_subst comp_def subst_word_value tok_value_def)
  moreover have "subst (tok_value v) (map C (if e then '';'' else [])) = (if e then '';'' else [])"
    by (rule subst_chars)
  moreover have "subst (tok_value v) (replicate n (C (CHR '' ''))) = replicate n (CHR '' '')"
    by (simp add: map_replicate_const concat_replicate_single tok_value_def)
  ultimately show ?thesis using Code by (simp add: tok_value_def)
qed (simp add: tok_value_def)

lemma code_text_facts:
  assumes "ws \<noteq> []" and "list_all clean_word ws"
  shows "list_all is_ascii (code_text (ws, e))" and "\<not> (\<exists>c\<in>set (code_text (ws, e)). c = newline)"
    and "\<exists>m. code_text (ws, e) = hd (hd ws) # m" and "\<exists>b l. code_text (ws, e) = b @ [l] \<and> \<not> is_space l"
    and "\<not> is_space (hd (hd ws))"
proof -
  show "list_all is_ascii (code_text (ws, e))" "\<not> (\<exists>c\<in>set (code_text (ws, e)). c = newline)"
    using join_clean(1,3) [OF assms(2)] newline_facts by auto
  obtain w us where ws: "ws = w # us" using assms(1) by (cases ws) auto
  then obtain c cs where w: "w = c # cs" using assms(2) by (cases w) (auto simp: clean_word_def)
  show "\<exists>m. code_text (ws, e) = hd (hd ws) # m" by (cases us) (simp_all add: ws w)
  show "\<not> is_space (hd (hd ws))" using assms(2) ws w by (simp add: clean_word_def)
  have "\<exists>b l. join '' '' ws = b @ [l] \<and> \<not> is_space l" using assms
  proof (induction "'' ''" ws rule: join.induct)
    case (2 x)
    then show ?case
      by (intro exI [of _ "butlast x"] exI [of _ "last x"]) (auto simp: clean_word_def list_all_iff)
  next
    case (3 x y ys)
    then obtain b l where "join '' '' (y # ys) = b @ [l]" "\<not> is_space l" by auto
    then show ?case by (intro exI [of _ "x @ '' '' @ b"] exI [of _ l]) simp
  qed simp
  then show "\<exists>b l. code_text (ws, e) = b @ [l] \<and> \<not> is_space l"
    using newline_facts by (cases e) auto
qed

lemma trim_code:
  assumes "x = a # m" and "x = b @ [l]" and "\<not> p a" and "\<not> p l" and "p s"
  shows "trim p (replicate n s @ x) = x"
proof -
  have "dropWhile p (replicate n s @ x) = x" using assms(1,3,5) by (induction n) auto
  then show ?thesis using assms(2,4) by (simp add: trim_def)
qed

lemma trim_keeps_prefix: "\<not> p a \<Longrightarrow> \<not> p b \<Longrightarrow> \<exists>ys. trim p (a # b # xs) = a # b # ys"
  by (auto simp: trim_def dropWhile_append) (metis rev_rev_ident)

lemma clean_lines_file:
  assumes "list_all (line_ok v) ls"
  shows "clean_lines (concat (map (\<lambda>l. line_body v l @ [newline]) ls)) = map code_text (concat (map (code_of v) ls))"
  using assms
proof (induction ls)
  case Nil
  then show ?case by (simp add: clean_lines_def trim_space_def trim_def)
next
  case (Cons l ls)
  define rest where "rest = concat (map (\<lambda>l. line_body v l @ [newline]) ls)"
  have nl: "\<not> (\<exists>c\<in>set (line_body v l). c = newline)"
  proof (cases l)
    case (Comment s)
    then show ?thesis using Cons.prems by (auto simp: list_all_iff newline_def)
  next
    case (Code n ws e)
    then show ?thesis using Cons.prems code_text_facts(2) [of "map (word_value v) ws" e]
      by (auto simp: newline_def simp del: code_text.simps)
  qed (simp add: newline_def)
  then have "split_on (\<lambda>c. c = newline) (line_body v l) = [line_body v l]" by (intro split_on_none) auto
  then have "split_on (\<lambda>c. c = newline) (line_body v l @ newline # rest)
      = line_body v l # split_on (\<lambda>c. c = newline) rest"
    by (simp add: split_on_append_sep)
  then have "clean_lines (line_body v l @ newline # rest)
      = (let t = trim_space (line_body v l) in if t = [] \<or> sqlComment t then [] else [t]) @ clean_lines rest"
    by (simp add: clean_lines_def Let_def)
  moreover have "(let t = trim_space (line_body v l) in if t = [] \<or> sqlComment t then [] else [t])
      = map code_text (code_of v l)"
  proof (cases l)
    case Blank
    then show ?thesis by (simp add: trim_space_def trim_def)
  next
    case (Comment s)
    have "list_all is_ascii (line_body v l)" "\<exists>ys. trim is_space (line_body v l) = ''--'' @ ys"
      using Comment Cons.prems newline_facts trim_keeps_prefix [of is_space "CHR ''-''" "CHR ''-''"]
      by (auto simp: list_all_iff)
    then obtain ys where "trim_space (line_body v l) = ''--'' @ ys" by (auto simp: trim_space_ascii)
    then show ?thesis using Comment by (simp add: sqlComment_def has_prefix_def)
  next
    case (Code n ws e)
    define us where "us = map (word_value v) ws"
    have us: "us \<noteq> []" "list_all clean_word us" and hd: "hd (hd us) \<noteq> CHR ''-''"
      using Code Cons.prems by (auto simp: us_def hd_map)
    note facts = code_text_facts(1-4) [OF us, of e] code_text_facts(5) [OF us]
    obtain m where m: "code_text (us, e) = hd (hd us) # m" using facts(3) by blast
    obtain b z where b: "code_text (us, e) = b @ [z]" "\<not> is_space z" using facts(4) by blast
    have "list_all is_ascii (line_body v l)"
      using facts(1) newline_facts(4) Code by (auto simp: us_def list_all_iff simp del: code_text.simps)
    then have t: "trim_space (line_body v l) = code_text (us, e)"
      using trim_code [OF m b(1) facts(5) b(2) newline_facts(2)] Code
      by (simp add: trim_space_ascii us_def del: code_text.simps)
    have "\<not> sqlComment (code_text (us, e))"
    proof -
      have "is_space (CHR 0x09)" "is_space (CHR 0x0A)" "is_space (CHR 0x0C)" "is_space (CHR 0x0D)"
        by code_simp+
      then have "hd (hd us) \<notin> {CHR 0x09, CHR 0x0A, CHR 0x0C, CHR 0x0D, CHR '' ''}"
        using facts(5) newline_facts(2) by auto
      then show ?thesis unfolding m sqlComment_def using hd by (simp add: has_prefix_def)
    qed
    then show ?thesis using t m Code by (simp add: us_def Let_def del: code_text.simps)
  qed
  ultimately show ?case using Cons by (simp add: rest_def)
qed

section \<open>The embedded templates as laid-out files\<close>

definition admin_bind_layout :: "line list" where
  "admin_bind_layout = [
     Comment ''bind.sql: creates a read-write login user and joins it to the group role.'',
     Comment ''Executed on the admin database.'',
     Blank,
     Code 0 [W ''CREATE'', W ''USER'', F ''Username'', W ''LOGIN'', W ''PASSWORD'',
        F ''Password''] True,
     Blank,
     Code 0 [W ''GRANT'', F ''GroupRole'', W ''TO'', F ''Username''] True]"

definition admin_deprovision_layout :: "line list" where
  "admin_deprovision_layout = [
     Comment ''deprovision.sql: removes the whole tenant (database, tablespace, role).'',
     Comment ''Executed on the admin database.'',
     Blank,
     Comment ''DROP DATABASE requires membership in the owner role.'',
     Code 0 [W ''GRANT'', F ''GroupRole'', W ''TO'', F ''AdminUser''] True,
     Blank,
     Code 0 [W ''SELECT'', W ''pg_terminate_backend(pid)'', W ''FROM'', W ''pg_stat_activity'',
        W ''WHERE'', W ''datname'', W ''='', F ''DatabaseLiteral''] True,
     Blank,
     Code 0 [W ''DROP'', W ''DATABASE'', W ''IF'', W ''EXISTS'', F ''Database''] True,
     Blank,
     Code 0 [W ''DROP'', W ''TABLESPACE'', W ''IF'', W ''EXISTS'', F ''Tablespace''] True,
     Blank,
     Code 0 [W ''REVOKE'', F ''GroupRole'', W ''FROM'', F ''AdminUser''] True,
     Blank,
     Code 0 [W ''DROP'', W ''ROLE'', W ''IF'', W ''EXISTS'', F ''GroupRole''] True]"

definition admin_provision_layout :: "line list" where
  "admin_provision_layout = [
     Comment ''provision.sql: creates the tenant's group role, tablespace and database.'',
     Comment ''Executed on the admin database (usually postgres).'',
     Blank,
     Code 0 [W ''CREATE'', W ''ROLE'', F ''GroupRole'', W ''NOLOGIN'', W ''PASSWORD'',
        F ''GroupPassword''] True,
     Blank,
     Comment ''Temporary membership: CREATE DATABASE OWNER and CREATE TABLESPACE OWNER'',
     Comment ''require the executing user to be a member of the owner role.'',
     Code 0 [W ''GRANT'', F ''GroupRole'', W ''TO'', F ''AdminUser''] True,
     Blank,
     Code 0 [W ''CREATE'', W ''TABLESPACE'', F ''Tablespace'', W ''OWNER'', F ''GroupRole''] False,
     Code 2 [W ''RELATIVE'', W ''LOCATION'', F ''TablePrefix'', W ''MAXSIZE'',
        F ''StorageQuota''] True,
     Blank,
     Code 0 [W ''CREATE'', W ''DATABASE'', F ''Database'', W ''OWNER'', F ''GroupRole''] False,
     Code 2 [W ''TEMPLATE'', W ''template0''] False,
     Code 2 [W ''ENCODING'', F ''Encoding''] False,
     Code 2 [W ''DBCOMPATIBILITY'', F ''Compatibility''] False,
     Code 2 [W ''TABLESPACE'', F ''Tablespace''] False,
     Code 2 [W ''CONNECTION'', W ''LIMIT'', F ''MaxConnections''] True,
     Blank,
     Comment ''Lock connection isolation: only the group role and the broker admin'',
     Comment ''may connect to this database.'',
     Code 0 [W ''REVOKE'', W ''CONNECT'', W ''ON'', W ''DATABASE'', F ''Database'', W ''FROM'',
        W ''PUBLIC''] True,
     Code 0 [W ''GRANT'', W ''CONNECT'', W ''ON'', W ''DATABASE'', F ''Database'', W ''TO'',
        F ''GroupRole''] True,
     Code 0 [W ''GRANT'', W ''CONNECT'', W ''ON'', W ''DATABASE'', F ''Database'', W ''TO'',
        F ''AdminUser''] True,
     Blank,
     Comment ''Drop the temporary membership used for CREATE DATABASE OWNER.'',
     Code 0 [W ''REVOKE'', F ''GroupRole'', W ''FROM'', F ''AdminUser''] True]"

definition admin_unbind_layout :: "line list" where
  "admin_unbind_layout = [
     Comment ''unbind.sql: removes the user's auto-created schema and the user itself.'',
     Comment ''Executed on the admin database.'',
     Blank,
     Comment ''openGauss auto-creates a same-named schema for new users in the'',
     Comment ''database where they are created; clean it up.'',
     Code 0 [W ''DROP'', W ''SCHEMA'', W ''IF'', W ''EXISTS'', F ''Username'', W ''CASCADE''] True,
     Blank,
     Code 0 [W ''DROP'', W ''USER'', W ''IF'', W ''EXISTS'', F ''Username''] True]"

definition admin_update_layout :: "line list" where
  "admin_update_layout = [
     Comment ''update.sql: changes the connection limit and the storage cap.'',
     Comment ''Executed on the admin database.'',
     Blank,
     Comment ''ALTER DATABASE requires membership in the owner role.'',
     Code 0 [W ''GRANT'', F ''GroupRole'', W ''TO'', F ''AdminUser''] True,
     Blank,
     Code 0 [W ''ALTER'', W ''DATABASE'', F ''Database'', W ''CONNECTION'', W ''LIMIT'',
        W ''='', F ''MaxConnections''] True,
     Blank,
     Comment ''Resize the tenant's storage cap. If the new quota is below current'',
     Comment ''usage the change still succeeds, but writes are blocked until usage'',
     Comment ''drops under the new limit.'',
     Code 0 [W ''ALTER'', W ''TABLESPACE'', F ''Tablespace'', W ''RESIZE'', W ''MAXSIZE'',
        F ''StorageQuota''] True,
     Blank,
     Code 0 [W ''REVOKE'', F ''GroupRole'', W ''FROM'', F ''AdminUser''] True]"

definition tenant_bind_layout :: "line list" where
  "tenant_bind_layout = [
     Comment ''bind.sql: sets up per-binding default privileges so everything the user'',
     Comment ''creates in public is visible to the whole group.'',
     Comment ''Executed on the tenant database.'',
     Blank,
     Code 0 [W ''ALTER'', W ''DEFAULT'', W ''PRIVILEGES'', W ''FOR'', W ''ROLE'',
        F ''Username''] False,
     Code 2 [W ''IN'', W ''SCHEMA'', W ''public''] False,
     Code 2 [W ''GRANT'', W ''SELECT,'', W ''INSERT,'', W ''UPDATE,'', W ''DELETE'', W ''ON'',
        W ''TABLES'', W ''TO'', F ''GroupRole''] True,
     Blank,
     Code 0 [W ''ALTER'', W ''DEFAULT'', W ''PRIVILEGES'', W ''FOR'', W ''ROLE'',
        F ''Username''] False,
     Code 2 [W ''IN'', W ''SCHEMA'', W ''public''] False,
     Code 2 [W ''GRANT'', W ''USAGE,'', W ''SELECT'', W ''ON'', W ''SEQUENCES'', W ''TO'',
        F ''GroupRole''] True]"

definition tenant_provision_layout :: "line list" where
  "tenant_provision_layout = [
     Comment ''provision.sql: sets up the tenant database's shared public schema.'',
     Comment ''Executed on the newly created tenant database.'',
     Blank,
     Comment ''Object isolation: ordinary users only see objects they may access.'',
     Code 0 [W ''ALTER'', W ''DATABASE'', F ''Database'', W ''ENABLE'', W ''PRIVATE'',
        W ''OBJECT''] True,
     Blank,
     Comment ''The tenant's group role gets full access to the shared namespace.'',
     Code 0 [W ''GRANT'', W ''USAGE,'', W ''CREATE'', W ''ON'', W ''SCHEMA'', W ''public'',
        W ''TO'', F ''GroupRole''] True,
     Blank,
     Comment ''Allow the group role to create additional schemas (opt-in namespaces).'',
     Code 0 [W ''GRANT'', W ''CREATE'', W ''ON'', W ''DATABASE'', F ''Database'', W ''TO'',
        F ''GroupRole''] True]"

definition tenant_unbind_layout :: "line list" where
  "tenant_unbind_layout = [
     Comment ''unbind.sql: terminates the user's sessions and drops everything it owns.'',
     Comment ''Executed on the tenant database.'',
     Blank,
     Code 0 [W ''SELECT'', W ''pg_terminate_backend(pid)'', W ''FROM'', W ''pg_stat_activity'',
        W ''WHERE'', W ''usename'', W ''='', F ''UsernameLiteral''] True,
     Blank,
     Code 0 [W ''DROP'', W ''OWNED'', W ''BY'', F ''Username'', W ''CASCADE''] True]"


definition layouts :: "(string \<times> line list) list" where
  "layouts = [
     (''opengauss/admin-db/bind.sql'', admin_bind_layout),
     (''opengauss/admin-db/deprovision.sql'', admin_deprovision_layout),
     (''opengauss/admin-db/provision.sql'', admin_provision_layout),
     (''opengauss/admin-db/unbind.sql'', admin_unbind_layout),
     (''opengauss/admin-db/update.sql'', admin_update_layout),
     (''opengauss/tenant-db/bind.sql'', tenant_bind_layout),
     (''opengauss/tenant-db/provision.sql'', tenant_provision_layout),
     (''opengauss/tenant-db/unbind.sql'', tenant_unbind_layout)]"

lemma admin_bind_source: "admin_bind_sql = file_source admin_bind_layout"
  by (simp add: admin_bind_sql_def admin_bind_layout_def file_source_def newline_def eval_nat_numeral)

lemma admin_deprovision_source: "admin_deprovision_sql = file_source admin_deprovision_layout"
  by (simp add: admin_deprovision_sql_def admin_deprovision_layout_def file_source_def newline_def eval_nat_numeral)

lemma admin_provision_source: "admin_provision_sql = file_source admin_provision_layout"
  by (simp add: admin_provision_sql_def admin_provision_layout_def file_source_def newline_def eval_nat_numeral)

lemma admin_unbind_source: "admin_unbind_sql = file_source admin_unbind_layout"
  by (simp add: admin_unbind_sql_def admin_unbind_layout_def file_source_def newline_def eval_nat_numeral)

lemma admin_update_source: "admin_update_sql = file_source admin_update_layout"
  by (simp add: admin_update_sql_def admin_update_layout_def file_source_def newline_def eval_nat_numeral)

lemma tenant_bind_source: "tenant_bind_sql = file_source tenant_bind_layout"
  by (simp add: tenant_bind_sql_def tenant_bind_layout_def file_source_def newline_def eval_nat_numeral)

lemma tenant_provision_source: "tenant_provision_sql = file_source tenant_provision_layout"
  by (simp add: tenant_provision_sql_def tenant_provision_layout_def file_source_def newline_def eval_nat_numeral)

lemma tenant_unbind_source: "tenant_unbind_sql = file_source tenant_unbind_layout"
  by (simp add: tenant_unbind_sql_def tenant_unbind_layout_def file_source_def newline_def eval_nat_numeral)

section \<open>Rendering an embedded template\<close>

lemma group_statements:
  "group (map (word_value v) acc) (concat (map (code_of v) ls)) = map (map (word_value v)) (layout_stmts acc ls)"
  by (induction acc ls rule: layout_stmts.induct) simp_all

lemma fields_nonempty: "w \<in> set (fields_on p s) \<Longrightarrow> w \<noteq> []"
  by (simp add: fields_on_def)

lemma join_eq_Nil: "\<forall>w\<in>set ws. w \<noteq> [] \<Longrightarrow> join sep ws = [] \<longleftrightarrow> ws = []"
  by (induction sep ws rule: join.induct) auto

lemma splitSQL_cut:
  assumes "list_all is_ascii (join [newline] (clean_lines sql))"
  shows "splitSQL sql = map (join '' '') (cut (join [newline] (clean_lines sql)))"
proof -
  have "list_all is_ascii s" if "s \<in> set (split_on semi (join [newline] (clean_lines sql)))" for s
    using split_on_pieces [OF that] assms by (auto simp: list_all_iff)
  then have e1: "map (\<lambda>s. join '' '' (fields_space s)) (split_on semi (join [newline] (clean_lines sql)))
      = map (join '' '') (map (fields_on is_space) (split_on semi (join [newline] (clean_lines sql))))"
    by (simp add: fields_space_ascii)
  have e2: "(join '' '' (fields_on is_space s) \<noteq> []) = (fields_on is_space s \<noteq> [])" for s
  proof -
    have "\<forall>w\<in>set (fields_on is_space s). w \<noteq> []" by (auto dest: fields_nonempty)
    then show ?thesis by (simp only: join_eq_Nil)
  qed
  show ?thesis unfolding splitSQL_def e1 cut_def by (simp only: filter_map comp_def e2 map_map)
qed

lemma join_ascii: "list_all is_ascii sep \<Longrightarrow> list_all (list_all is_ascii) ss \<Longrightarrow> list_all is_ascii (join sep ss)"
  by (induction sep ss rule: join.induct) auto

lemma code_of_ok:
  assumes "list_all (line_ok v) ls" and "c \<in> set (concat (map (code_of v) ls))"
  shows "fst c \<noteq> [] \<and> list_all clean_word (fst c)"
proof -
  obtain l where "line_ok v l" "c \<in> set (code_of v l)" using assms by (auto simp: list_all_iff)
  then show ?thesis by (cases l) auto
qed

lemma splitSQL_file:
  assumes "list_all (line_ok v) ls"
  shows "splitSQL (concat (map (\<lambda>l. line_body v l @ [newline]) ls))
       = map (\<lambda>ws. join '' '' (map (word_value v) ws)) (layout_stmts [] ls)"
proof -
  define cs where "cs = concat (map (code_of v) ls)"
  have ok: "\<forall>c\<in>set cs. fst c \<noteq> [] \<and> list_all clean_word (fst c)"
    using code_of_ok [OF assms] unfolding cs_def by blast
  note lines = clean_lines_file [OF assms, folded cs_def]
  have "list_all is_ascii (code_text c)" if "c \<in> set cs" for c
    using ok that code_text_facts(1) [of "fst c" "snd c"] by (cases c) auto
  then have "list_all is_ascii (join [newline] (map code_text cs))"
    using newline_facts(3) by (intro join_ascii) (auto simp: list_all_iff)
  then show ?thesis
    using splitSQL_cut [of "concat (map (\<lambda>l. line_body v l @ [newline]) ls)", unfolded lines]
      cut_join [OF ok, of "[]"] group_statements [of v "[]" ls, folded cs_def]
    by simp
qed

text \<open>The variables a file uses, and when their values keep its statements apart.\<close>

fun line_fields :: "line \<Rightarrow> string list" where
  "line_fields (Code n ws e) = concat (map (\<lambda>w. case w of F f \<Rightarrow> [f] | W s \<Rightarrow> []) ws)"
| "line_fields _ = []"

definition clean_vars :: "TemplateVars \<Rightarrow> line list \<Rightarrow> bool" where
  "clean_vars v ls \<longleftrightarrow> list_all (\<lambda>f. case field_value v f of Some t \<Rightarrow> clean_word t | None \<Rightarrow> False)
     (concat (map line_fields ls))"

text \<open>What a layout must satisfy by itself.\<close>

fun line_static :: "line \<Rightarrow> bool" where
  "line_static Blank = True"
| "line_static (Comment s) = list_all (\<lambda>c. is_ascii c \<and> c \<noteq> newline \<and> c \<noteq> CHR ''{'') s"
| "line_static (Code n ws e) = (list_all (\<lambda>w. case w of
        W s \<Rightarrow> clean_word s \<and> list_all (\<lambda>c. c \<noteq> CHR ''{'') s
      | F f \<Rightarrow> ident f) ws
     \<and> (case ws of W (c # s) # _ \<Rightarrow> c \<noteq> CHR ''-'' | _ \<Rightarrow> False))"

definition statement_texts :: "TemplateVars \<Rightarrow> line list \<Rightarrow> string list" where
  "statement_texts v ls = map (\<lambda>ws. join '' '' (map (word_value v) ws)) (layout_stmts [] ls)"

lemma static_line_ok: "line_static l \<Longrightarrow> clean_vars v [l] \<Longrightarrow> line_ok v l"
proof (cases l)
  case (Code n ws e)
  assume *: "line_static l" "clean_vars v [l]"
  then have "clean_word (word_value v w)" if "w \<in> set ws" for w
    using that Code
    by (cases w) (auto simp: clean_vars_def list_all_iff word_value_def split: option.splits, force)
  moreover have "ws \<noteq> [] \<and> hd (word_value v (hd ws)) \<noteq> CHR ''-''"
    using * Code by (auto simp: word_value_def split: list.splits word.splits)
  ultimately show ?thesis using Code by (auto simp: list_all_iff)
qed (auto simp: list_all_iff)

lemma set_join_toks: "t \<in> set (join sep (map word_toks ws)) \<Longrightarrow> t \<in> set sep \<or> (\<exists>w\<in>set ws. t \<in> set (word_toks w))"
  by (induction sep "map word_toks ws" arbitrary: ws rule: join.induct) (auto simp: Cons_eq_map_conv, force+)

lemma static_toks: "line_static l \<Longrightarrow> t \<in> set (line_toks l) \<Longrightarrow> tok_ok t"
proof (cases l)
  case (Code n ws e)
  assume *: "line_static l" "t \<in> set (line_toks l)"
  have w: "tok_ok t" if "t \<in> set (word_toks w)" "w \<in> set ws" for w
    using that * Code by (cases w) (auto simp: list_all_iff tok_ok_def)
  have "t \<in> {C (CHR '' ''), C (CHR '';''), C newline} \<or> (\<exists>w\<in>set ws. t \<in> set (word_toks w))"
    using * Code set_join_toks [of t "[C (CHR '' '')]" ws] by (auto split: if_splits)
  then show ?thesis using w by (auto simp: tok_ok_def newline_def)
next
  case (Comment s)
  assume "line_static l" "t \<in> set (line_toks l)"
  then obtain c where "t = C c" "c \<in> set (''-- '' @ s @ [newline])" using Comment by auto
  then show ?thesis using \<open>line_static l\<close> Comment by (auto simp: list_all_iff tok_ok_def newline_def)
qed (simp add: tok_ok_def newline_def)

lemma clean_toks: "clean_vars v [l] \<Longrightarrow> t \<in> set (line_toks l) \<Longrightarrow> \<exists>s. tok_text v t = Inr s"
proof (cases t)
  case (V f)
  assume *: "clean_vars v [l]" "t \<in> set (line_toks l)"
  have "f \<in> set (line_fields l)"
  proof (cases l)
    case (Code n ws e)
    then obtain w where w: "w \<in> set ws" "V f \<in> set (word_toks w)"
      using * V set_join_toks [of t "[C (CHR '' '')]" ws] by (auto split: if_splits)
    then have "w = F f" by (cases w rule: word.exhaust) auto
    with w(1) have "\<exists>w\<in>set ws. f \<in> set (case w of F f \<Rightarrow> [f] | W s \<Rightarrow> [])" by force
    then show ?thesis using Code by simp
  qed (use * V in auto)
  then obtain s where "field_value v f = Some s" using *(1)
    by (auto simp: clean_vars_def list_all_iff split: option.splits)
  then show ?thesis using V by simp
qed simp

lemma layouts_static: "(rel, ls) \<in> set layouts \<Longrightarrow> list_all line_static ls"
proof -
  have "list_all (\<lambda>x. list_all line_static (snd x)) layouts" by code_simp
  then show "(rel, ls) \<in> set layouts \<Longrightarrow> list_all line_static ls" by (force simp: list_all_iff)
qed

lemma layouts_embedded: "(rel, ls) \<in> set layouts \<Longrightarrow> embedded (''templates/'' @ rel) = Some (file_source ls)"
proof -
  have "list_all (\<lambda>x. embedded (''templates/'' @ fst x) = Some (file_source (snd x))) layouts"
    unfolding layouts_def list.pred_inject fst_conv snd_conv
      admin_bind_source [symmetric] admin_deprovision_source [symmetric] admin_provision_source [symmetric]
      admin_unbind_source [symmetric] admin_update_source [symmetric] tenant_bind_source [symmetric]
      tenant_provision_source [symmetric] tenant_unbind_source [symmetric]
    by (simp add: embedded_def)
  then show "(rel, ls) \<in> set layouts \<Longrightarrow> embedded (''templates/'' @ rel) = Some (file_source ls)"
    by (force simp: list_all_iff)
qed

lemma parse_layout:
  assumes "list_all line_static ls"
  shows "parse_fields (file_source ls) = Some (concat (map line_toks ls))"
proof -
  have "list_all tok_ok (concat (map line_toks ls))"
    using assms static_toks by (auto simp: list_all_iff)
  moreover have "file_source ls = subst tok_source (concat (map line_toks ls))"
    by (induction ls) (simp_all add: file_source_def line_source_toks)
  ultimately show ?thesis using parse_fields_toks by simp
qed

lemma render_layout:
  assumes "list_all line_static ls" and "clean_vars v ls"
  shows "\<exists>sql. exec_fields v (concat (map line_toks ls)) = Inr sql \<and> splitSQL sql = statement_texts v ls"
proof -
  have each: "clean_vars v [l]" if "l \<in> set ls" for l
    using that assms(2) by (auto simp: clean_vars_def list_all_iff)
  have "exec_fields v (concat (map line_toks ls)) = Inr (subst (tok_value v) (concat (map line_toks ls)))"
    by (rule exec_fields_toks) (auto dest!: each clean_toks)
  moreover have "subst (tok_value v) (concat (map line_toks ls)) = concat (map (\<lambda>l. line_body v l @ [newline]) ls)"
    by (induction ls) (simp_all add: subst_line)
  moreover have "list_all (line_ok v) ls" using assms(1) each static_line_ok by (auto simp: list_all_iff)
  ultimately show ?thesis using splitSQL_file by (simp add: statement_texts_def)
qed

text \<open>What the rest of the library uses: loading and rendering an embedded template.\<close>

lemma load_and_render:
  assumes "(rel, ls) \<in> set layouts" and "dir = [] \<or> te_read env dir rel = NotExist" and "clean_vars v ls"
  shows "\<exists>t. LoadTemplate env dir rel = Ok t \<and> RenderTemplate t v = Ok (statement_texts v ls)"
proof -
  note st = layouts_static [OF assms(1)]
  obtain sql where sql: "exec_fields v (concat (map line_toks ls)) = Inr sql" "splitSQL sql = statement_texts v ls"
    using render_layout [OF st assms(3)] by blast
  have "LoadTemplate env dir rel = Ok (rel, \<lambda>v. exec_fields v (concat (map line_toks ls)))"
  proof -
    have "read_embedded rel = Content (file_source ls)"
      by (simp only: read_embedded_def layouts_embedded [OF assms(1)] option.case)
    then show ?thesis
      using assms(2) by (auto simp: LoadTemplate_def Let_def parse_template_def parse_layout [OF st])
  qed
  then show ?thesis using sql by (simp add: RenderTemplate_def)
qed

section \<open>The intended SQL\<close>

text \<open>The statements each operation is meant to send, written out by hand from the SQL files.\<close>

definition grant_admin :: "TemplateVars \<Rightarrow> string" where
  "grant_admin v = ''GRANT '' @ tv_GroupRole v @ '' TO '' @ tv_AdminUser v"

definition revoke_admin :: "TemplateVars \<Rightarrow> string" where
  "revoke_admin v = ''REVOKE '' @ tv_GroupRole v @ '' FROM '' @ tv_AdminUser v"

definition provision_sql :: "TemplateVars \<Rightarrow> string list" where
  "provision_sql v = [
     ''CREATE ROLE '' @ tv_GroupRole v @ '' NOLOGIN PASSWORD '' @ tv_GroupPassword v,
     grant_admin v,
     ''CREATE TABLESPACE '' @ tv_Tablespace v @ '' OWNER '' @ tv_GroupRole v @ '' RELATIVE LOCATION ''
       @ tv_TablePrefix v @ '' MAXSIZE '' @ tv_StorageQuota v,
     ''CREATE DATABASE '' @ tv_Database v @ '' OWNER '' @ tv_GroupRole v @ '' TEMPLATE template0 ENCODING ''
       @ tv_Encoding v @ '' DBCOMPATIBILITY '' @ tv_Compatibility v @ '' TABLESPACE '' @ tv_Tablespace v
       @ '' CONNECTION LIMIT '' @ int_text (tv_MaxConnections v),
     ''REVOKE CONNECT ON DATABASE '' @ tv_Database v @ '' FROM PUBLIC'',
     ''GRANT CONNECT ON DATABASE '' @ tv_Database v @ '' TO '' @ tv_GroupRole v,
     ''GRANT CONNECT ON DATABASE '' @ tv_Database v @ '' TO '' @ tv_AdminUser v,
     revoke_admin v]"

definition provision_tenant_sql :: "TemplateVars \<Rightarrow> string list" where
  "provision_tenant_sql v = [
     ''ALTER DATABASE '' @ tv_Database v @ '' ENABLE PRIVATE OBJECT'',
     ''GRANT USAGE, CREATE ON SCHEMA public TO '' @ tv_GroupRole v,
     ''GRANT CREATE ON DATABASE '' @ tv_Database v @ '' TO '' @ tv_GroupRole v]"

definition bind_sql :: "TemplateVars \<Rightarrow> string list" where
  "bind_sql v = [
     ''CREATE USER '' @ tv_Username v @ '' LOGIN PASSWORD '' @ tv_Password v,
     ''GRANT '' @ tv_GroupRole v @ '' TO '' @ tv_Username v]"

definition bind_tenant_sql :: "TemplateVars \<Rightarrow> string list" where
  "bind_tenant_sql v = [
     ''ALTER DEFAULT PRIVILEGES FOR ROLE '' @ tv_Username v
       @ '' IN SCHEMA public GRANT SELECT, INSERT, UPDATE, DELETE ON TABLES TO '' @ tv_GroupRole v,
     ''ALTER DEFAULT PRIVILEGES FOR ROLE '' @ tv_Username v
       @ '' IN SCHEMA public GRANT USAGE, SELECT ON SEQUENCES TO '' @ tv_GroupRole v]"

definition unbind_tenant_sql :: "TemplateVars \<Rightarrow> string list" where
  "unbind_tenant_sql v = [
     ''SELECT pg_terminate_backend(pid) FROM pg_stat_activity WHERE usename = '' @ tv_UsernameLiteral v,
     ''DROP OWNED BY '' @ tv_Username v @ '' CASCADE'']"

definition unbind_sql :: "TemplateVars \<Rightarrow> string list" where
  "unbind_sql v = [
     ''DROP SCHEMA IF EXISTS '' @ tv_Username v @ '' CASCADE'',
     ''DROP USER IF EXISTS '' @ tv_Username v]"

definition deprovision_sql :: "TemplateVars \<Rightarrow> string list" where
  "deprovision_sql v = [
     grant_admin v,
     ''SELECT pg_terminate_backend(pid) FROM pg_stat_activity WHERE datname = '' @ tv_DatabaseLiteral v,
     ''DROP DATABASE IF EXISTS '' @ tv_Database v,
     ''DROP TABLESPACE IF EXISTS '' @ tv_Tablespace v,
     revoke_admin v,
     ''DROP ROLE IF EXISTS '' @ tv_GroupRole v]"

definition update_sql :: "TemplateVars \<Rightarrow> string list" where
  "update_sql v = [
     grant_admin v,
     ''ALTER DATABASE '' @ tv_Database v @ '' CONNECTION LIMIT = '' @ int_text (tv_MaxConnections v),
     ''ALTER TABLESPACE '' @ tv_Tablespace v @ '' RESIZE MAXSIZE '' @ tv_StorageQuota v,
     revoke_admin v]"

definition intended_sql :: "TemplateVars \<Rightarrow> (string \<times> string list) list" where
  "intended_sql v = [
     (''opengauss/admin-db/bind.sql'', bind_sql v),
     (''opengauss/admin-db/deprovision.sql'', deprovision_sql v),
     (''opengauss/admin-db/provision.sql'', provision_sql v),
     (''opengauss/admin-db/unbind.sql'', unbind_sql v),
     (''opengauss/admin-db/update.sql'', update_sql v),
     (''opengauss/tenant-db/bind.sql'', bind_tenant_sql v),
     (''opengauss/tenant-db/provision.sql'', provision_tenant_sql v),
     (''opengauss/tenant-db/unbind.sql'', unbind_tenant_sql v)]"

lemma word_value_W [simp]: "word_value v (W s) = s"
  by (simp add: word_value_def)

lemma word_value_F [simp]:
  "word_value v (F ''Database'') = tv_Database v" "word_value v (F ''GroupRole'') = tv_GroupRole v"
  "word_value v (F ''Tablespace'') = tv_Tablespace v" "word_value v (F ''AdminUser'') = tv_AdminUser v"
  "word_value v (F ''Username'') = tv_Username v" "word_value v (F ''Password'') = tv_Password v"
  "word_value v (F ''GroupPassword'') = tv_GroupPassword v" "word_value v (F ''Encoding'') = tv_Encoding v"
  "word_value v (F ''Compatibility'') = tv_Compatibility v" "word_value v (F ''StorageQuota'') = tv_StorageQuota v"
  "word_value v (F ''TablePrefix'') = tv_TablePrefix v"
  "word_value v (F ''DatabaseLiteral'') = tv_DatabaseLiteral v"
  "word_value v (F ''UsernameLiteral'') = tv_UsernameLiteral v"
  "word_value v (F ''MaxConnections'') = int_text (tv_MaxConnections v)"
  by (simp_all add: word_value_def field_value_def)

lemmas intended_defs = provision_sql_def provision_tenant_sql_def bind_sql_def bind_tenant_sql_def
  unbind_tenant_sql_def unbind_sql_def deprovision_sql_def update_sql_def grant_admin_def revoke_admin_def

lemmas layout_defs = admin_bind_layout_def admin_deprovision_layout_def admin_provision_layout_def
  admin_unbind_layout_def admin_update_layout_def tenant_bind_layout_def tenant_provision_layout_def
  tenant_unbind_layout_def

lemma statement_texts_intended:
  "statement_texts v admin_bind_layout = bind_sql v"
  "statement_texts v admin_deprovision_layout = deprovision_sql v"
  "statement_texts v admin_provision_layout = provision_sql v"
  "statement_texts v admin_unbind_layout = unbind_sql v"
  "statement_texts v admin_update_layout = update_sql v"
  "statement_texts v tenant_bind_layout = bind_tenant_sql v"
  "statement_texts v tenant_provision_layout = provision_tenant_sql v"
  "statement_texts v tenant_unbind_layout = unbind_tenant_sql v"
  by (simp_all add: statement_texts_def layout_defs intended_defs)

lemma intended_layouts: "intended_sql v = map (\<lambda>(rel, ls). (rel, statement_texts v ls)) layouts"
  by (simp add: intended_sql_def layouts_def statement_texts_intended)

lemma clean_word_append: "clean_word s \<Longrightarrow> clean_word t \<Longrightarrow> clean_word (s @ t)"
  by (simp add: clean_word_def)

lemma clean_codes:
  assumes "33 \<le> (of_char c :: nat)" and "(of_char c :: nat) < 128" and "c \<noteq> CHR '';''"
  shows "is_ascii c \<and> \<not> is_space c \<and> c \<noteq> CHR '';''"
  using assms by (auto simp: class_codes is_space_def)

lemma clean_name:
  assumes "s \<noteq> []" and "list_all (\<lambda>c. is_alnum c \<or> c = CHR ''_'' \<or> c = CHR ''-'') s"
  shows "clean_word s"
proof -
  have "is_ascii c \<and> \<not> is_space c \<and> c \<noteq> CHR '';''" if "is_alnum c \<or> c = CHR ''_'' \<or> c = CHR ''-''" for c
    by (rule clean_codes) (use that in \<open>auto simp: is_alnum_def class_codes\<close>)
  then show ?thesis using assms by (simp add: clean_word_def list_all_iff)
qed

lemma clean_int_text: "clean_word (int_text n)"
  using nat_text_digits
  by (intro clean_name) (auto simp: int_text_def list_all_iff is_alnum_def)

lemma clean_vars_layouts:
  "clean_vars v admin_bind_layout \<longleftrightarrow>
     clean_word (tv_Username v) \<and> clean_word (tv_Password v) \<and> clean_word (tv_GroupRole v)"
  "clean_vars v admin_deprovision_layout \<longleftrightarrow>
     clean_word (tv_GroupRole v) \<and> clean_word (tv_AdminUser v) \<and> clean_word (tv_DatabaseLiteral v)
     \<and> clean_word (tv_Database v) \<and> clean_word (tv_Tablespace v)"
  "clean_vars v admin_provision_layout \<longleftrightarrow>
     clean_word (tv_GroupRole v) \<and> clean_word (tv_GroupPassword v) \<and> clean_word (tv_AdminUser v)
     \<and> clean_word (tv_Tablespace v) \<and> clean_word (tv_TablePrefix v) \<and> clean_word (tv_StorageQuota v)
     \<and> clean_word (tv_Database v) \<and> clean_word (tv_Encoding v) \<and> clean_word (tv_Compatibility v)"
  "clean_vars v admin_unbind_layout \<longleftrightarrow> clean_word (tv_Username v)"
  "clean_vars v admin_update_layout \<longleftrightarrow>
     clean_word (tv_GroupRole v) \<and> clean_word (tv_AdminUser v) \<and> clean_word (tv_Database v)
     \<and> clean_word (tv_Tablespace v) \<and> clean_word (tv_StorageQuota v)"
  "clean_vars v tenant_bind_layout \<longleftrightarrow> clean_word (tv_Username v) \<and> clean_word (tv_GroupRole v)"
  "clean_vars v tenant_provision_layout \<longleftrightarrow> clean_word (tv_Database v) \<and> clean_word (tv_GroupRole v)"
  "clean_vars v tenant_unbind_layout \<longleftrightarrow> clean_word (tv_UsernameLiteral v) \<and> clean_word (tv_Username v)"
  by (auto simp: clean_vars_def layout_defs field_value_def clean_int_text)

section \<open>Properties\<close>

text \<open>
  Claim C24. Every embedded template, whether TEMPLATE_DIR is unset or holds no override for
  it, loads, and renders to exactly the intended statements, in order: the comments and
  the line breaks are gone and no variable splits, merges or reorders a statement,
  provided the variables the template uses are non-empty ASCII words without white space
  and without a semicolon.
\<close>

theorem embedded_templates_render:
  assumes "(rel, stmts) \<in> set (intended_sql v)" and "(rel, ls) \<in> set layouts" and "clean_vars v ls"
    and "dir = [] \<or> te_read env dir rel = NotExist"
  shows "\<exists>t. LoadTemplate env dir rel = Ok t \<and> RenderTemplate t v = Ok stmts"
proof -
  have "distinct (map fst layouts)" by (simp add: layouts_def)
  moreover obtain ls' where ls': "(rel, ls') \<in> set layouts" "stmts = statement_texts v ls'"
    using assms(1) by (auto simp: intended_layouts)
  ultimately have "ls' = ls" using assms(2) by (metis eq_key_imp_eq_value)
  with ls' show ?thesis using load_and_render [OF assms(2,4,3)] by simp
qed

definition sample_vars :: TemplateVars where
  "sample_vars = \<lparr>tv_Database = ''d'', tv_GroupRole = ''g'', tv_Tablespace = ''t'', tv_AdminUser = ''a'',
     tv_Username = ''u'', tv_Password = ''p'', tv_GroupPassword = ''q'', tv_Encoding = ''e'',
     tv_Compatibility = ''c'', tv_StorageQuota = ''s'', tv_TablePrefix = ''b'', tv_DatabaseLiteral = ''l'',
     tv_UsernameLiteral = ''m'', tv_MaxConnections = 7\<rparr>"

definition no_overrides :: template_env where
  "no_overrides = \<lparr>te_read = \<lambda>dir rel. NotExist, te_parse = \<lambda>name content. Inl ''not a plain template''\<rparr>"

theorem embedded_templates_render_witness:
  "\<exists>t. LoadTemplate no_overrides ''custom'' ''opengauss/admin-db/bind.sql'' = Ok t
     \<and> RenderTemplate t sample_vars = Ok [''CREATE USER u LOGIN PASSWORD p'', ''GRANT g TO u'']"
proof -
  have i: "(''opengauss/admin-db/bind.sql'', [''CREATE USER u LOGIN PASSWORD p'', ''GRANT g TO u''])
      \<in> set (intended_sql sample_vars)"
    by (simp add: intended_sql_def bind_sql_def sample_vars_def)
  have l: "(''opengauss/admin-db/bind.sql'', admin_bind_layout) \<in> set layouts" by (simp add: layouts_def)
  have "clean_word ''u''" "clean_word ''p''" "clean_word ''g''" by code_simp+
  then have c: "clean_vars sample_vars admin_bind_layout" by (simp add: clean_vars_layouts sample_vars_def)
  show ?thesis by (rule embedded_templates_render [OF i l c]) (simp add: no_overrides_def)
qed

end
