(* ===== verification/Driver.thy ===== *)
theory Driver
  imports Templates
begin

text \<open>
  \<open>driver.go\<close>: the database access of the broker over gaussdb-go. The server, with the
  driver package in front of it, is a parameter: a record of functions from the history
  of the exchange to its next answer (a timeout is one of its errors). The state is that
  history, the entropy left for passwords and nonces, and the state database.
\<close>

section \<open>The world\<close>

datatype db_event =
    Connected string                        \<comment> \<open>the connection URL\<close>
  | Refused string ext
  | Executed string string "ext option"     \<comment> \<open>URL, statement, the server's error\<close>
  | Queried string string
  | Closed string

record 'd world =
  w_hist :: "db_event list"
  w_pool :: string
  w_store :: 'd

type_synonym ('d, 'a) action = "('d world, err, 'a) act"

definition log_event :: "db_event \<Rightarrow> 'd world \<Rightarrow> 'd world" where
  "log_event e w = w\<lparr>w_hist := w_hist w @ [e]\<rparr>"

datatype query_result = NoRows | Row int | QueryError ext

record server =
  srv_connect :: "db_event list \<Rightarrow> string \<Rightarrow> ext option"
  srv_exec :: "db_event list \<Rightarrow> string \<Rightarrow> string \<Rightarrow> ext option"
  srv_query :: "db_event list \<Rightarrow> string \<Rightarrow> string \<Rightarrow> query_result"

section \<open>The connection URL\<close>

text \<open>\<open>url.URL.String\<close> for a scheme, user information, a non-empty host, a path and a query.\<close>

definition url_string :: "string \<Rightarrow> string \<Rightarrow> string \<Rightarrow> string \<Rightarrow> string \<Rightarrow> string \<Rightarrow> string" where
  "url_string scheme user password host path query =
     (let p = (if path = ''*'' then ''*'' else url_escape Path path) in
      scheme @ ''://'' @ url_escape UserPassword user @ '':'' @ url_escape UserPassword password @ ''@''
      @ url_escape Host host @ (if p \<noteq> [] \<and> hd p \<noteq> CHR ''/'' then ''/'' else []) @ p
      @ (if query = [] then [] else ''?'' @ query))"

definition connURL :: "config \<Rightarrow> string \<Rightarrow> string" where
  "connURL cfg database0 =
     (let database = (if database0 = [] then DBAdminName cfg else database0) in
      url_string ''gaussdb'' (DBUser cfg) (DBPassword cfg) (DBHost cfg @ '':'' @ int_text (DBPort cfg)) database
        (''connect_timeout='' @ url_escape QueryComponent (int_text (DBConnTimeout cfg))
         @ ''&sslmode='' @ url_escape QueryComponent (DBSSLMode cfg)))"

section \<open>Executing and querying\<close>

text \<open>The loop of \<open>Exec\<close> from statement \<open>i\<close> (counted from 0) of \<open>n\<close>, on an open connection.\<close>

fun exec_loop :: "server \<Rightarrow> string \<Rightarrow> nat \<Rightarrow> nat \<Rightarrow> string list \<Rightarrow> ('d, unit) action" where
  "exec_loop srv url i n [] w = (Ok (), w)"
| "exec_loop srv url i n (stmt # stmts) w =
     (let answer = srv_exec srv (w_hist w) url stmt; w' = log_event (Executed url stmt answer) w in
      case answer of
        Some e \<Rightarrow> (Err (StatementFailed (i + 1) n e), w')
      | None \<Rightarrow> exec_loop srv url (i + 1) n stmts w')"

text \<open>Connecting, running \<open>f\<close> on the connection, and the deferred \<open>Close\<close>.\<close>

definition with_conn :: "server \<Rightarrow> string \<Rightarrow> ('d, 'a) action \<Rightarrow> ('d, 'a) action" where
  "with_conn srv url f w = (case srv_connect srv (w_hist w) url of
      Some e \<Rightarrow> (Err (External e), log_event (Refused url e) w)
    | None \<Rightarrow> (case f (log_event (Connected url) w) of (r, w') \<Rightarrow> (r, log_event (Closed url) w')))"

definition Exec :: "server \<Rightarrow> config \<Rightarrow> string \<Rightarrow> string list \<Rightarrow> ('d, unit) action" where
  "Exec srv cfg database statements =
     (let url = connURL cfg database in
      with_conn srv url (exec_loop srv url 0 (length statements) statements))"

definition query_row :: "server \<Rightarrow> string \<Rightarrow> string \<Rightarrow> ('d, query_result) action" where
  "query_row srv url sql w = (Ok (srv_query srv (w_hist w) url sql), log_event (Queried url sql) w)"

definition catalog_query :: "string \<Rightarrow> string \<Rightarrow> string \<Rightarrow> string" where
  "catalog_query table column name =
     ''SELECT 1 FROM '' @ table @ '' WHERE '' @ column @ '' = '' @ quoteLiteral name"

definition Exists :: "server \<Rightarrow> config \<Rightarrow> string \<Rightarrow> string \<Rightarrow> string \<Rightarrow> ('d, bool) action" where
  "Exists srv cfg table column name =
     (let url = connURL cfg [] in
      with_conn srv url (seq (query_row srv url (catalog_query table column name)) (\<lambda>r. case r of
          NoRows \<Rightarrow> ret False
        | Row one \<Rightarrow> ret True
        | QueryError e \<Rightarrow> fail (External e))))"

definition Ping :: "server \<Rightarrow> config \<Rightarrow> ('d, unit) action" where
  "Ping srv cfg =
     (let url = connURL cfg [] in
      with_conn srv url (seq (query_row srv url ''SELECT 1'') (\<lambda>r. case r of
          NoRows \<Rightarrow> fail (External ''no rows in result set'')
        | Row one \<Rightarrow> ret ()
        | QueryError e \<Rightarrow> fail (External e))))"

text \<open>The interface \<open>DB\<close> of \<open>gaussdb.go\<close>, and the implementation \<open>NewDB\<close> returns.\<close>

record 'd db =
  db_Exec :: "string \<Rightarrow> string list \<Rightarrow> ('d, unit) action"
  db_Exists :: "string \<Rightarrow> string \<Rightarrow> string \<Rightarrow> ('d, bool) action"
  db_Ping :: "('d, unit) action"

definition NewDB :: "server \<Rightarrow> config \<Rightarrow> 'd db" where
  "NewDB srv cfg = \<lparr>db_Exec = Exec srv cfg, db_Exists = Exists srv cfg, db_Ping = Ping srv cfg\<rparr>"

section \<open>What the server has accepted\<close>

text \<open>The statements the server ran without an error, with the URL of their connection.\<close>

fun accepted_event :: "db_event \<Rightarrow> (string \<times> string) list" where
  "accepted_event (Executed url stmt None) = [(url, stmt)]"
| "accepted_event _ = []"

definition accepted :: "'d world \<Rightarrow> (string \<times> string) list" where
  "accepted w = concat (map accepted_event (w_hist w))"

text \<open>The connections opened and not closed.\<close>

fun open_event :: "db_event \<Rightarrow> int" where
  "open_event (Connected url) = 1"
| "open_event (Closed url) = - 1"
| "open_event _ = 0"

definition open_conns :: "'d world \<Rightarrow> int" where
  "open_conns w = sum_list (map open_event (w_hist w))"

lemma log_event_simps [simp]:
  "accepted (log_event e w) = accepted w @ accepted_event e"
  "open_conns (log_event e w) = open_conns w + open_event e"
  "w_pool (log_event e w) = w_pool w" "w_store (log_event e w) = w_store w"
  by (simp_all add: accepted_def open_conns_def log_event_def)

text \<open>The outcome of a batch on one connection: all of it, or the statements before the failing one.\<close>

definition batch_outcome ::
    "server \<Rightarrow> string \<Rightarrow> nat \<Rightarrow> nat \<Rightarrow> string list \<Rightarrow> 'd world \<Rightarrow> (err, unit) go \<Rightarrow> 'd world \<Rightarrow> bool" where
  "batch_outcome srv url i n stmts w r w' \<longleftrightarrow>
     (r = Ok () \<and> accepted w' = accepted w @ map (Pair url) stmts)
   \<or> (\<exists>k h e. k < length stmts \<and> srv_exec srv h url (stmts ! k) = Some e
        \<and> r = Err (StatementFailed (i + k + 1) n e)
        \<and> accepted w' = accepted w @ map (Pair url) (take k stmts))"

lemma exec_loop_outcome:
  "exec_loop srv url i n stmts w = (r, w') \<Longrightarrow>
     w_pool w' = w_pool w \<and> w_store w' = w_store w \<and> open_conns w' = open_conns w
     \<and> batch_outcome srv url i n stmts w r w'"
proof (induction srv url i n stmts w rule: exec_loop.induct)
  case (2 srv url i n stmt stmts w)
  show ?case
  proof (cases "srv_exec srv (w_hist w) url stmt")
    case None
    define w1 where "w1 = log_event (Executed url stmt None) w"
    have run: "exec_loop srv url (i + 1) n stmts w1 = (r, w')"
      using "2.prems" None by (simp add: w1_def Let_def)
    have frame: "w_pool w' = w_pool w \<and> w_store w' = w_store w \<and> open_conns w' = open_conns w"
      and IH: "batch_outcome srv url (i + 1) n stmts w1 r w'"
      using "2.IH" [OF refl refl None] run None by (simp_all add: w1_def)
    from IH have "batch_outcome srv url i n (stmt # stmts) w r w'"
      unfolding batch_outcome_def
    proof (elim disjE exE conjE)
      fix k h e
      assume "k < length stmts" "srv_exec srv h url (stmts ! k) = Some e"
        "r = Err (StatementFailed (i + 1 + k + 1) n e)" "accepted w' = accepted w1 @ map (Pair url) (take k stmts)"
      then have "Suc k < length (stmt # stmts)" "srv_exec srv h url ((stmt # stmts) ! Suc k) = Some e"
        "r = Err (StatementFailed (i + Suc k + 1) n e)"
        "accepted w' = accepted w @ map (Pair url) (take (Suc k) (stmt # stmts))" by (simp_all add: w1_def)
      then show "(r = Ok () \<and> accepted w' = accepted w @ map (Pair url) (stmt # stmts))
        \<or> (\<exists>k h e. k < length (stmt # stmts) \<and> srv_exec srv h url ((stmt # stmts) ! k) = Some e
             \<and> r = Err (StatementFailed (i + k + 1) n e)
             \<and> accepted w' = accepted w @ map (Pair url) (take k (stmt # stmts)))" by blast
    qed (simp add: w1_def)
    with frame show ?thesis by blast
  next
    case (Some e)
    then have r: "r = Err (StatementFailed (i + 0 + 1) n e)"
      and frame: "w_pool w' = w_pool w \<and> w_store w' = w_store w \<and> open_conns w' = open_conns w"
      and acc: "accepted w' = accepted w @ map (Pair url) (take 0 (stmt # stmts))"
      using "2.prems" by (auto simp: Let_def)
    have "batch_outcome srv url i n (stmt # stmts) w r w'"
      unfolding batch_outcome_def
      by (rule disjI2, rule exI [of _ 0], rule exI [of _ "w_hist w"], rule exI [of _ e]) (use r acc Some in simp)
    with frame show ?thesis by blast
  qed
qed (simp add: batch_outcome_def)

text \<open>The errors of the driver are its library's, never a conflict of names.\<close>

definition driver_error :: "err \<Rightarrow> bool" where
  "driver_error e \<longleftrightarrow> (\<exists>x. e = External x) \<or> (\<exists>i n x. e = StatementFailed i n x)"

lemma Exec_outcome:
  assumes "Exec srv cfg database stmts w = (r, w')"
  shows "w_pool w' = w_pool w \<and> w_store w' = w_store w \<and> open_conns w' = open_conns w
     \<and> (batch_outcome srv (connURL cfg database) 0 (length stmts) stmts w r w'
        \<or> ((\<exists>e. r = Err (External e)) \<and> accepted w' = accepted w))"
proof (cases "srv_connect srv (w_hist w) (connURL cfg database)")
  case None
  define u where "u = connURL cfg database"
  obtain r1 w1 where run: "exec_loop srv u 0 (length stmts) stmts (log_event (Connected u) w) = (r1, w1)"
    by fastforce
  with None assms have w': "r = r1" "w' = log_event (Closed u) w1"
    by (auto simp: Exec_def with_conn_def u_def Let_def)
  from exec_loop_outcome [OF run] show ?thesis
    unfolding w' u_def [symmetric] by (simp add: batch_outcome_def)
next
  case (Some e)
  then have "r = Err (External e)" "w' = log_event (Refused (connURL cfg database) e) w"
    using assms by (auto simp: Exec_def with_conn_def Let_def)
  then show ?thesis by simp
qed

lemma Exec_prefix:
  assumes "Exec srv cfg database stmts w = (r, w')"
  shows "(r = Ok () \<and> accepted w' = accepted w @ map (Pair (connURL cfg database)) stmts)
      \<or> (\<exists>k e. (k < length stmts \<or> k = 0) \<and> r = Err e \<and> driver_error e
           \<and> accepted w' = accepted w @ map (Pair (connURL cfg database)) (take k stmts))"
  using Exec_outcome [OF assms]
proof (elim conjE disjE exE)
  assume "batch_outcome srv (connURL cfg database) 0 (length stmts) stmts w r w'"
  then show ?thesis unfolding batch_outcome_def driver_error_def
    by (elim disjE exE conjE) blast+
next
  fix e assume "r = Err (External e)" "accepted w' = accepted w"
  then show ?thesis by (auto simp: driver_error_def intro: exI [of _ 0])
qed

lemma query_outcome:
  assumes "with_conn srv url (seq (query_row srv url sql) (\<lambda>q. lift (g q))) w = (r, w')"
  shows "w_pool w' = w_pool w \<and> w_store w' = w_store w \<and> open_conns w' = open_conns w
       \<and> accepted w' = accepted w \<and> ((\<exists>q. r = g q) \<or> (\<exists>e. r = Err (External e)))"
proof (cases "srv_connect srv (w_hist w) url")
  case None
  then have "w' = log_event (Closed url) (log_event (Queried url sql) (log_event (Connected url) w))"
    and "\<exists>q. r = g q"
    using assms by (auto simp: with_conn_def seq_def query_row_def)
  then show ?thesis by simp
next
  case (Some e)
  then show ?thesis using assms by (auto simp: with_conn_def)
qed

lemma Exists_outcome:
  assumes "Exists srv cfg t c n w = (r, w')"
  shows "w_pool w' = w_pool w \<and> w_store w' = w_store w \<and> open_conns w' = open_conns w
       \<and> accepted w' = accepted w \<and> ((\<exists>b. r = Ok b) \<or> (\<exists>e. r = Err e \<and> driver_error e))"
proof -
  have f: "(\<lambda>q. case q of NoRows \<Rightarrow> ret False | Row one \<Rightarrow> ret True | QueryError e \<Rightarrow> fail (External e))
      = (\<lambda>q. lift (case q of NoRows \<Rightarrow> Ok False | Row one \<Rightarrow> Ok True | QueryError e \<Rightarrow> Err (External e)))"
    by (auto simp: fun_eq_iff split: query_result.splits)
  show ?thesis
    using query_outcome [OF assms [unfolded Exists_def Let_def f]]
    by (auto simp: driver_error_def split: query_result.splits) (metis query_result.exhaust)+
qed

lemma Ping_outcome:
  assumes "Ping srv cfg w = (r, w')"
  shows "w_pool w' = w_pool w \<and> w_store w' = w_store w \<and> open_conns w' = open_conns w
       \<and> accepted w' = accepted w \<and> r \<noteq> Panic"
proof -
  have f: "(\<lambda>q. case q of NoRows \<Rightarrow> fail (External ''no rows in result set'') | Row one \<Rightarrow> ret ()
        | QueryError e \<Rightarrow> fail (External e))
      = (\<lambda>q. lift (case q of NoRows \<Rightarrow> Err (External ''no rows in result set'') | Row one \<Rightarrow> Ok ()
        | QueryError e \<Rightarrow> Err (External e)))"
    by (auto simp: fun_eq_iff split: query_result.splits)
  show ?thesis
    using query_outcome [OF assms [unfolded Ping_def Let_def f]]
    by (auto split: query_result.splits) (metis query_result.exhaust)+
qed

section \<open>The contract of the interface\<close>

text \<open>
  What the callers of a \<open>DB\<close> rely on: a batch is run in order up to the first failure,
  nothing else of the world changes, and a failure is never a conflict of names.
\<close>

locale db_contract =
  fixes db :: "'d db" and target :: "string \<Rightarrow> string"
  assumes exec_law: "db_Exec db d ss w = (r, w') \<Longrightarrow>
      w_pool w' = w_pool w \<and> w_store w' = w_store w \<and>
      ((r = Ok () \<and> accepted w' = accepted w @ map (Pair (target d)) ss)
       \<or> (\<exists>k e. (k < length ss \<or> k = 0) \<and> r = Err e \<and> driver_error e
            \<and> accepted w' = accepted w @ map (Pair (target d)) (take k ss)))"
    and exists_law: "db_Exists db t c n w = (x, w') \<Longrightarrow>
      w_pool w' = w_pool w \<and> w_store w' = w_store w \<and> accepted w' = accepted w
      \<and> ((\<exists>b. x = Ok b) \<or> (\<exists>e. x = Err e \<and> driver_error e))"
begin

lemma exec_ok: "db_Exec db d ss w = (Ok u, w') \<Longrightarrow> accepted w' = accepted w @ map (Pair (target d)) ss"
  using exec_law by fastforce

lemma exec_frame: "w_pool (snd (db_Exec db d ss w)) = w_pool w" "w_store (snd (db_Exec db d ss w)) = w_store w"
  using exec_law [of d ss w] by (cases "db_Exec db d ss w"; fastforce)+

lemma exec_no_panic: "fst (db_Exec db d ss w) \<noteq> Panic"
  using exec_law [of d ss w] by (cases "db_Exec db d ss w") auto

lemma exists_no_panic: "fst (db_Exists db t c n w) \<noteq> Panic"
  using exists_law [of t c n w] by (cases "db_Exists db t c n w") auto

end

interpretation driver: db_contract "NewDB srv cfg" "connURL cfg"
proof unfold_locales
  show "w_pool w' = w_pool w \<and> w_store w' = w_store w \<and>
      ((r = Ok () \<and> accepted w' = accepted w @ map (Pair (connURL cfg d)) ss)
       \<or> (\<exists>k e. (k < length ss \<or> k = 0) \<and> r = Err e \<and> driver_error e
            \<and> accepted w' = accepted w @ map (Pair (connURL cfg d)) (take k ss)))"
    if "db_Exec (NewDB srv cfg) d ss w = (r, w')" for d ss w r w'
    using Exec_outcome [of srv cfg d ss w r w'] Exec_prefix [of srv cfg d ss w r w'] that
    unfolding NewDB_def by simp
  show "w_pool w' = w_pool w \<and> w_store w' = w_store w \<and> accepted w' = accepted w
      \<and> ((\<exists>b. x = Ok b) \<or> (\<exists>e. x = Err e \<and> driver_error e))"
    if "db_Exists (NewDB srv cfg) t c n w = (x, w')" for t c n w x w'
    using Exists_outcome [of srv cfg t c n w x w'] that unfolding NewDB_def by auto
qed

lemma open_conns_kept:
  "open_conns (snd (Exec srv cfg d ss w)) = open_conns w"
  "open_conns (snd (Exists srv cfg t c n w)) = open_conns w"
  "open_conns (snd (Ping srv cfg w)) = open_conns w"
  using Exec_outcome [of srv cfg d ss w] Exists_outcome [of srv cfg t c n w] Ping_outcome [of srv cfg w]
  by (metis prod.collapse)+

section \<open>The connection URL isolates its parts\<close>

lemma url_escape_free:
  assumes "should_escape m c" and "c \<noteq> CHR ''%''" and "c \<noteq> CHR ''+''"
  shows "c \<notin> set (url_escape m s)"
  using assms url_escape_chars by blast

lemma escape_disjoint:
  assumes "\<forall>c\<in>set ds. should_escape m c \<and> c \<noteq> CHR ''%'' \<and> c \<noteq> CHR ''+''"
  shows "set (url_escape m s) \<inter> set ds = {}"
proof (rule equals0I)
  fix c assume "c \<in> set (url_escape m s) \<inter> set ds"
  then show False using assms url_escape_free [of m c s] by simp
qed

lemma user_delimiters: "set (url_escape UserPassword s) \<inter> set ''@/?:#'' = {}"
  by (rule escape_disjoint)
     (simp add: should_escape_def is_alnum_def is_lower_def is_upper_def is_digit_def sub_delims_host_def)

lemma host_delimiters: "set (url_escape Host s) \<inter> set ''@/?#'' = {}"
  by (rule escape_disjoint)
     (simp add: should_escape_def is_alnum_def is_lower_def is_upper_def is_digit_def sub_delims_host_def)

lemma path_delimiters: "set (url_escape Path s) \<inter> set ''?#'' = {}"
  by (rule escape_disjoint)
     (simp add: should_escape_def is_alnum_def is_lower_def is_upper_def is_digit_def sub_delims_host_def)

lemma query_delimiters: "set (url_escape QueryComponent s) \<inter> set ''&=#@/?:'' = {}"
  by (rule escape_disjoint)
     (simp add: should_escape_def is_alnum_def is_lower_def is_upper_def is_digit_def sub_delims_host_def)

lemma url_escape_hd:
  assumes "s \<noteq> []" and "hd s \<noteq> CHR ''/''"
  shows "url_escape Path s \<noteq> [] \<and> hd (url_escape Path s) \<noteq> CHR ''/''"
proof -
  obtain c cs where s: "s = c # cs" using assms(1) by (cases s) auto
  have "escape_byte Path c \<noteq> [] \<and> hd (escape_byte Path c) \<noteq> CHR ''/''"
    using assms(2) s by (auto simp: escape_byte_def)
  then show ?thesis by (cases "escape_byte Path c") (auto simp: s url_escape_def)
qed

section \<open>Reading the URL\<close>

text \<open>
  The cuts of \<open>url.Parse\<close>: the fragment at the first \<open>#\<close>, the query at the first \<open>?\<close>, the
  path at the first \<open>/\<close> after the scheme, the user information before the last \<open>@\<close>, and in
  it the password after the first colon.
\<close>

definition before :: "char \<Rightarrow> string \<Rightarrow> string" where
  "before c s = takeWhile (\<lambda>x. x \<noteq> c) s"

definition after :: "char \<Rightarrow> string \<Rightarrow> string" where
  "after c s = drop 1 (dropWhile (\<lambda>x. x \<noteq> c) s)"

definition url_cut :: "string \<Rightarrow> (string \<times> string \<times> string \<times> string \<times> string) option" where
  "url_cut s =
     (let t = before (CHR ''#'') s; hier = before (CHR ''?'') t; query = after (CHR ''?'') t;
          rest = drop (length ''gaussdb://'') hier; authority = before (CHR ''/'') rest;
          info = rev (after (CHR ''@'') (rev authority)); host = rev (before (CHR ''@'') (rev authority)) in
      if has_prefix ''gaussdb://'' hier \<and> CHR ''@'' \<in> set authority
      then Some (before (CHR '':'') info, after (CHR '':'') info, host, drop (length authority) rest, query)
      else None)"

lemma before_after [simp]:
  "c \<notin> set x \<Longrightarrow> before c (x @ c # y) = x" "c \<notin> set x \<Longrightarrow> after c (x @ c # y) = y"
  "c \<notin> set x \<Longrightarrow> before c x = x"
  by (induction x) (auto simp: before_def after_def)

lemma url_cut_parts:
  assumes "set u \<inter> set ''@/?:#'' = {}" and "set p \<inter> set ''@/?:#'' = {}" and "set h \<inter> set ''@/?#'' = {}"
    and "d = [] \<or> hd d = CHR ''/''" and "set d \<inter> set ''?#'' = {}" and "set q \<inter> set ''#'' = {}"
  shows "url_cut (''gaussdb://'' @ u @ '':'' @ p @ ''@'' @ h @ d @ ''?'' @ q) = Some (u, p, h, d, q)"
proof -
  let ?a = "u @ CHR '':'' # p @ CHR ''@'' # h" and ?g = "''gaussdb://''"
  have whole: "?g @ u @ '':'' @ p @ ''@'' @ h @ d @ ''?'' @ q = (?g @ ?a @ d) @ CHR ''?'' # q" by simp
  have marks: "CHR ''#'' \<notin> set ((?g @ ?a @ d) @ CHR ''?'' # q)" "CHR ''?'' \<notin> set (?g @ ?a @ d)"
    using assms by auto
  have hier: "before (CHR ''?'') (before (CHR ''#'') ((?g @ ?a @ d) @ CHR ''?'' # q)) = ?g @ ?a @ d"
    "after (CHR ''?'') (before (CHR ''#'') ((?g @ ?a @ d) @ CHR ''?'' # q)) = q"
    unfolding before_after(3) [OF marks(1)] by (rule before_after(1,2) [OF marks(2)])+
  have slash: "CHR ''/'' \<notin> set ?a" using assms by auto
  have auth: "before (CHR ''/'') (?a @ d) = ?a"
  proof (cases d)
    case Nil
    then show ?thesis using before_after(3) [OF slash] by simp
  next
    case (Cons c d')
    then have "d = CHR ''/'' # d'" using assms(4) by simp
    then show ?thesis using before_after(1) [OF slash] by blast
  qed
  have rev: "rev ?a = rev h @ CHR ''@'' # rev (u @ CHR '':'' # p)" by simp
  have at: "CHR ''@'' \<notin> set (rev h)" using assms(3) by auto
  have parts: "rev (before (CHR ''@'') (rev ?a)) = h" "rev (after (CHR ''@'') (rev ?a)) = u @ CHR '':'' # p"
    unfolding rev before_after(1,2) [OF at] by (rule rev_rev_ident)+
  have colon: "CHR '':'' \<notin> set u" using assms(1) by auto
  have user: "before (CHR '':'') (u @ CHR '':'' # p) = u" "after (CHR '':'') (u @ CHR '':'' # p) = p"
    by (rule before_after(1,2) [OF colon])+
  have pre: "has_prefix ?g (?g @ ?a @ d)" "drop (length ?g) (?g @ ?a @ d) = ?a @ d" "drop (length ?a) (?a @ d) = d"
    "CHR ''@'' \<in> set ?a"
    by (simp_all add: has_prefix_def)
  show ?thesis unfolding whole url_cut_def Let_def hier pre(2) auth parts user pre(3) using pre(1,4) by simp
qed

lemma url_escape_Nil [simp]: "url_escape m [] = []"
  by (simp add: url_escape_def)

lemma path_keeps_slash: "s \<noteq> [] \<Longrightarrow> hd s = CHR ''/'' \<Longrightarrow> url_escape Path s \<noteq> [] \<and> hd (url_escape Path s) = CHR ''/''"
  by (cases s) (simp_all add: url_escape_def escape_byte_def should_escape_def is_alnum_def is_lower_def is_upper_def is_digit_def)

lemma int_text_host: "list_all host_byte (int_text n)"
  using nat_text_digits
  by (auto simp: int_text_def list_all_iff host_byte_def should_escape_def is_alnum_def is_lower_def is_upper_def is_digit_def)

section \<open>Properties\<close>

text \<open>
  Claim C27. \<open>Exec\<close> runs its statements in order on one connection to the named database:
  on success the server has accepted all of them and nothing else; on an error it has
  accepted exactly the statements before the failing one, and the error holds the
  position and the server's own message, never the statement (which may embed a password).
\<close>

theorem exec_runs_prefix:
  "\<exists>r w' url. Exec srv cfg database stmts w = (r, w') \<and> url = connURL cfg database \<and>
     ((r = Ok () \<and> accepted w' = accepted w @ map (Pair url) stmts)
      \<or> ((\<exists>e. r = Err (External e)) \<and> accepted w' = accepted w)
      \<or> (\<exists>k h e. k < length stmts \<and> srv_exec srv h url (stmts ! k) = Some e
           \<and> r = Err (StatementFailed (k + 1) (length stmts) e)
           \<and> accepted w' = accepted w @ map (Pair url) (take k stmts)))"
proof -
  obtain r w' where run: "Exec srv cfg database stmts w = (r, w')" by fastforce
  show ?thesis using Exec_outcome [OF run] run by (simp add: batch_outcome_def) metis
qed

text \<open>
  No connection is leaked: after every operation of the driver, successful or
  not, as many connections are open as before.
\<close>

lemma connections_closed:
  "open_conns (snd (Exec srv cfg d ss w)) = open_conns w
   \<and> open_conns (snd (Exists srv cfg t c n w)) = open_conns w
   \<and> open_conns (snd (Ping srv cfg w)) = open_conns w"
  by (simp add: open_conns_kept)

text \<open>
  Claim C34. The connection URL keeps its parts apart, whatever the configured values and the
  database name hold: cut at its delimiters as \<open>net/url\<close> cuts it, it gives back the user
  and the password, the two options of the query and nothing more, and the database. A host
  unescapes to the configured one when each of its bytes is one a URL host can hold, and to an
  error otherwise (what \<open>net/url\<close> checks of IPv6 brackets and zones comes on top). The
  path is the database name, the admin database for an empty one, after one slash; a name
  that begins with a slash, or an empty one, gets no slash of its own.
\<close>

theorem connURL_isolates:
  "\<exists>u p h d t m db. url_cut (connURL cfg database) = Some (u, p, h, d,
       ''connect_timeout='' @ t @ ''&sslmode='' @ m)
     \<and> url_unescape UserPassword u = Some (DBUser cfg) \<and> url_unescape UserPassword p = Some (DBPassword cfg)
     \<and> url_unescape Host h = (if list_all host_byte (DBHost cfg) then Some (DBHost cfg @ '':'' @ int_text (DBPort cfg)) else None)
     \<and> db = (if database = [] then DBAdminName cfg else database)
     \<and> url_unescape Path d = Some (if db = [] \<or> hd db = CHR ''/'' then db else ''/'' @ db)
     \<and> url_unescape QueryComponent t = Some (int_text (DBConnTimeout cfg))
     \<and> url_unescape QueryComponent m = Some (DBSSLMode cfg) \<and> set (t @ m) \<inter> set ''&=#'' = {}"
proof -
  define db where "db = (if database = [] then DBAdminName cfg else database)"
  define e where "e = (if db = ''*'' then ''*'' else url_escape Path db)"
  define d where "d = (if e \<noteq> [] \<and> hd e \<noteq> CHR ''/'' then ''/'' else []) @ e"
  let ?u = "url_escape UserPassword (DBUser cfg)" and ?p = "url_escape UserPassword (DBPassword cfg)"
    and ?h = "url_escape Host (DBHost cfg @ '':'' @ int_text (DBPort cfg))"
    and ?t = "url_escape QueryComponent (int_text (DBConnTimeout cfg))"
    and ?m = "url_escape QueryComponent (DBSSLMode cfg)"
  have "connURL cfg database = ''gaussdb://'' @ ?u @ '':'' @ ?p @ ''@'' @ ?h @ d @ ''?''
      @ ''connect_timeout='' @ ?t @ ''&sslmode='' @ ?m"
    by (simp add: connURL_def url_string_def Let_def d_def e_def db_def)
  moreover have "d = [] \<or> hd d = CHR ''/''" by (auto simp: d_def)
  moreover have "set d \<inter> set ''?#'' = {}" using path_delimiters [of db] by (auto simp: d_def e_def)
  moreover have "set (''connect_timeout='' @ ?t @ ''&sslmode='' @ ?m) \<inter> set ''#'' = {}"
    using query_delimiters [of "int_text (DBConnTimeout cfg)"] query_delimiters [of "DBSSLMode cfg"] by auto
  ultimately have cut: "url_cut (connURL cfg database) = Some (?u, ?p, ?h, d, ''connect_timeout='' @ ?t @ ''&sslmode='' @ ?m)"
    by (simp only: url_cut_parts [OF user_delimiters user_delimiters host_delimiters])
  have path: "url_unescape Path d = Some (if db = [] \<or> hd db = CHR ''/'' then db else ''/'' @ db)"
  proof (cases "db = [] \<or> hd db = CHR ''/''")
    case True
    then have "d = url_escape Path db" using path_keeps_slash [of db]
      by (cases "db = []") (simp_all add: d_def e_def, auto)
    then show ?thesis using True by simp
  next
    case False
    then have "d = CHR ''/'' # e" using url_escape_hd [of db] by (simp add: d_def e_def)
    moreover have "url_unescape Path e = Some db" by (simp add: e_def)
    ultimately show ?thesis using False by simp
  qed
  have options: "set (?t @ ?m) \<inter> set ''&=#'' = {}"
    using query_delimiters [of "int_text (DBConnTimeout cfg)"] query_delimiters [of "DBSSLMode cfg"] by auto
  have "list_all host_byte (DBHost cfg @ '':'' @ int_text (DBPort cfg)) \<longleftrightarrow> list_all host_byte (DBHost cfg)"
    using int_text_host by (simp add: host_byte_def should_escape_def sub_delims_host_def)
  then have host: "url_unescape Host ?h
      = (if list_all host_byte (DBHost cfg) then Some (DBHost cfg @ '':'' @ int_text (DBPort cfg)) else None)"
    by (simp only: host_unescape_escape)
  have others: "url_unescape UserPassword ?u = Some (DBUser cfg)" "url_unescape UserPassword ?p = Some (DBPassword cfg)"
    "url_unescape QueryComponent ?t = Some (int_text (DBConnTimeout cfg))"
    "url_unescape QueryComponent ?m = Some (DBSSLMode cfg)" by simp_all
  show ?thesis
    by (rule exI [of _ ?u], rule exI [of _ ?p], rule exI [of _ ?h], rule exI [of _ d], rule exI [of _ ?t],
        rule exI [of _ ?m], rule exI [of _ db], intro conjI) (fact cut others host db_def path options)+
qed

definition sample_cfg :: config where
  "sample_cfg = \<lparr>DBHost = ''db'', DBPort = 5432, DBUser = ''admin'', DBPassword = ''p@ss/word'',
     DBAdminName = ''postgres'', DBSSLMode = ''disable'', DBConnTimeout = 10, PlansFile = ''plans.toml'',
     TemplateDir = [], TablespacePrefix = ''broker'', BrokerUsername = ''broker'', BrokerPassword = ''x'',
     StatePath = ''state.db'', StateDSN = [], EncryptionKey = [], EncryptionKeyPrevious = [],
     NamePrefix = ''gdb'', HTTPHost = [], HTTPPort = 8080\<rparr>"

theorem connURL_isolates_witness:
  "\<exists>u p h d q. url_cut (connURL sample_cfg []) = Some (u, p, h, d, q)
     \<and> url_unescape UserPassword p = Some ''p@ss/word'' \<and> url_unescape Host h = Some ''db:5432''
     \<and> url_unescape Path d = Some ''/postgres''"
proof -
  have cfg: "DBPassword sample_cfg = ''p@ss/word''" "DBAdminName sample_cfg = ''postgres''" "DBHost sample_cfg = ''db''"
    "DBPort sample_cfg = 5432" by (simp_all add: sample_cfg_def)
  have "nat_text 5432 = ''5432''"
    by (simp add: nat_text.simps [of 5432] nat_text.simps [of 543] nat_text.simps [of 54] nat_text.simps [of 5] digit_char_def) code_simp
  then have port: "int_text 5432 = ''5432''" by (simp add: int_text_def)
  have host: "list_all host_byte ''db''"
    by (simp add: host_byte_def should_escape_def is_alnum_def is_lower_def)
  have db: "''postgres'' \<noteq> []" "hd ''postgres'' \<noteq> CHR ''/''" by simp_all
  show ?thesis
    using connURL_isolates [of sample_cfg "[]"] unfolding cfg if_P [OF refl] if_P [OF host] port
    apply (elim exE conjE)
    subgoal for u p h d t m x
      apply (rule exI [of _ u], rule exI [of _ p], rule exI [of _ h], rule exI [of _ d], rule exI, intro conjI)
      apply assumption+
      apply simp
      using db apply simp
      done
    done
qed

end
