(* ===== verification/Admin.thy ===== *)
theory Admin
  imports Driver
begin

text \<open>
  \<open>gaussdb.go\<close>: the life cycle of one tenant's database objects. An \<open>admin\<close> carries the
  configuration, the template environment and the database interface \<open>DB\<close>; every
  operation is an action on the world. The lemmas about its operations are proved once,
  in a locale over the contract of the interface, and hold of the driver's
  implementation by interpretation.
\<close>

section \<open>Operations\<close>

record 'd admin =
  a_cfg :: config
  a_env :: template_env
  a_db :: "'d db"

definition quotaString :: "int \<Rightarrow> string" where
  "quotaString gb = int_text gb @ ''G''"

definition buildVars :: "'d admin \<Rightarrow> names \<Rightarrow> InstanceParams \<Rightarrow> TemplateVars" where
  "buildVars a nms spec = \<lparr>
     tv_Database = quoteIdent (n_Database nms),
     tv_GroupRole = quoteIdent (n_GroupRole nms),
     tv_Tablespace = quoteIdent (n_Tablespace nms),
     tv_AdminUser = quoteIdent (DBUser (a_cfg a)),
     tv_Username = [], tv_Password = [], tv_GroupPassword = [],
     tv_Encoding = quoteLiteral (ip_Encoding spec),
     tv_Compatibility = quoteLiteral (ip_Compatibility spec),
     tv_StorageQuota = quoteLiteral (quotaString (ip_StorageGB spec)),
     tv_TablePrefix = quoteLiteral (TablespacePrefix (a_cfg a) @ ''/'' @ n_Tablespace nms),
     tv_DatabaseLiteral = quoteLiteral (n_Database nms),
     tv_UsernameLiteral = [],
     tv_MaxConnections = ip_MaxConnections spec\<rparr>"

definition execTemplate :: "'d admin \<Rightarrow> string \<Rightarrow> string \<Rightarrow> TemplateVars \<Rightarrow> ('d, unit) action" where
  "execTemplate a relPath database v =
     seq (lift (LoadTemplate (a_env a) (TemplateDir (a_cfg a)) relPath)) (\<lambda>tmpl.
     seq (lift (RenderTemplate tmpl v)) (\<lambda>stmts.
     db_Exec (a_db a) database stmts))"

definition ensureAbsent :: "'d admin \<Rightarrow> string \<Rightarrow> string \<Rightarrow> string \<Rightarrow> ('d, unit) action" where
  "ensureAbsent a table column name =
     seq (db_Exists (a_db a) table column name) (\<lambda>exists.
     if exists then fail (AlreadyExists table name) else ret ())"

text \<open>Drawing a password consumes entropy; a failed source is a panic.\<close>

definition draw_password :: "('d, string) action" where
  "draw_password w = (case randomPassword (w_pool w) of
      None \<Rightarrow> (Panic, w)
    | Some (password, pool) \<Rightarrow> (Ok password, w\<lparr>w_pool := pool\<rparr>))"

text \<open>
  \<open>if err := m; err != nil { _ = cleanup; return err }\<close>: the outcome of the clean-up is
  dropped, its effects stay.
\<close>

definition or_rollback :: "('d, 'a) action \<Rightarrow> ('d, 'b) action \<Rightarrow> ('d, 'a) action" where
  "or_rollback m cleanup w = (case m w of
      (Err e, w') \<Rightarrow> (case cleanup w' of
          (Panic, w'') \<Rightarrow> (Panic, w'')
        | (_, w'') \<Rightarrow> (Err e, w''))
    | r \<Rightarrow> r)"

definition Admin_Deprovision :: "'d admin \<Rightarrow> names \<Rightarrow> ('d, unit) action" where
  "Admin_Deprovision a nms =
     (let v = buildVars a nms no_params in
      execTemplate a ''opengauss/admin-db/deprovision.sql'' (DBAdminName (a_cfg a)) v)"

definition Admin_Update :: "'d admin \<Rightarrow> names \<Rightarrow> InstanceParams \<Rightarrow> ('d, unit) action" where
  "Admin_Update a nms spec =
     (let v = buildVars a nms spec in
      execTemplate a ''opengauss/admin-db/update.sql'' (DBAdminName (a_cfg a)) v)"

definition Admin_Unbind :: "'d admin \<Rightarrow> names \<Rightarrow> string \<Rightarrow> ('d, unit) action" where
  "Admin_Unbind a nms username =
     (let v = (buildVars a nms no_params)\<lparr>tv_Username := quoteIdent username,
                tv_UsernameLiteral := quoteLiteral username\<rparr> in
      seq (execTemplate a ''opengauss/tenant-db/unbind.sql'' (n_Database nms) v) (\<lambda>_.
      execTemplate a ''opengauss/admin-db/unbind.sql'' (DBAdminName (a_cfg a)) v))"

definition Admin_Provision :: "'d admin \<Rightarrow> names \<Rightarrow> InstanceParams \<Rightarrow> ('d, unit) action" where
  "Admin_Provision a nms spec =
     seq (ensureAbsent a ''pg_database'' ''datname'' (n_Database nms)) (\<lambda>_.
     seq (ensureAbsent a ''pg_roles'' ''rolname'' (n_GroupRole nms)) (\<lambda>_.
     seq (ensureAbsent a ''pg_tablespace'' ''spcname'' (n_Tablespace nms)) (\<lambda>_.
     seq draw_password (\<lambda>password.
     let v = (buildVars a nms spec)\<lparr>tv_GroupPassword := quoteLiteral password\<rparr> in
     seq (or_rollback (execTemplate a ''opengauss/admin-db/provision.sql'' (DBAdminName (a_cfg a)) v)
            (Admin_Deprovision a nms)) (\<lambda>_.
     or_rollback (execTemplate a ''opengauss/tenant-db/provision.sql'' (n_Database nms) v)
       (Admin_Deprovision a nms))))))"

definition Admin_Bind :: "'d admin \<Rightarrow> names \<Rightarrow> string \<Rightarrow> ('d, string) action" where
  "Admin_Bind a nms username =
     seq (ensureAbsent a ''pg_roles'' ''rolname'' username) (\<lambda>_.
     seq draw_password (\<lambda>password.
     let v = (buildVars a nms no_params)\<lparr>tv_Username := quoteIdent username,
                tv_Password := quoteLiteral password\<rparr> in
     seq (or_rollback (execTemplate a ''opengauss/admin-db/bind.sql'' (DBAdminName (a_cfg a)) v)
            (Admin_Unbind a nms username)) (\<lambda>_.
     seq (or_rollback (execTemplate a ''opengauss/tenant-db/bind.sql'' (n_Database nms) v)
            (Admin_Unbind a nms username)) (\<lambda>_.
     ret password))))"

section \<open>Clean variables\<close>

definition clean_text :: "string \<Rightarrow> bool" where
  "clean_text s \<longleftrightarrow> list_all (\<lambda>c. is_ascii c \<and> \<not> is_space c \<and> c \<noteq> CHR '';'') s"

lemma clean_quote_chars: "is_ascii (CHR 0x22) \<and> \<not> is_space (CHR 0x22)" "is_ascii (CHR 0x27) \<and> \<not> is_space (CHR 0x27)"
  by code_simp+

lemma clean_replace:
  "clean_text s \<Longrightarrow> clean_text r \<Longrightarrow> clean_text (replace_all c r s)"
  by (auto simp: clean_text_def replace_all_def list_all_iff)

lemma clean_quoteIdent: "clean_text s \<Longrightarrow> clean_word (quoteIdent s)"
  using clean_replace [of s "[CHR 0x22, CHR 0x22]" "CHR 0x22"] clean_quote_chars
  by (simp add: quoteIdent_def clean_word_def clean_text_def)

lemma clean_quoteLiteral: "clean_text s \<Longrightarrow> clean_word (quoteLiteral s)"
  using clean_replace [of s "[CHR 0x27, CHR 0x27]" "CHR 0x27"] clean_quote_chars
  by (simp add: quoteLiteral_def clean_word_def clean_text_def)

lemma clean_plain: "list_all (\<lambda>c. is_alnum c \<or> c = CHR ''_'' \<or> c = CHR ''-'') s \<Longrightarrow> clean_text s"
  by (cases "s = []") (use clean_name [of s] in \<open>auto simp: clean_text_def clean_word_def\<close>)

lemma clean_name_text: "list_all name_char s \<Longrightarrow> clean_text s"
  by (rule clean_plain) (auto simp: list_all_iff name_char_def is_alnum_def)

lemma clean_text_append: "clean_text (s @ t) \<longleftrightarrow> clean_text s \<and> clean_text t"
  by (simp add: clean_text_def)

lemma clean_text_word: "clean_word s \<Longrightarrow> clean_text s"
  by (simp add: clean_word_def clean_text_def)

lemma clean_password: "set pw \<subseteq> set passwordAlphabet \<Longrightarrow> clean_text pw"
proof -
  have "list_all (\<lambda>c. is_ascii c \<and> \<not> is_space c \<and> c \<noteq> CHR '';'') passwordAlphabet" by code_simp
  then show "set pw \<subseteq> set passwordAlphabet \<Longrightarrow> clean_text pw"
    by (auto simp: clean_text_def list_all_iff)
qed

lemma clean_quota: "clean_text (quotaString gb)"
proof -
  have "clean_text ''G''" by code_simp
  then show ?thesis
    by (simp add: quotaString_def clean_text_append clean_text_word [OF clean_int_text] del: append_Cons)
qed

lemma clean_slash: "clean_text ''/''"
  by code_simp

lemma clean_options: "s \<in> set compatibilities \<union> set encodings \<Longrightarrow> clean_text s"
proof -
  have "list_all clean_text (compatibilities @ encodings)" by code_simp
  then show "s \<in> set compatibilities \<union> set encodings \<Longrightarrow> clean_text s" by (auto simp: list_all_iff)
qed

definition clean_names :: "names \<Rightarrow> bool" where
  "clean_names nms \<longleftrightarrow> list_all name_char (n_Database nms) \<and> list_all name_char (n_GroupRole nms)
     \<and> list_all name_char (n_Tablespace nms)"

text \<open>
  When the SQL is the intended one: the templates are the embedded ones, the admin user
  is a plain word (the configuration does not check it), the tablespace prefix passed
  validation.
\<close>

definition admin_ready :: "'d admin \<Rightarrow> bool" where
  "admin_ready a \<longleftrightarrow>
     (TemplateDir (a_cfg a) = [] \<or> (\<forall>rel. te_read (a_env a) (TemplateDir (a_cfg a)) rel = NotExist))
   \<and> clean_text (DBUser (a_cfg a)) \<and> locationPrefixPattern (TablespacePrefix (a_cfg a))"

definition clean_spec :: "InstanceParams \<Rightarrow> bool" where
  "clean_spec spec \<longleftrightarrow> clean_text (ip_Encoding spec) \<and> clean_text (ip_Compatibility spec)"

lemma clean_spec_within: "within_plan p spec \<Longrightarrow> clean_spec spec"
  by (auto simp: clean_spec_def within_plan_def intro: clean_options)

lemma clean_spec_no_params [simp]: "clean_spec no_params"
  by (simp add: clean_spec_def no_params_def clean_text_def)

lemma clean_buildVars:
  assumes "admin_ready a" and "clean_names nms" and "clean_spec spec"
  shows "clean_word (tv_Database (buildVars a nms spec))" "clean_word (tv_GroupRole (buildVars a nms spec))"
    "clean_word (tv_Tablespace (buildVars a nms spec))" "clean_word (tv_AdminUser (buildVars a nms spec))"
    "clean_word (tv_Encoding (buildVars a nms spec))" "clean_word (tv_Compatibility (buildVars a nms spec))"
    "clean_word (tv_StorageQuota (buildVars a nms spec))" "clean_word (tv_TablePrefix (buildVars a nms spec))"
    "clean_word (tv_DatabaseLiteral (buildVars a nms spec))"
proof -
  have "clean_text (TablespacePrefix (a_cfg a) @ ''/'' @ n_Tablespace nms)"
    using assms clean_slash
    by (simp add: clean_text_append admin_ready_def clean_names_def locationPrefixPattern_def
        clean_plain clean_name_text del: append_Cons)
  then show "clean_word (tv_TablePrefix (buildVars a nms spec))"
    by (simp add: buildVars_def clean_quoteLiteral del: append_Cons)
qed (use assms in \<open>simp_all add: buildVars_def admin_ready_def clean_names_def clean_spec_def
      clean_quoteIdent clean_quoteLiteral clean_name_text clean_quota\<close>)

lemma execTemplate_embedded:
  assumes "admin_ready a" and "(rel, ls) \<in> set layouts" and "clean_vars v ls"
  shows "execTemplate a rel d v = db_Exec (a_db a) d (statement_texts v ls)"
proof -
  obtain t where "LoadTemplate (a_env a) (TemplateDir (a_cfg a)) rel = Ok t"
    and "RenderTemplate t v = Ok (statement_texts v ls)"
    using load_and_render [OF assms(2) _ assms(3)] assms(1) unfolding admin_ready_def by blast
  then show ?thesis by (simp add: execTemplate_def seq_def fun_eq_iff)
qed

text \<open>So each operation is a fixed batch of statements.\<close>

definition user_vars :: "'d admin \<Rightarrow> names \<Rightarrow> string \<Rightarrow> TemplateVars" where
  "user_vars a nms user = (buildVars a nms no_params)\<lparr>tv_Username := quoteIdent user,
     tv_UsernameLiteral := quoteLiteral user\<rparr>"

lemma Deprovision_batch:
  assumes "admin_ready a" and "clean_names nms"
  shows "Admin_Deprovision a nms =
    db_Exec (a_db a) (DBAdminName (a_cfg a)) (deprovision_sql (buildVars a nms no_params))"
proof -
  have "(''opengauss/admin-db/deprovision.sql'', admin_deprovision_layout) \<in> set layouts"
    by (simp add: layouts_def)
  from execTemplate_embedded [OF assms(1) this] show ?thesis
    using clean_buildVars [OF assms clean_spec_no_params]
    by (simp add: Admin_Deprovision_def Let_def clean_vars_layouts statement_texts_intended)
qed

lemma Update_batch:
  assumes "admin_ready a" and "clean_names nms" and "clean_spec spec"
  shows "Admin_Update a nms spec = db_Exec (a_db a) (DBAdminName (a_cfg a)) (update_sql (buildVars a nms spec))"
proof -
  have "(''opengauss/admin-db/update.sql'', admin_update_layout) \<in> set layouts"
    by (simp add: layouts_def)
  from execTemplate_embedded [OF assms(1) this] show ?thesis
    using clean_buildVars [OF assms]
    by (simp add: Admin_Update_def Let_def clean_vars_layouts statement_texts_intended)
qed

lemma Unbind_batch:
  assumes "admin_ready a" and "clean_names nms" and "list_all name_char user"
  shows "Admin_Unbind a nms user =
    seq (db_Exec (a_db a) (n_Database nms) (unbind_tenant_sql (user_vars a nms user))) (\<lambda>_.
    db_Exec (a_db a) (DBAdminName (a_cfg a)) (unbind_sql (user_vars a nms user)))"
proof -
  have "(''opengauss/admin-db/unbind.sql'', admin_unbind_layout) \<in> set layouts"
    "(''opengauss/tenant-db/unbind.sql'', tenant_unbind_layout) \<in> set layouts"
    by (simp_all add: layouts_def)
  note embed = this [THEN execTemplate_embedded [OF assms(1)]]
  show ?thesis
    using clean_buildVars [OF assms(1,2) clean_spec_no_params] assms(3)
    by (simp add: Admin_Unbind_def Let_def embed clean_vars_layouts statement_texts_intended user_vars_def
        clean_quoteIdent clean_quoteLiteral clean_name_text)
qed

definition provision_vars :: "'d admin \<Rightarrow> names \<Rightarrow> InstanceParams \<Rightarrow> string \<Rightarrow> TemplateVars" where
  "provision_vars a nms spec password = (buildVars a nms spec)\<lparr>tv_GroupPassword := quoteLiteral password\<rparr>"

definition bind_vars :: "'d admin \<Rightarrow> names \<Rightarrow> string \<Rightarrow> string \<Rightarrow> TemplateVars" where
  "bind_vars a nms user password = (buildVars a nms no_params)\<lparr>tv_Username := quoteIdent user,
     tv_Password := quoteLiteral password\<rparr>"

lemma provision_batches:
  assumes "admin_ready a" and "clean_names nms" and "clean_spec spec" and "clean_text pw"
  shows "execTemplate a ''opengauss/admin-db/provision.sql'' d (provision_vars a nms spec pw)
      = db_Exec (a_db a) d (provision_sql (provision_vars a nms spec pw))"
    and "execTemplate a ''opengauss/tenant-db/provision.sql'' d (provision_vars a nms spec pw)
      = db_Exec (a_db a) d (provision_tenant_sql (provision_vars a nms spec pw))"
proof -
  have "(''opengauss/admin-db/provision.sql'', admin_provision_layout) \<in> set layouts"
    "(''opengauss/tenant-db/provision.sql'', tenant_provision_layout) \<in> set layouts"
    by (simp_all add: layouts_def)
  note embed = this [THEN execTemplate_embedded [OF assms(1)]]
  note clean = clean_buildVars [OF assms(1-3)] clean_quoteLiteral [OF assms(4)]
  show "execTemplate a ''opengauss/admin-db/provision.sql'' d (provision_vars a nms spec pw)
      = db_Exec (a_db a) d (provision_sql (provision_vars a nms spec pw))"
    "execTemplate a ''opengauss/tenant-db/provision.sql'' d (provision_vars a nms spec pw)
      = db_Exec (a_db a) d (provision_tenant_sql (provision_vars a nms spec pw))"
    using clean by (simp_all add: embed clean_vars_layouts statement_texts_intended provision_vars_def)
qed

lemma bind_batches:
  assumes "admin_ready a" and "clean_names nms" and "list_all name_char user" and "clean_text pw"
  shows "execTemplate a ''opengauss/admin-db/bind.sql'' d (bind_vars a nms user pw)
      = db_Exec (a_db a) d (bind_sql (bind_vars a nms user pw))"
    and "execTemplate a ''opengauss/tenant-db/bind.sql'' d (bind_vars a nms user pw)
      = db_Exec (a_db a) d (bind_tenant_sql (bind_vars a nms user pw))"
proof -
  have "(''opengauss/admin-db/bind.sql'', admin_bind_layout) \<in> set layouts"
    "(''opengauss/tenant-db/bind.sql'', tenant_bind_layout) \<in> set layouts"
    by (simp_all add: layouts_def)
  note embed = this [THEN execTemplate_embedded [OF assms(1)]]
  note clean = clean_buildVars [OF assms(1,2) clean_spec_no_params] clean_quoteLiteral [OF assms(4)]
    clean_quoteIdent [OF clean_name_text [OF assms(3)]]
  show "execTemplate a ''opengauss/admin-db/bind.sql'' d (bind_vars a nms user pw)
      = db_Exec (a_db a) d (bind_sql (bind_vars a nms user pw))"
    "execTemplate a ''opengauss/tenant-db/bind.sql'' d (bind_vars a nms user pw)
      = db_Exec (a_db a) d (bind_tenant_sql (bind_vars a nms user pw))"
    using clean by (simp_all add: embed clean_vars_layouts statement_texts_intended bind_vars_def)
qed

lemma draw_password_cases:
  assumes "draw_password w = (r, w')"
  shows "accepted w' = accepted w \<and> w_store w' = w_store w \<and> w_hist w' = w_hist w
     \<and> ((\<exists>pw. r = Ok pw \<and> clean_text pw \<and> randomPassword (w_pool w) = Some (pw, w_pool w'))
        \<or> (r = Panic \<and> randomPassword (w_pool w) = None))"
  using assms
  by (auto simp: draw_password_def accepted_def split: option.splits prod.splits
      dest: randomPassword_cases intro!: clean_password)

section \<open>Outcomes, over the contract of the interface\<close>

text \<open>What each operation sends when everything succeeds, \<open>T\<close> naming a database's connection.\<close>

definition provision_trace ::
    "(string \<Rightarrow> string) \<Rightarrow> 'd admin \<Rightarrow> names \<Rightarrow> InstanceParams \<Rightarrow> string \<Rightarrow> (string \<times> string) list" where
  "provision_trace T a nms spec pw =
     map (Pair (T (DBAdminName (a_cfg a)))) (provision_sql (provision_vars a nms spec pw))
   @ map (Pair (T (n_Database nms))) (provision_tenant_sql (provision_vars a nms spec pw))"

definition deprovision_trace :: "(string \<Rightarrow> string) \<Rightarrow> 'd admin \<Rightarrow> names \<Rightarrow> (string \<times> string) list" where
  "deprovision_trace T a nms =
     map (Pair (T (DBAdminName (a_cfg a)))) (deprovision_sql (buildVars a nms no_params))"

definition bind_trace :: "(string \<Rightarrow> string) \<Rightarrow> 'd admin \<Rightarrow> names \<Rightarrow> string \<Rightarrow> string \<Rightarrow> (string \<times> string) list" where
  "bind_trace T a nms user pw =
     map (Pair (T (DBAdminName (a_cfg a)))) (bind_sql (bind_vars a nms user pw))
   @ map (Pair (T (n_Database nms))) (bind_tenant_sql (bind_vars a nms user pw))"

definition unbind_trace :: "(string \<Rightarrow> string) \<Rightarrow> 'd admin \<Rightarrow> names \<Rightarrow> string \<Rightarrow> (string \<times> string) list" where
  "unbind_trace T a nms user =
     map (Pair (T (n_Database nms))) (unbind_tenant_sql (user_vars a nms user))
   @ map (Pair (T (DBAdminName (a_cfg a)))) (unbind_sql (user_vars a nms user))"

definition update_trace :: "(string \<Rightarrow> string) \<Rightarrow> 'd admin \<Rightarrow> names \<Rightarrow> InstanceParams \<Rightarrow> (string \<times> string) list" where
  "update_trace T a nms spec =
     map (Pair (T (DBAdminName (a_cfg a)))) (update_sql (buildVars a nms spec))"

text \<open>An action that runs a trace: all of it, or a prefix with an error of the driver.\<close>

definition runs :: "(string \<times> string) list \<Rightarrow> ('d, 'a) action \<Rightarrow> bool" where
  "runs tr m \<longleftrightarrow> (\<forall>w r w'. m w = (r, w') \<longrightarrow>
     w_pool w' = w_pool w \<and> w_store w' = w_store w \<and>
     ((is_ok r \<and> accepted w' = accepted w @ tr)
      \<or> (\<exists>k e. k < length tr \<and> r = Err e \<and> driver_error e \<and> accepted w' = accepted w @ take k tr)))"

lemma runsD: "runs tr m \<Longrightarrow> m w = (r, w') \<Longrightarrow>
     w_pool w' = w_pool w \<and> w_store w' = w_store w \<and>
     ((is_ok r \<and> accepted w' = accepted w @ tr)
      \<or> (\<exists>k e. k < length tr \<and> r = Err e \<and> driver_error e \<and> accepted w' = accepted w @ take k tr))"
  unfolding runs_def by blast

lemma runs_seq:
  assumes "runs tr m" and "\<And>x. runs us (f x)"
  shows "runs (tr @ us) (seq m f)"
  unfolding runs_def
proof (intro allI impI)
  fix w r w' assume s: "seq m f w = (r, w')"
  obtain r1 w1 where m: "m w = (r1, w1)" by fastforce
  note one = runsD [OF assms(1) m]
  show "w_pool w' = w_pool w \<and> w_store w' = w_store w \<and>
     ((is_ok r \<and> accepted w' = accepted w @ tr @ us)
      \<or> (\<exists>k e. k < length (tr @ us) \<and> r = Err e \<and> driver_error e
           \<and> accepted w' = accepted w @ take k (tr @ us)))"
  proof (cases r1)
    case (Ok x)
    then have f: "f x w1 = (r, w')" using s m by (simp add: act_simps)
    have acc1: "accepted w1 = accepted w @ tr" using one Ok by auto
    from runsD [OF assms(2) f] show ?thesis
    proof (elim conjE disjE exE)
      fix k e assume k: "k < length us" "r = Err e" "driver_error e" "accepted w' = accepted w1 @ take k us"
        "w_pool w' = w_pool w1" "w_store w' = w_store w1"
      then have "length tr + k < length (tr @ us)" "accepted w' = accepted w @ take (length tr + k) (tr @ us)"
        using acc1 by simp_all
      then show ?thesis using k one by metis
    qed (use one acc1 in simp)
  next
    case (Err e)
    then have "r = Err e" "w' = w1" using s m by (simp_all add: act_simps)
    moreover obtain k where "k < length tr" "accepted w1 = accepted w @ take k tr" "driver_error e" using one Err by auto
    moreover from this have "k < length (tr @ us)" "take k tr = take k (tr @ us)" by simp_all
    ultimately show ?thesis using one by metis
  next
    case Panic
    then show ?thesis using one by simp
  qed
qed

text \<open>
  A clean-up run from \<open>v\<close> to \<open>w'\<close>: when it ends well its whole trace was accepted, a failure
  leaves a prefix of it.
\<close>

definition cleaned :: "(string \<times> string) list \<Rightarrow> ('d, 'b) action \<Rightarrow> 'd world \<Rightarrow> 'd world \<Rightarrow> bool" where
  "cleaned us c v w' \<longleftrightarrow> (\<exists>r j. c v = (r, w') \<and> accepted w' = accepted v @ take j us
     \<and> (is_ok r \<longrightarrow> length us \<le> j))"

lemma runs_cleaned:
  assumes "runs us c" and "c v = (r, w')"
  shows "cleaned us c v w'"
proof -
  have "(is_ok r \<and> accepted w' = accepted v @ take (length us) us)
      \<or> (\<exists>k e. r = Err e \<and> accepted w' = accepted v @ take k us)"
    using runsD [OF assms] by auto
  then obtain j where "accepted w' = accepted v @ take j us" "is_ok r \<longrightarrow> length us \<le> j"
    by (metis is_ok.simps(2) order_refl)
  then show ?thesis using assms(2) unfolding cleaned_def by blast
qed

lemma cleaned_prefix:
  assumes "cleaned us c v w'" and "accepted v = accepted w @ tr"
  shows "\<exists>j. accepted w' = accepted w @ tr @ take j us"
  using assms by (auto simp: cleaned_def)

text \<open>A batch followed, when it fails, by another one.\<close>

lemma rollback_outcome:
  assumes "runs tr m" and "runs us c" and "or_rollback m c w = (r, w')"
  shows "w_pool w' = w_pool w \<and> w_store w' = w_store w \<and>
    ((is_ok r \<and> accepted w' = accepted w @ tr)
     \<or> (\<exists>k e v. k < length tr \<and> r = Err e \<and> driver_error e \<and> accepted v = accepted w @ take k tr
          \<and> cleaned us c v w'))"
proof -
  obtain r1 w1 where m: "m w = (r1, w1)" by fastforce
  note one = runsD [OF assms(1) m]
  obtain r2 w2 where c: "c w1 = (r2, w2)" by fastforce
  note two = runsD [OF assms(2) c]
  note clean = runs_cleaned [OF assms(2) c]
  have np: "r2 \<noteq> Panic" using two by auto
  show ?thesis
  proof (cases r1)
    case (Err e)
    then have r: "r = Err e" "w' = w2"
      using assms(3) np m c by (auto simp: or_rollback_def split: go.splits)
    obtain k where "k < length tr" "accepted w1 = accepted w @ take k tr" "driver_error e" using one Err by auto
    then show ?thesis using r one two clean by auto
  qed (use assms(3) m one in \<open>auto simp: or_rollback_def\<close>)
qed

text \<open>The checks before any statement.\<close>

definition guard_error :: "err \<Rightarrow> bool" where
  "guard_error e \<longleftrightarrow> driver_error e \<or> (\<exists>t n. e = AlreadyExists t n)"

definition guards :: "('d, unit) action \<Rightarrow> bool" where
  "guards m \<longleftrightarrow> (\<forall>w r w'. m w = (r, w') \<longrightarrow>
     w_pool w' = w_pool w \<and> w_store w' = w_store w \<and> accepted w' = accepted w
     \<and> (r = Ok () \<or> (\<exists>e. r = Err e \<and> guard_error e)))"

lemma guardsD: "guards m \<Longrightarrow> m w = (r, w') \<Longrightarrow>
     w_pool w' = w_pool w \<and> w_store w' = w_store w \<and> accepted w' = accepted w
     \<and> (r = Ok () \<or> (\<exists>e. r = Err e \<and> guard_error e))"
  unfolding guards_def by blast

lemma guards_seq:
  assumes "guards m" and "guards n"
  shows "guards (seq m (\<lambda>_. n))"
  unfolding guards_def
proof (intro allI impI)
  fix w r w' assume s: "seq m (\<lambda>_. n) w = (r, w')"
  obtain r1 w1 where m: "m w = (r1, w1)" by fastforce
  note one = guardsD [OF assms(1) m]
  show "w_pool w' = w_pool w \<and> w_store w' = w_store w \<and> accepted w' = accepted w
     \<and> (r = Ok () \<or> (\<exists>e. r = Err e \<and> guard_error e))"
  proof (cases r1)
    case (Ok u)
    then have "n w1 = (r, w')" using s m by (simp add: act_simps)
    from guardsD [OF assms(2) this] one show ?thesis by auto
  qed (use one s m in \<open>auto simp: act_simps\<close>)
qed

text \<open>Two batches in a row, with the same clean-up.\<close>

definition two_batches ::
    "('d, unit) action \<Rightarrow> ('d, unit) action \<Rightarrow> ('d, unit) action \<Rightarrow> 'a \<Rightarrow> ('d, 'a) action" where
  "two_batches m1 m2 c x = seq (or_rollback m1 c) (\<lambda>_. seq (or_rollback m2 c) (\<lambda>_. ret x))"

lemma two_batches_outcome:
  assumes "runs t1 m1" and "runs t2 m2" and "runs us c" and run: "two_batches m1 m2 c x w = (r, w')"
  shows "w_pool w' = w_pool w \<and> w_store w' = w_store w \<and>
    ((r = Ok x \<and> accepted w' = accepted w @ t1 @ t2)
     \<or> (\<exists>k e v. k < length (t1 @ t2) \<and> r = Err e \<and> driver_error e \<and> accepted v = accepted w @ take k (t1 @ t2)
          \<and> cleaned us c v w'))"
proof -
  obtain r1 w1 where m1: "or_rollback m1 c w = (r1, w1)" by fastforce
  note one = rollback_outcome [OF assms(1,3) m1]
  show ?thesis
  proof (cases r1)
    case (Err e)
    then have r: "r = Err e" "w' = w1" using run m1 by (simp_all add: two_batches_def act_simps)
    obtain k v where "k < length t1" "accepted v = accepted w @ take k t1" "cleaned us c v w1" "driver_error e"
      using one Err by auto
    moreover from this have "k < length (t1 @ t2)" "take k t1 = take k (t1 @ t2)" by simp_all
    ultimately show ?thesis using r one by metis
  next
    case (Ok v)
    then have acc1: "accepted w1 = accepted w @ t1" using one by auto
    obtain r2 w2 where m2: "or_rollback m2 c w1 = (r2, w2)" by fastforce
    note two = rollback_outcome [OF assms(2,3) m2]
    have rest: "seq (or_rollback m2 c) (\<lambda>_. ret x) w1 = (r, w')"
      using run m1 Ok by (simp add: two_batches_def act_simps)
    show ?thesis
    proof (cases r2)
      case (Err e)
      then have r: "r = Err e" "w' = w2" using rest m2 by (simp_all add: act_simps)
      obtain k v where v: "k < length t2" "accepted v = accepted w1 @ take k t2" "cleaned us c v w2" "driver_error e"
        using two Err by auto
      then have "accepted v = accepted w @ take (length t1 + k) (t1 @ t2)" "length t1 + k < length (t1 @ t2)"
        using acc1 by simp_all
      then show ?thesis using r one two v(3,4) by metis
    qed (use two one rest m2 acc1 in \<open>auto simp: act_simps\<close>)
  qed (use one in simp)
qed

text \<open>A guarded operation that draws a password, then runs two batches with a clean-up.\<close>

definition guarded_batches ::
    "('d, unit) action \<Rightarrow> (string \<Rightarrow> ('d, unit) action) \<Rightarrow> (string \<Rightarrow> ('d, unit) action) \<Rightarrow>
     ('d, unit) action \<Rightarrow> (string \<Rightarrow> 'a) \<Rightarrow> ('d, 'a) action" where
  "guarded_batches g m1 m2 c result =
     seq g (\<lambda>_. seq draw_password (\<lambda>pw. two_batches (m1 pw) (m2 pw) c (result pw)))"

lemma guarded_batches_outcome:
  assumes "guards g" and "\<And>pw. clean_text pw \<Longrightarrow> runs (t1 pw) (m1 pw)"
    and "\<And>pw. clean_text pw \<Longrightarrow> runs (t2 pw) (m2 pw)" and "runs us c"
    and run: "guarded_batches g m1 m2 c result w = (r, w')"
  shows "w_store w' = w_store w \<and>
    ((\<exists>pw. r = Ok (result pw) \<and> randomPassword (w_pool w) = Some (pw, w_pool w')
         \<and> accepted w' = accepted w @ t1 pw @ t2 pw)
     \<or> (\<exists>e. r = Err e \<and> guard_error e \<and> accepted w' = accepted w \<and> w_pool w' = w_pool w)
     \<or> (\<exists>pw k e v. k < length (t1 pw @ t2 pw) \<and> r = Err e \<and> driver_error e
         \<and> randomPassword (w_pool w) = Some (pw, w_pool w')
         \<and> accepted v = accepted w @ take k (t1 pw @ t2 pw) \<and> cleaned us c v w')
     \<or> (r = Panic \<and> randomPassword (w_pool w) = None \<and> accepted w' = accepted w))"
proof -
  obtain r0 w0 where g: "g w = (r0, w0)" by fastforce
  note zero = guardsD [OF assms(1) g]
  obtain rp wp where d: "draw_password w0 = (rp, wp)" by fastforce
  note drawn = draw_password_cases [OF d]
  show ?thesis
  proof (cases "r0 = Ok ()")
    case False
    then have "r = Err (case r0 of Err e \<Rightarrow> e)" "w' = w0" "\<exists>e. r0 = Err e"
      using run g zero by (auto simp: guarded_batches_def act_simps)
    then show ?thesis using zero False by auto
  next
    case True
    show ?thesis
    proof (cases rp)
      case Panic
      then have "r = Panic" "w' = wp" using run g True d by (simp_all add: guarded_batches_def act_simps)
      then show ?thesis using drawn zero Panic by auto
    next
      case (Ok pw)
      have clean: "clean_text pw" and pool: "randomPassword (w_pool w) = Some (pw, w_pool wp)"
        using drawn Ok zero by auto
      have frame: "accepted wp = accepted w" "w_store wp = w_store w" using drawn zero by auto
      have "two_batches (m1 pw) (m2 pw) c (result pw) wp = (r, w')"
        using run g True d Ok by (simp add: guarded_batches_def act_simps)
      from two_batches_outcome [OF assms(2) [OF clean] assms(3) [OF clean] assms(4) this]
      show ?thesis using pool unfolding frame by metis
    qed (use drawn in simp)
  qed
qed

lemma batches_nonempty [simp]:
  "provision_sql v \<noteq> []" "provision_tenant_sql v \<noteq> []" "bind_sql v \<noteq> []" "bind_tenant_sql v \<noteq> []"
  "unbind_sql v \<noteq> []" "unbind_tenant_sql v \<noteq> []" "deprovision_sql v \<noteq> []" "update_sql v \<noteq> []"
  by (simp_all add: intended_defs)

locale admin_contract = db_contract "a_db a" target for a :: "'d admin" and target :: "string \<Rightarrow> string"
begin

lemma exec_runs:
  assumes "ss \<noteq> []"
  shows "runs (map (Pair (target d)) ss) (db_Exec (a_db a) d ss)"
  unfolding runs_def
proof (intro allI impI)
  fix w r w' assume "db_Exec (a_db a) d ss w = (r, w')"
  from exec_law [OF this] show "w_pool w' = w_pool w \<and> w_store w' = w_store w \<and>
     ((is_ok r \<and> accepted w' = accepted w @ map (Pair (target d)) ss)
      \<or> (\<exists>k e. k < length (map (Pair (target d)) ss) \<and> r = Err e \<and> driver_error e
           \<and> accepted w' = accepted w @ take k (map (Pair (target d)) ss)))"
    using assms by (auto simp: take_map)
qed

lemma deprovision_runs:
  "admin_ready a \<Longrightarrow> clean_names nms \<Longrightarrow> runs (deprovision_trace target a nms) (Admin_Deprovision a nms)"
  by (simp add: Deprovision_batch deprovision_trace_def exec_runs)

lemma update_runs:
  "admin_ready a \<Longrightarrow> clean_names nms \<Longrightarrow> clean_spec spec \<Longrightarrow> runs (update_trace target a nms spec) (Admin_Update a nms spec)"
  by (simp add: Update_batch update_trace_def exec_runs)

lemma unbind_runs:
  "admin_ready a \<Longrightarrow> clean_names nms \<Longrightarrow> list_all name_char user \<Longrightarrow>
   runs (unbind_trace target a nms user) (Admin_Unbind a nms user)"
  by (simp add: Unbind_batch unbind_trace_def runs_seq exec_runs)

lemma ensureAbsent_guards: "guards (ensureAbsent a t c n)"
  unfolding guards_def
proof (intro allI impI)
  fix w r w' assume *: "ensureAbsent a t c n w = (r, w')"
  obtain x w1 where ex: "db_Exists (a_db a) t c n w = (x, w1)" by fastforce
  show "w_pool w' = w_pool w \<and> w_store w' = w_store w \<and> accepted w' = accepted w
    \<and> (r = Ok () \<or> (\<exists>e. r = Err e \<and> guard_error e))"
    using exists_law [OF ex] * ex
    by (cases x) (auto simp: ensureAbsent_def seq_def guard_error_def split: if_splits)
qed

text \<open>
  Provisioning either sends its whole trace, or stops before the first statement (an
  existing object, a failed lookup), or stops inside the trace and then sends a prefix
  of the deprovisioning one; it panics only for want of entropy. Binding is alike.
\<close>

lemma provision_outcome:
  assumes ready: "admin_ready a" and nms: "clean_names nms" and spec: "clean_spec spec" and run: "Admin_Provision a nms spec w = (r, w')"
  shows "w_store w' = w_store w \<and>
    ((\<exists>pw. r = Ok () \<and> randomPassword (w_pool w) = Some (pw, w_pool w')
         \<and> accepted w' = accepted w @ provision_trace target a nms spec pw)
     \<or> (\<exists>e. r = Err e \<and> guard_error e \<and> accepted w' = accepted w \<and> w_pool w' = w_pool w)
     \<or> (\<exists>pw k e v. k < length (provision_trace target a nms spec pw) \<and> r = Err e \<and> driver_error e
         \<and> randomPassword (w_pool w) = Some (pw, w_pool w')
         \<and> accepted v = accepted w @ take k (provision_trace target a nms spec pw)
         \<and> cleaned (deprovision_trace target a nms) (Admin_Deprovision a nms) v w')
     \<or> (r = Panic \<and> randomPassword (w_pool w) = None \<and> accepted w' = accepted w))"
proof -
  let ?g = "seq (ensureAbsent a ''pg_database'' ''datname'' (n_Database nms)) (\<lambda>_.
     seq (ensureAbsent a ''pg_roles'' ''rolname'' (n_GroupRole nms)) (\<lambda>_.
     ensureAbsent a ''pg_tablespace'' ''spcname'' (n_Tablespace nms)))"
  let ?m1 = "\<lambda>pw. execTemplate a ''opengauss/admin-db/provision.sql'' (DBAdminName (a_cfg a))
     (provision_vars a nms spec pw)"
  let ?m2 = "\<lambda>pw. execTemplate a ''opengauss/tenant-db/provision.sql'' (n_Database nms)
     (provision_vars a nms spec pw)"
  have "Admin_Provision a nms spec = guarded_batches ?g ?m1 ?m2 (Admin_Deprovision a nms) (\<lambda>_. ())"
    by (simp add: Admin_Provision_def guarded_batches_def two_batches_def seq_assoc seq_ret
        provision_vars_def Let_def)
  note eq = run [unfolded this]
  have g: "guards ?g" by (intro guards_seq ensureAbsent_guards)
  show ?thesis
    unfolding provision_trace_def
    by (rule guarded_batches_outcome [OF g _ _ deprovision_runs [OF ready nms] eq])
       (simp_all add: nms spec provision_batches [OF ready] exec_runs)
qed

lemma bind_outcome:
  assumes ready: "admin_ready a" and nms: "clean_names nms" and user: "list_all name_char user" and run: "Admin_Bind a nms user w = (r, w')"
  shows "w_store w' = w_store w \<and>
    ((\<exists>pw. r = Ok pw \<and> randomPassword (w_pool w) = Some (pw, w_pool w')
         \<and> accepted w' = accepted w @ bind_trace target a nms user pw)
     \<or> (\<exists>e. r = Err e \<and> guard_error e \<and> accepted w' = accepted w \<and> w_pool w' = w_pool w)
     \<or> (\<exists>pw k e v. k < length (bind_trace target a nms user pw) \<and> r = Err e \<and> driver_error e
         \<and> randomPassword (w_pool w) = Some (pw, w_pool w')
         \<and> accepted v = accepted w @ take k (bind_trace target a nms user pw)
         \<and> cleaned (unbind_trace target a nms user) (Admin_Unbind a nms user) v w')
     \<or> (r = Panic \<and> randomPassword (w_pool w) = None \<and> accepted w' = accepted w))"
proof -
  let ?g = "ensureAbsent a ''pg_roles'' ''rolname'' user"
  let ?m1 = "\<lambda>pw. execTemplate a ''opengauss/admin-db/bind.sql'' (DBAdminName (a_cfg a)) (bind_vars a nms user pw)"
  let ?m2 = "\<lambda>pw. execTemplate a ''opengauss/tenant-db/bind.sql'' (n_Database nms) (bind_vars a nms user pw)"
  have "Admin_Bind a nms user = guarded_batches ?g ?m1 ?m2 (Admin_Unbind a nms user) (\<lambda>pw. pw)"
    by (simp add: Admin_Bind_def guarded_batches_def two_batches_def bind_vars_def Let_def)
  note eq = run [unfolded this]
  show ?thesis
    unfolding bind_trace_def
    by (rule guarded_batches_outcome [OF ensureAbsent_guards _ _ unbind_runs [OF ready nms user] eq])
       (simp_all add: nms user bind_batches [OF ready] exec_runs)
qed

end

section \<open>On the driver\<close>

definition NewAdmin :: "config \<Rightarrow> template_env \<Rightarrow> 'd db \<Rightarrow> 'd admin" where
  "NewAdmin cfg env db = \<lparr>a_cfg = cfg, a_env = env, a_db = db\<rparr>"

lemma NewAdmin_simps [simp]:
  "a_cfg (NewAdmin cfg env db) = cfg" "a_env (NewAdmin cfg env db) = env" "a_db (NewAdmin cfg env db) = db"
  by (simp_all add: NewAdmin_def)

interpretation gauss: admin_contract "NewAdmin cfg env (NewDB srv cfg)" "connURL cfg"
  by (simp add: admin_contract_def driver.db_contract_axioms)

section \<open>Sample servers\<close>

text \<open>Servers for the examples: one accepts everything, one refuses connections to all databases but one.\<close>

definition accepting :: server where
  "accepting = \<lparr>srv_connect = \<lambda>h u. None, srv_exec = \<lambda>h u s. None, srv_query = \<lambda>h u q. NoRows\<rparr>"

definition only_database :: "string \<Rightarrow> server" where
  "only_database url = accepting\<lparr>srv_connect := \<lambda>h u. if u = url then None else Some ''connection refused''\<rparr>"

lemma exec_loop_accepted:
  "srv_exec srv = (\<lambda>h u s. None) \<Longrightarrow> fst (exec_loop srv url i n ss w) = Ok ()"
  by (induction srv url i n ss w rule: exec_loop.induct) (simp_all add: Let_def)

lemma Exec_accepted:
  assumes "srv_exec srv = (\<lambda>h u s. None)" and "\<And>h. srv_connect srv h (connURL cfg d) = None"
  shows "\<exists>w'. Exec srv cfg d ss w = (Ok (), w') \<and> w_pool w' = w_pool w \<and> w_store w' = w_store w
           \<and> accepted w' = accepted w @ map (Pair (connURL cfg d)) ss"
proof -
  obtain r w' where run: "Exec srv cfg d ss w = (r, w')" by fastforce
  have "fst (Exec srv cfg d ss w) = Ok ()"
    using exec_loop_accepted [OF assms(1), of "connURL cfg d" 0 "length ss" ss
        "log_event (Connected (connURL cfg d)) w"] assms(2)
    by (auto simp: Exec_def with_conn_def Let_def split: prod.splits)
  then show ?thesis using Exec_outcome [OF run] run by (auto simp: batch_outcome_def)
qed

text \<open>The server finds no object of the name, whatever else has been exchanged since.\<close>

definition unseen :: "server \<Rightarrow> (string \<times> string) list \<Rightarrow> string \<Rightarrow> string \<Rightarrow> string \<Rightarrow> bool" where
  "unseen srv acc table column name \<longleftrightarrow> (\<forall>h url. concat (map accepted_event h) = acc \<longrightarrow>
     srv_query srv h url (catalog_query table column name) = NoRows)"

lemma ensureAbsent_accepted:
  assumes "unseen srv (accepted w) t c n" and "\<And>h. srv_connect srv h (connURL cfg []) = None"
  shows "\<exists>w'. ensureAbsent (NewAdmin cfg env (NewDB srv cfg)) t c n w = (Ok (), w') \<and> w_pool w' = w_pool w
           \<and> w_store w' = w_store w \<and> accepted w' = accepted w"
proof -
  have "srv_query srv (w_hist w @ [Connected (connURL cfg [])]) (connURL cfg []) (catalog_query t c n) = NoRows"
    using assms(1) by (simp add: unseen_def accepted_def)
  then show ?thesis
    using assms(2)
    by (simp add: ensureAbsent_def NewDB_def Exists_def Let_def with_conn_def query_row_def seq_def log_event_def
        accepted_def)
qed

lemma connURL_default: "connURL cfg (DBAdminName cfg) = connURL cfg []"
  by (simp add: connURL_def)

text \<open>
  With a server that accepts every statement and finds none of the names, and entropy,
  provisioning and binding succeed.
\<close>

definition obliging :: "server \<Rightarrow> bool" where
  "obliging srv \<longleftrightarrow> srv_connect srv = (\<lambda>h u. None) \<and> srv_exec srv = (\<lambda>h u s. None)"

definition unseen_names :: "server \<Rightarrow> (string \<times> string) list \<Rightarrow> names \<Rightarrow> bool" where
  "unseen_names srv acc nms \<longleftrightarrow> unseen srv acc ''pg_database'' ''datname'' (n_Database nms)
     \<and> unseen srv acc ''pg_roles'' ''rolname'' (n_GroupRole nms)
     \<and> unseen srv acc ''pg_tablespace'' ''spcname'' (n_Tablespace nms)"

lemma accepting_obliging: "obliging accepting" "unseen accepting acc t c n" "unseen_names accepting acc nms"
  by (simp_all add: obliging_def accepting_def unseen_def unseen_names_def)

definition succeeds :: "('d, 'a) action \<Rightarrow> bool" where
  "succeeds m \<longleftrightarrow> (\<forall>w. is_ok (fst (m w)))"

lemma succeedsD: "succeeds m \<Longrightarrow> \<exists>x w'. m w = (Ok x, w')"
  by (auto simp: succeeds_def is_ok_iff) (metis prod.collapse)

lemma succeeds_seq: "succeeds m \<Longrightarrow> (\<And>x. succeeds (f x)) \<Longrightarrow> succeeds (seq m f)"
  unfolding succeeds_def by (metis fst_conv is_ok_iff prod.collapse seq_Ok)

lemma succeeds_ret: "succeeds (ret x)"
  by (simp add: succeeds_def)

lemma succeeds_rollback: "succeeds m \<Longrightarrow> succeeds (or_rollback m c)"
  by (auto simp: succeeds_def or_rollback_def is_ok_iff split: prod.splits go.splits) (metis fst_conv go.distinct)+

lemma succeedsI: "(\<And>w. \<exists>x w'. m w = (Ok x, w')) \<Longrightarrow> succeeds m"
  unfolding succeeds_def by (metis fst_conv is_ok.simps(1))

lemma obliging_Exec:
  assumes "obliging srv"
  shows "succeeds (db_Exec (NewDB srv cfg) d ss)"
proof (rule succeedsI)
  fix w show "\<exists>x w'. db_Exec (NewDB srv cfg) d ss w = (Ok x, w')"
    using Exec_accepted [of srv cfg d ss w] assms by (auto simp: obliging_def NewDB_def)
qed

lemma draw_then:
  assumes "\<exists>w0. g w = (Ok (), w0)" and "guards g" and "randomPassword (w_pool w) = Some (pw, pool)" and "succeeds (f pw)"
  shows "\<exists>x w'. seq g (\<lambda>_. seq draw_password f) w = (Ok x, w')"
proof -
  obtain w0 where g: "g w = (Ok (), w0)" using assms(1) by blast
  then have "w_pool w0 = w_pool w" using guardsD [OF assms(2)] by blast
  then have "draw_password w0 = (Ok pw, w0\<lparr>w_pool := pool\<rparr>)" using assms(3) by (simp add: draw_password_def)
  then show ?thesis using g succeedsD [OF assms(4), of "w0\<lparr>w_pool := pool\<rparr>"] by (simp add: act_simps)
qed

lemma obliging_provision:
  assumes a: "a = NewAdmin cfg env (NewDB srv cfg)" and srv: "obliging srv" and absent: "unseen_names srv (accepted w) nms"
    and ready: "admin_ready a" and "clean_names nms" and "clean_spec spec" and pw: "randomPassword (w_pool w) = Some (pw, pool)"
  shows "\<exists>w'. Admin_Provision a nms spec w = (Ok (), w')"
proof -
  have clean: "clean_text pw" using randomPassword_cases [OF pw] clean_password by blast
  have "a_db a = NewDB srv cfg" by (simp add: a)
  then have body: "succeeds (or_rollback (execTemplate a rel d (provision_vars a nms spec pw)) c)"
    if "rel \<in> {''opengauss/admin-db/provision.sql'', ''opengauss/tenant-db/provision.sql''}" for rel d c
    using that provision_batches [OF ready assms(5,6) clean] obliging_Exec [OF srv, of cfg]
    by (intro succeeds_rollback) auto
  let ?g = "seq (ensureAbsent a ''pg_database'' ''datname'' (n_Database nms)) (\<lambda>_.
     seq (ensureAbsent a ''pg_roles'' ''rolname'' (n_GroupRole nms)) (\<lambda>_.
     ensureAbsent a ''pg_tablespace'' ''spcname'' (n_Tablespace nms)))"
  have connect: "srv_connect srv h (connURL cfg []) = None" for h using srv by (simp add: obliging_def)
  have free: "\<exists>v'. ensureAbsent a t c n v = (Ok (), v') \<and> accepted v' = accepted w"
    if "unseen srv (accepted w) t c n" "accepted v = accepted w" for t c n v
    using ensureAbsent_accepted [OF _ connect, of v t c n env] that unfolding a by auto
  obtain w1 where w1: "ensureAbsent a ''pg_database'' ''datname'' (n_Database nms) w = (Ok (), w1)" "accepted w1 = accepted w"
    using free absent unfolding unseen_names_def by blast
  obtain w2 where w2: "ensureAbsent a ''pg_roles'' ''rolname'' (n_GroupRole nms) w1 = (Ok (), w2)" "accepted w2 = accepted w"
    using free absent w1(2) unfolding unseen_names_def by blast
  obtain w3 where w3: "ensureAbsent a ''pg_tablespace'' ''spcname'' (n_Tablespace nms) w2 = (Ok (), w3)"
    using free absent w2(2) unfolding unseen_names_def by blast
  have g: "\<exists>w0. ?g w = (Ok (), w0)" "guards ?g" using w1 w2 w3 unfolding a
    by (simp_all add: act_simps guards_seq gauss.ensureAbsent_guards)
  show ?thesis
    using draw_then [OF g pw, of "\<lambda>password. seq (or_rollback (execTemplate a
        ''opengauss/admin-db/provision.sql'' (DBAdminName (a_cfg a)) (provision_vars a nms spec password))
        (Admin_Deprovision a nms)) (\<lambda>_. or_rollback (execTemplate a ''opengauss/tenant-db/provision.sql''
        (n_Database nms) (provision_vars a nms spec password)) (Admin_Deprovision a nms))"]
    by (simp add: Admin_Provision_def seq_assoc Let_def provision_vars_def [symmetric] succeeds_seq body)
qed

lemma obliging_bind:
  assumes a: "a = NewAdmin cfg env (NewDB srv cfg)" and srv: "obliging srv"
    and absent: "unseen srv (accepted w) ''pg_roles'' ''rolname'' user" and ready: "admin_ready a" and "clean_names nms"
    and "list_all name_char user" and pw: "randomPassword (w_pool w) = Some (pw, pool)"
  shows "\<exists>x w'. Admin_Bind a nms user w = (Ok x, w')"
proof -
  have clean: "clean_text pw" using randomPassword_cases [OF pw] clean_password by blast
  have "a_db a = NewDB srv cfg" by (simp add: a)
  then have body: "succeeds (or_rollback (execTemplate a rel d (bind_vars a nms user pw)) c)"
    if "rel \<in> {''opengauss/admin-db/bind.sql'', ''opengauss/tenant-db/bind.sql''}" for rel d c
    using that bind_batches [OF ready assms(5,6) clean] obliging_Exec [OF srv, of cfg]
    by (intro succeeds_rollback) auto
  have connect: "srv_connect srv h (connURL cfg []) = None" for h using srv by (simp add: obliging_def)
  have g: "\<exists>w0. ensureAbsent a ''pg_roles'' ''rolname'' user w = (Ok (), w0)" "guards (ensureAbsent a ''pg_roles'' ''rolname'' user)"
    using ensureAbsent_accepted [OF absent connect, of env] gauss.ensureAbsent_guards unfolding a by blast+
  show ?thesis
    using draw_then [OF g pw, of "\<lambda>password. seq (or_rollback (execTemplate a
        ''opengauss/admin-db/bind.sql'' (DBAdminName (a_cfg a)) (bind_vars a nms user password))
        (Admin_Unbind a nms user)) (\<lambda>_. seq (or_rollback (execTemplate a ''opengauss/tenant-db/bind.sql''
        (n_Database nms) (bind_vars a nms user password)) (Admin_Unbind a nms user)) (\<lambda>_. ret password))"]
    by (simp add: Admin_Bind_def Let_def bind_vars_def [symmetric] succeeds_seq succeeds_ret body)
qed

section \<open>Properties\<close>

text \<open>A check that finds the object stops an operation that starts with it.\<close>

lemma conflict_stops:
  assumes "a = NewAdmin cfg env (NewDB srv cfg)" and "Exists srv cfg t c n w = (Ok True, w1)"
  shows "seq (ensureAbsent a t c n) f w = (Err (AlreadyExists t n), w1)"
  using assms by (simp add: ensureAbsent_def NewDB_def seq_def)

lemma absent_goes_on:
  assumes "a = NewAdmin cfg env (NewDB srv cfg)" and "Exists srv cfg t c n w = (Ok False, w1)"
  shows "seq (ensureAbsent a t c n) f w = f () w1"
  using assms by (simp add: ensureAbsent_def NewDB_def seq_def)

text \<open>
  Claim C14. Provisioning a tenant, over any server: on success the server has accepted
  exactly the provisioning statements, on the admin database and then on the new one,
  with one fresh password; a name conflict or a failed lookup stops it before any
  statement and before any entropy is used; a failure inside the batch, after a proper prefix of it,
  returns the driver's error and has run the deprovisioning (the best-effort rollback) from
  there, all of its batch unless that fails too; it panics only when the entropy source fails, having
  sent nothing. The state database is never touched. A database, group role or tablespace the
  server already has is the conflict that is reported, in this order.
\<close>

theorem provision_all_or_rollback:
  assumes "a = NewAdmin cfg env (NewDB srv cfg)" and "admin_ready a" and "clean_names nms" and "clean_spec spec"
    and "Admin_Provision a nms spec w = (r, w')"
  shows "w_store w' = w_store w \<and>
    ((\<exists>pw. r = Ok () \<and> randomPassword (w_pool w) = Some (pw, w_pool w')
         \<and> accepted w' = accepted w @ provision_trace (connURL cfg) a nms spec pw)
     \<or> (\<exists>e. r = Err e \<and> guard_error e \<and> accepted w' = accepted w \<and> w_pool w' = w_pool w)
     \<or> (\<exists>pw k e v. k < length (provision_trace (connURL cfg) a nms spec pw) \<and> r = Err e \<and> driver_error e
         \<and> randomPassword (w_pool w) = Some (pw, w_pool w')
         \<and> accepted v = accepted w @ take k (provision_trace (connURL cfg) a nms spec pw)
         \<and> cleaned (deprovision_trace (connURL cfg) a nms) (Admin_Deprovision a nms) v w')
     \<or> (r = Panic \<and> randomPassword (w_pool w) = None \<and> accepted w' = accepted w))
   \<and> (\<forall>x1 w1. Exists srv cfg ''pg_database'' ''datname'' (n_Database nms) w = (Ok x1, w1) \<longrightarrow>
       (if x1 then r = Err (AlreadyExists ''pg_database'' (n_Database nms)) else
        \<forall>x2 w2. Exists srv cfg ''pg_roles'' ''rolname'' (n_GroupRole nms) w1 = (Ok x2, w2) \<longrightarrow>
          (if x2 then r = Err (AlreadyExists ''pg_roles'' (n_GroupRole nms)) else
           \<forall>w3. Exists srv cfg ''pg_tablespace'' ''spcname'' (n_Tablespace nms) w2 = (Ok True, w3) \<longrightarrow>
             r = Err (AlreadyExists ''pg_tablespace'' (n_Tablespace nms)))))"
proof (intro conjI)
  show "\<forall>x1 w1. Exists srv cfg ''pg_database'' ''datname'' (n_Database nms) w = (Ok x1, w1) \<longrightarrow>
       (if x1 then r = Err (AlreadyExists ''pg_database'' (n_Database nms)) else
        \<forall>x2 w2. Exists srv cfg ''pg_roles'' ''rolname'' (n_GroupRole nms) w1 = (Ok x2, w2) \<longrightarrow>
          (if x2 then r = Err (AlreadyExists ''pg_roles'' (n_GroupRole nms)) else
           \<forall>w3. Exists srv cfg ''pg_tablespace'' ''spcname'' (n_Tablespace nms) w2 = (Ok True, w3) \<longrightarrow>
             r = Err (AlreadyExists ''pg_tablespace'' (n_Tablespace nms))))"
    using assms(5) by (auto simp: Admin_Provision_def conflict_stops [OF assms(1)] absent_goes_on [OF assms(1)])
qed (use gauss.provision_outcome assms in blast)+

text \<open>
  Claim C15. Creating a binding user, over any server: on success the returned password is
  the one in the accepted CREATE USER statement and the whole batch was accepted; a
  conflict or failed lookup sends nothing; a failure inside the batch is followed by the
  unbinding, all of its batch unless that fails too; a panic means no entropy and nothing sent.
  A user the server already has is reported as the conflict.
\<close>

theorem bind_all_or_rollback:
  assumes "a = NewAdmin cfg env (NewDB srv cfg)" and "admin_ready a" and "clean_names nms"
    and "list_all name_char user" and "Admin_Bind a nms user w = (r, w')"
  shows "w_store w' = w_store w \<and>
    ((\<exists>pw. r = Ok pw \<and> randomPassword (w_pool w) = Some (pw, w_pool w')
         \<and> accepted w' = accepted w @ bind_trace (connURL cfg) a nms user pw)
     \<or> (\<exists>e. r = Err e \<and> guard_error e \<and> accepted w' = accepted w \<and> w_pool w' = w_pool w)
     \<or> (\<exists>pw k e v. k < length (bind_trace (connURL cfg) a nms user pw) \<and> r = Err e \<and> driver_error e
         \<and> randomPassword (w_pool w) = Some (pw, w_pool w')
         \<and> accepted v = accepted w @ take k (bind_trace (connURL cfg) a nms user pw)
         \<and> cleaned (unbind_trace (connURL cfg) a nms user) (Admin_Unbind a nms user) v w')
     \<or> (r = Panic \<and> randomPassword (w_pool w) = None \<and> accepted w' = accepted w))
   \<and> (\<forall>w1. Exists srv cfg ''pg_roles'' ''rolname'' user w = (Ok True, w1) \<longrightarrow> r = Err (AlreadyExists ''pg_roles'' user))"
proof (intro conjI)
  show "\<forall>w1. Exists srv cfg ''pg_roles'' ''rolname'' user w = (Ok True, w1) \<longrightarrow> r = Err (AlreadyExists ''pg_roles'' user)"
    using assms(5) by (auto simp: Admin_Bind_def conflict_stops [OF assms(1)])
qed (use gauss.bind_outcome assms in blast)+

text \<open>
  Unbinding, deprovisioning and updating are each one fixed batch: it is accepted as
  a whole, or the error of the driver is returned after a prefix of it, and neither the
  entropy nor the state database is used.
\<close>

lemma teardown_batches:
  assumes "a = NewAdmin cfg env (NewDB srv cfg)" and "admin_ready a" and "clean_names nms"
    and "list_all name_char user" and "clean_spec spec"
  shows "runs (unbind_trace (connURL cfg) a nms user) (Admin_Unbind a nms user)
    \<and> runs (deprovision_trace (connURL cfg) a nms) (Admin_Deprovision a nms)
    \<and> runs (update_trace (connURL cfg) a nms spec) (Admin_Update a nms spec)"
  unfolding assms(1)
  using gauss.unbind_runs gauss.deprovision_runs gauss.update_runs assms by auto

text \<open>
  Claim C32. The rollback of a failed binding is incomplete when the tenant database cannot
  be reached: the user has been created on the admin database, and the clean-up, which
  starts on the tenant database, stops there, so no DROP USER is sent. A retry finds the
  name taken.
\<close>

theorem bind_rollback_leaves_user:
  assumes "a = NewAdmin cfg env (NewDB (only_database (connURL cfg [])) cfg)" and "admin_ready a"
    and "clean_names nms" and "list_all name_char user" and "connURL cfg (n_Database nms) \<noteq> connURL cfg []"
    and "randomPassword (w_pool w) = Some (pw, pool)"
  shows "\<exists>w'. Admin_Bind a nms user w = (Err (External ''connection refused''), w')
     \<and> accepted w' = accepted w @ map (Pair (connURL cfg [])) (bind_sql (bind_vars a nms user pw))"
proof -
  let ?srv = "only_database (connURL cfg [])"
  have srv: "srv_exec ?srv = (\<lambda>h u s. None)" "srv_query ?srv = (\<lambda>h u s. NoRows)"
    "srv_connect ?srv h (connURL cfg []) = None" "srv_connect ?srv h (connURL cfg (DBAdminName cfg)) = None" for h
    by (simp_all add: only_database_def accepting_def connURL_default)
  have refused: "\<exists>v'. db_Exec (a_db a) (n_Database nms) ss v = (Err (External ''connection refused''), v')
      \<and> accepted v' = accepted v" for ss v
    using assms(5) by (simp add: assms(1) NewDB_def Exec_def Let_def with_conn_def only_database_def)
  obtain w1 where g: "ensureAbsent a ''pg_roles'' ''rolname'' user w = (Ok (), w1)" "w_pool w1 = w_pool w"
    "accepted w1 = accepted w"
    using ensureAbsent_accepted [OF _ srv(3), where w = w] srv(2) unfolding assms(1) unseen_def by (metis srv(2))
  define w2 where "w2 = w1\<lparr>w_pool := pool\<rparr>"
  have d: "draw_password w1 = (Ok pw, w2)" and acc2: "accepted w2 = accepted w"
    using g assms(6) by (simp_all add: draw_password_def w2_def accepted_def)
  have clean: "clean_text pw" using randomPassword_cases [OF assms(6)] clean_password by blast
  obtain w3 where b1: "db_Exec (a_db a) (DBAdminName cfg) (bind_sql (bind_vars a nms user pw)) w2 = (Ok (), w3)"
    and acc3: "accepted w3 = accepted w @ map (Pair (connURL cfg [])) (bind_sql (bind_vars a nms user pw))"
    using Exec_accepted [OF srv(1,4), of "bind_sql (bind_vars a nms user pw)" w2] acc2
    unfolding assms(1) NewDB_def connURL_default by auto
  obtain w4 where b2: "db_Exec (a_db a) (n_Database nms) (bind_tenant_sql (bind_vars a nms user pw)) w3
      = (Err (External ''connection refused''), w4)" "accepted w4 = accepted w3" using refused by blast
  obtain w5 where u: "Admin_Unbind a nms user w4 = (Err (External ''connection refused''), w5)"
    "accepted w5 = accepted w4"
    using refused [of "unbind_tenant_sql (user_vars a nms user)" w4]
    by (auto simp: Unbind_batch [OF assms(2-4)] act_simps)
  have cfg: "a_cfg a = cfg" by (simp add: assms(1))
  have "Admin_Bind a nms user w = (Err (External ''connection refused''), w5)"
    using g d b1 b2 u
    by (simp add: Admin_Bind_def act_simps bind_vars_def [symmetric] Let_def
        bind_batches [OF assms(2-4) clean] or_rollback_def cfg)
  then show ?thesis using acc3 b2 u by auto
qed

section \<open>The properties at concrete inputs\<close>

definition sample_names :: names where
  "sample_names = \<lparr>n_Database = ''gdb_a'', n_GroupRole = ''gdb_a_owner'', n_Tablespace = ''gdb_a_ts''\<rparr>"

definition sample_spec :: InstanceParams where
  "sample_spec = \<lparr>ip_Name = ''a'', ip_Compatibility = ''PG'', ip_Encoding = ''UTF8'',
     ip_MaxConnections = 20, ip_StorageGB = 5\<rparr>"

definition sample_world :: "string \<Rightarrow> unit world" where
  "sample_world pool = \<lparr>w_hist = [], w_pool = pool, w_store = ()\<rparr>"

abbreviation sample_admin :: "server \<Rightarrow> unit admin" where
  "sample_admin srv \<equiv> NewAdmin sample_cfg no_overrides (NewDB srv sample_cfg)"

lemma sample_ready: "admin_ready (NewAdmin sample_cfg no_overrides db)"
proof -
  have "clean_text ''admin''" "locationPrefixPattern ''broker''" by code_simp+
  then show ?thesis by (simp add: admin_ready_def sample_cfg_def)
qed

lemma sample_names_clean: "clean_names sample_names" "list_all name_char ''gdbu_b''"
proof -
  have "list_all name_char ''gdb_a''" "list_all name_char ''gdb_a_owner''" "list_all name_char ''gdb_a_ts''"
    by code_simp+
  then show "clean_names sample_names" by (simp add: clean_names_def sample_names_def)
  show "list_all name_char ''gdbu_b''" by code_simp
qed

lemma sample_spec_clean: "clean_spec sample_spec"
proof -
  have "clean_text ''UTF8''" "clean_text ''PG''" by code_simp+
  then show ?thesis by (simp add: clean_spec_def sample_spec_def)
qed

text \<open>Different databases have different connection URLs.\<close>

lemma connURL_inject:
  assumes "d \<noteq> []" "d' \<noteq> []" "hd d \<noteq> CHR ''/''" "hd d' \<noteq> CHR ''/''" "d \<noteq> ''*''" "d' \<noteq> ''*''"
    and "connURL cfg d = connURL cfg d'"
  shows "d = d'"
proof -
  have "url_escape Path d = url_escape Path d'"
    using assms url_escape_hd [of d] url_escape_hd [of d'] by (simp add: connURL_def url_string_def Let_def)
  then show ?thesis by (simp add: url_escape_inject)
qed

lemma sample_urls: "connURL sample_cfg (n_Database sample_names) \<noteq> connURL sample_cfg []"
  using connURL_inject [of "''gdb_a''" "''postgres''" sample_cfg] connURL_default [of sample_cfg]
  by (auto simp: sample_names_def sample_cfg_def)

lemma sample_password: "\<exists>pw pool. randomPassword sample_pool = Some (pw, pool)"
  using sample_pool_password by auto

theorem provision_all_or_rollback_witness:
  "\<exists>w' pw. Admin_Provision (sample_admin accepting) sample_names sample_spec (sample_world sample_pool) = (Ok (), w')
     \<and> accepted w' = provision_trace (connURL sample_cfg) (sample_admin accepting) sample_names sample_spec pw"
proof -
  have "randomPassword (w_pool (sample_world sample_pool)) = Some (''aA0!'' @ replicate 24 CHR ''a'', [])"
    by (simp add: sample_world_def sample_pool_password)
  from obliging_provision [OF refl accepting_obliging(1,3) sample_ready sample_names_clean(1) sample_spec_clean this]
  obtain w' where run: "Admin_Provision (sample_admin accepting) sample_names sample_spec (sample_world sample_pool)
      = (Ok (), w')" by blast
  have "accepted (sample_world sample_pool) = []" by (simp add: accepted_def sample_world_def)
  then show ?thesis
    using provision_all_or_rollback [OF refl sample_ready sample_names_clean(1) sample_spec_clean run] run by auto
qed

theorem bind_all_or_rollback_witness:
  "\<exists>w' pw. Admin_Bind (sample_admin accepting) sample_names ''gdbu_b'' (sample_world sample_pool) = (Ok pw, w')
     \<and> accepted w' = bind_trace (connURL sample_cfg) (sample_admin accepting) sample_names ''gdbu_b'' pw"
proof -
  have "randomPassword (w_pool (sample_world sample_pool)) = Some (''aA0!'' @ replicate 24 CHR ''a'', [])"
    by (simp add: sample_world_def sample_pool_password)
  from obliging_bind [OF refl accepting_obliging(1,2) sample_ready sample_names_clean this]
  obtain x w' where run: "Admin_Bind (sample_admin accepting) sample_names ''gdbu_b'' (sample_world sample_pool)
      = (Ok x, w')" by blast
  have "accepted (sample_world sample_pool) = []" by (simp add: accepted_def sample_world_def)
  then show ?thesis
    using bind_all_or_rollback [OF refl sample_ready sample_names_clean run] run by auto
qed

theorem bind_rollback_leaves_user_witness:
  "\<exists>w'. Admin_Bind (sample_admin (only_database (connURL sample_cfg []))) sample_names ''gdbu_b''
       (sample_world sample_pool) = (Err (External ''connection refused''), w')
     \<and> length (accepted w') = 2"
proof -
  have "randomPassword (w_pool (sample_world sample_pool)) = Some (''aA0!'' @ replicate 24 CHR ''a'', [])"
    by (simp add: sample_world_def sample_pool_password)
  from bind_rollback_leaves_user [OF refl sample_ready sample_names_clean sample_urls this]
  show ?thesis by (auto simp: bind_sql_def accepted_def sample_world_def)
qed

end
