(* ===== verification/Go_Base64.thy ===== *)
theory Go_Base64
  imports Go_Strings
begin

text \<open>
  \<open>encoding/base64\<close>, \<open>StdEncoding\<close>: the encoder, and the decoder with its treatment of
  line breaks (skipped), padding (required) and trailing bits (ignored).
\<close>

definition base64_alphabet :: string where
  "base64_alphabet = ''ABCDEFGHIJKLMNOPQRSTUVWXYZabcdefghijklmnopqrstuvwxyz0123456789+/''"

definition sextet_char :: "nat \<Rightarrow> char" where
  "sextet_char n = base64_alphabet ! n"

definition sextet_of :: "char \<Rightarrow> nat option" where
  "sextet_of c = (let n = length (takeWhile (\<lambda>d. d \<noteq> c) base64_alphabet)
                  in if n < 64 then Some n else None)"

fun base64_encode :: "string \<Rightarrow> string" where
  "base64_encode [] = []"
| "base64_encode [a] = (let n = of_char a in
     [sextet_char (n div 4), sextet_char (n mod 4 * 16), CHR ''='', CHR ''=''])"
| "base64_encode [a, b] = (let n = of_char a; m = of_char b in
     [sextet_char (n div 4), sextet_char (n mod 4 * 16 + m div 16), sextet_char (m mod 16 * 4), CHR ''=''])"
| "base64_encode (a # b # c # s) = (let n = of_char a; m = of_char b; k = of_char c in
     [sextet_char (n div 4), sextet_char (n mod 4 * 16 + m div 16), sextet_char (m mod 16 * 4 + k div 64),
      sextet_char (k mod 64)] @ base64_encode s)"

definition byte1 :: "nat \<Rightarrow> nat \<Rightarrow> char" where
  "byte1 x y = char_of (x * 4 + y div 16)"

definition byte2 :: "nat \<Rightarrow> nat \<Rightarrow> char" where
  "byte2 y z = char_of (y mod 16 * 16 + z div 4)"

definition byte3 :: "nat \<Rightarrow> nat \<Rightarrow> char" where
  "byte3 z w = char_of (z mod 4 * 64 + w)"

text \<open>Groups of four, the last one perhaps padded.\<close>

fun decode_groups :: "string \<Rightarrow> string option" where
  "decode_groups [] = Some []"
| "decode_groups (a # b # c # d # s) =
     (case (sextet_of a, sextet_of b) of
        (Some x, Some y) \<Rightarrow>
          (if c = CHR ''='' then (if d = CHR ''='' \<and> s = [] then Some [byte1 x y] else None)
           else case sextet_of c of
             None \<Rightarrow> None
           | Some z \<Rightarrow>
               (if d = CHR ''='' then (if s = [] then Some [byte1 x y, byte2 y z] else None)
                else case sextet_of d of
                  None \<Rightarrow> None
                | Some w \<Rightarrow> map_option ((@) [byte1 x y, byte2 y z, byte3 z w]) (decode_groups s)))
      | _ \<Rightarrow> None)"
| "decode_groups _ = None"

definition base64_decode :: "string \<Rightarrow> string option" where
  "base64_decode s = decode_groups (filter (\<lambda>c. c \<noteq> CHR 0x0A \<and> c \<noteq> CHR 0x0D) s)"

section \<open>Round trip\<close>

lemma alphabet_facts: "distinct base64_alphabet" "length base64_alphabet = 64"
    "CHR ''='' \<notin> set base64_alphabet" "CHR 0x0A \<notin> set base64_alphabet" "CHR 0x0D \<notin> set base64_alphabet"
  by (simp_all add: base64_alphabet_def)

lemma takeWhile_nth: "distinct xs \<Longrightarrow> n < length xs \<Longrightarrow> length (takeWhile (\<lambda>d. d \<noteq> xs ! n) xs) = n"
proof (induction xs arbitrary: n)
  case (Cons x xs)
  then show ?case by (cases n) auto
qed simp

lemma sextet_of_char [simp]: "n < 64 \<Longrightarrow> sextet_of (sextet_char n) = Some n"
  using takeWhile_nth [OF alphabet_facts(1), of n] alphabet_facts(2)
  by (simp add: sextet_of_def sextet_char_def Let_def)

lemma sextet_char_in: "n < 64 \<Longrightarrow> sextet_char n \<in> set base64_alphabet"
  using alphabet_facts(2) by (simp add: sextet_char_def)

lemma sextet_char_neq:
  "n < 64 \<Longrightarrow> sextet_char n \<noteq> CHR ''=''" "n < 64 \<Longrightarrow> sextet_char n \<noteq> CHR 0x0A"
  "n < 64 \<Longrightarrow> sextet_char n \<noteq> CHR 0x0D"
  using sextet_char_in alphabet_facts(3-5) by metis+

lemma of_char_less: "(of_char c :: nat) < 256"
  by simp

lemma sextet_bounds:
  "(of_char a :: nat) div 4 < 64" "(of_char a :: nat) mod 4 * 16 < 64"
  "(of_char a :: nat) mod 4 * 16 + of_char b div 16 < 64" "(of_char b :: nat) mod 16 * 4 < 64"
  "(of_char b :: nat) mod 16 * 4 + of_char c div 64 < 64" "(of_char c :: nat) mod 64 < 64"
  using of_char_less [of a] of_char_less [of b] of_char_less [of c] by linarith+

lemma digit_div: "y < b \<Longrightarrow> (x * b + y) div b = (x :: nat)"
  by simp

lemma digit_mod: "y < b \<Longrightarrow> (x * b + y) mod b = (y :: nat)"
  by simp

lemma bytes_back:
  "byte1 (of_char a div 4) (of_char a mod 4 * 16) = a"
  "byte1 (of_char a div 4) (of_char a mod 4 * 16 + of_char b div 16) = a"
  "byte2 (of_char a mod 4 * 16 + of_char b div 16) (of_char b mod 16 * 4) = b"
  "byte2 (of_char a mod 4 * 16 + of_char b div 16) (of_char b mod 16 * 4 + of_char c div 64) = b"
  "byte3 (of_char b mod 16 * 4 + of_char c div 64) (of_char c mod 64) = c"
proof -
  have hi: "(of_char b :: nat) div 16 < 16" "(of_char c :: nat) div 64 < 4"
    using of_char_less [of b] of_char_less [of c] by (simp_all add: less_mult_imp_div_less)
  show "byte1 (of_char a div 4) (of_char a mod 4 * 16) = a"
    "byte1 (of_char a div 4) (of_char a mod 4 * 16 + of_char b div 16) = a"
    unfolding byte1_def digit_div [OF hi(1)] by (simp_all only: nonzero_mult_div_cancel_right
        div_mult_mod_eq char_of_char zero_neq_numeral not_False_eq_True)
  show "byte2 (of_char a mod 4 * 16 + of_char b div 16) (of_char b mod 16 * 4) = b"
    "byte2 (of_char a mod 4 * 16 + of_char b div 16) (of_char b mod 16 * 4 + of_char c div 64) = b"
    unfolding byte2_def digit_mod [OF hi(1)] digit_div [OF hi(2)]
    by (simp_all only: nonzero_mult_div_cancel_right div_mult_mod_eq char_of_char zero_neq_numeral
        not_False_eq_True)
  show "byte3 (of_char b mod 16 * 4 + of_char c div 64) (of_char c mod 64) = c"
    unfolding byte3_def digit_mod [OF hi(2)] by (simp only: div_mult_mod_eq char_of_char)
qed

lemma decode_groups_encode: "decode_groups (base64_encode s) = Some s"
proof (induction s rule: base64_encode.induct)
  case (4 a b c s)
  then show ?case
    by (simp add: Let_def sextet_bounds bytes_back sextet_char_neq)
qed (simp_all add: Let_def sextet_bounds bytes_back sextet_char_neq)

lemma encode_chars: "set (base64_encode s) \<subseteq> set base64_alphabet \<union> {CHR ''=''}"
proof (induction s rule: base64_encode.induct)
  case (4 a b c s)
  then show ?case by (simp add: Let_def sextet_char_in sextet_bounds)
qed (simp_all add: Let_def sextet_char_in sextet_bounds)

lemma base64_round_trip [simp]: "base64_decode (base64_encode s) = Some s"
proof -
  have "c \<noteq> CHR 0x0A \<and> c \<noteq> CHR 0x0D" if "c \<in> set base64_alphabet \<union> {CHR ''=''}" for c
    using that alphabet_facts(4,5) by auto
  then have "filter (\<lambda>c. c \<noteq> CHR 0x0A \<and> c \<noteq> CHR 0x0D) (base64_encode s) = base64_encode s"
    using encode_chars [of s] by (intro filter_True) (meson subset_iff)
  then show ?thesis by (simp only: base64_decode_def decode_groups_encode)
qed

end
