(* ===== verification/Go_Aes_Gcm.thy ===== *)
theory Go_Aes_Gcm
  imports Go_Sha256
begin

unbundle bit_operations_syntax

text \<open>
  \<open>crypto/aes\<close> with a 32-byte key and \<open>crypto/cipher\<close>'s GCM with a 12-byte nonce and no
  additional data (\<open>Seal\<close> and \<open>Open\<close>), on lists of bytes below 256: FIPS 197 and
  NIST SP 800-38D. The S-box is computed from the inverse in the field, the tag from the
  field multiplication of GHASH.
\<close>

section \<open>AES-256\<close>

definition xtime :: "nat \<Rightarrow> nat" where
  "xtime b = (if 128 \<le> b then (2 * b - 256) XOR 27 else 2 * b)"

fun gmul :: "nat \<Rightarrow> nat \<Rightarrow> nat \<Rightarrow> nat" where
  "gmul 0 a b = 0"
| "gmul (Suc n) a b = (if odd a then b else 0) XOR gmul n (a div 2) (xtime b)"

definition gf_mul :: "nat \<Rightarrow> nat \<Rightarrow> nat" where
  "gf_mul a b = gmul 8 a b"

text \<open>The inverse is the 254th power: seven times \<open>p \<mapsto> p\<^sup>2 a\<close> gives 127, squared.\<close>

definition gf_inv :: "nat \<Rightarrow> nat" where
  "gf_inv a = (let p = ((\<lambda>p. gf_mul (gf_mul p p) a) ^^ 7) 1 in gf_mul p p)"

definition rotl8 :: "nat \<Rightarrow> nat \<Rightarrow> nat" where
  "rotl8 k b = b * 2 ^ k mod 256 + b * 2 ^ k div 256"

definition sbox :: "nat \<Rightarrow> nat" where
  "sbox a = (let b = gf_inv a in b XOR rotl8 1 b XOR rotl8 2 b XOR rotl8 3 b XOR rotl8 4 b XOR 99)"

definition xor_bytes :: "nat list \<Rightarrow> nat list \<Rightarrow> nat list" where
  "xor_bytes xs ys = map2 (\<lambda>x y. (x XOR y) mod 256) xs ys"

definition next_word :: "nat \<Rightarrow> nat list list \<Rightarrow> nat list" where
  "next_word i ws = (let t = ws ! (i - 1);
       u = (if i mod 8 = 0 then xor_bytes (map sbox (rotate1 t)) [(xtime ^^ (i div 8 - 1)) 1, 0, 0, 0]
            else if i mod 8 = 4 then map sbox t
            else t)
     in xor_bytes (ws ! (i - 8)) u)"

definition key_words :: "nat list \<Rightarrow> nat list list" where
  "key_words key = foldl (\<lambda>ws i. ws @ [next_word i ws]) (chunks 4 key) [8..<60]"

definition round_keys :: "nat list \<Rightarrow> nat list list" where
  "round_keys key = chunks 16 (concat (key_words key))"

definition shift_rows :: "nat list \<Rightarrow> nat list" where
  "shift_rows s = map (\<lambda>i. s ! ((i + 4 * (i mod 4)) mod 16)) [0..<16]"

definition mix_column :: "nat list \<Rightarrow> nat list" where
  "mix_column c = map (\<lambda>i. xtime (c ! i) XOR xtime (c ! ((i + 1) mod 4)) XOR c ! ((i + 1) mod 4)
     XOR c ! ((i + 2) mod 4) XOR c ! ((i + 3) mod 4)) [0..<4]"

definition mix_columns :: "nat list \<Rightarrow> nat list" where
  "mix_columns s = concat (map mix_column (chunks 4 s))"

definition aes_encrypt :: "nat list \<Rightarrow> nat list \<Rightarrow> nat list" where
  "aes_encrypt key block = (let ks = round_keys key;
       s = foldl (\<lambda>s k. xor_bytes (mix_columns (shift_rows (map sbox s))) k)
             (xor_bytes block (ks ! 0)) (take 13 (drop 1 ks))
     in xor_bytes (shift_rows (map sbox s)) (ks ! 14))"

section \<open>GCM\<close>

definition be_nat :: "nat list \<Rightarrow> nat" where
  "be_nat bs = foldl (\<lambda>n b. 256 * n + b) 0 bs"

fun ghash_mul :: "nat \<Rightarrow> nat \<Rightarrow> nat \<Rightarrow> nat \<Rightarrow> nat" where
  "ghash_mul 0 x z v = z"
| "ghash_mul (Suc n) x z v =
     ghash_mul n x (if bit x n then z XOR v else z)
       (if odd v then (v div 2) XOR (225 * 2 ^ 120) else v div 2)"

definition zero_pad :: "nat list \<Rightarrow> nat list" where
  "zero_pad c = c @ replicate ((16 - length c mod 16) mod 16) 0"

definition ghash :: "nat \<Rightarrow> nat list \<Rightarrow> nat" where
  "ghash h bs = foldl (\<lambda>y block. ghash_mul 128 (y XOR be_nat block) 0 h) 0 (chunks 16 bs)"

text \<open>The key stream of counter blocks 2, 3, \<dots> (block 1 masks the tag).\<close>

definition counter_block :: "nat list \<Rightarrow> nat \<Rightarrow> nat list" where
  "counter_block nonce i = nonce @ be_bytes 4 (i mod 2 ^ 32)"

definition keystream :: "nat list \<Rightarrow> nat list \<Rightarrow> nat \<Rightarrow> nat list" where
  "keystream key nonce n =
     take n (concat (map (\<lambda>i. aes_encrypt key (counter_block nonce (i + 2))) [0..<(n + 15) div 16]))"

definition gcm_tag :: "nat list \<Rightarrow> nat list \<Rightarrow> nat list \<Rightarrow> nat list" where
  "gcm_tag key nonce c = (let h = be_nat (aes_encrypt key (replicate 16 0));
       s = ghash h (zero_pad c @ be_bytes 8 0 @ be_bytes 8 (8 * length c))
     in xor_bytes (aes_encrypt key (counter_block nonce 1)) (be_bytes 16 s))"

definition gcm_seal :: "nat list \<Rightarrow> nat list \<Rightarrow> nat list \<Rightarrow> nat list" where
  "gcm_seal key nonce p =
     (let c = xor_bytes p (keystream key nonce (length p)) in c @ gcm_tag key nonce c)"

definition gcm_open :: "nat list \<Rightarrow> nat list \<Rightarrow> nat list \<Rightarrow> nat list option" where
  "gcm_open key nonce sealed =
     (if length sealed < 16 then None
      else let c = take (length sealed - 16) sealed; tag = drop (length sealed - 16) sealed
           in if gcm_tag key nonce c = tag then Some (xor_bytes c (keystream key nonce (length c))) else None)"

section \<open>Lengths and bytes\<close>

lemma length_xor_bytes [simp]: "length (xor_bytes xs ys) = min (length xs) (length ys)"
  by (simp add: xor_bytes_def)

lemma length_be_bytes [simp]: "length (be_bytes k n) = k"
  by (simp add: be_bytes_def)

lemma length_shift_rows [simp]: "length (shift_rows s) = 16"
  by (simp add: shift_rows_def)

lemma chunks_exact:
  "0 < n \<Longrightarrow> length xs = k * n \<Longrightarrow> length (chunks n xs) = k \<and> (\<forall>c\<in>set (chunks n xs). length c = n)"
proof (induction k arbitrary: xs)
  case 0
  then show ?case by (simp add: chunks.simps)
next
  case (Suc k)
  then have "length (drop n xs) = k * n" "xs \<noteq> []" "length (take n xs) = n" by auto
  moreover from this have "chunks n xs = take n xs # chunks n (drop n xs)"
    using Suc.prems(1) by (subst chunks.simps) simp
  moreover have "length (chunks n (drop n xs)) = k \<and> (\<forall>c\<in>set (chunks n (drop n xs)). length c = n)"
    by (rule Suc.IH) (use Suc.prems in simp_all)
  ultimately show ?case by simp
qed

lemma key_words_upto:
  assumes "length ws0 = 8" and "\<forall>w\<in>set ws0. length w = 4" and "8 \<le> n"
  shows "length (foldl (\<lambda>ws i. ws @ [next_word i ws]) ws0 [8..<n]) = n
    \<and> (\<forall>w\<in>set (foldl (\<lambda>ws i. ws @ [next_word i ws]) ws0 [8..<n]). length w = 4)"
  using assms(3)
proof (induction n rule: nat_induct_at_least)
  case base
  then show ?case using assms by simp
next
  case (Suc n)
  define ws where "ws = foldl (\<lambda>ws i. ws @ [next_word i ws]) ws0 [8..<n]"
  have ws: "length ws = n" "\<forall>w\<in>set ws. length w = 4" using Suc.IH by (simp_all add: ws_def)
  have "length (next_word n ws) = 4" using ws Suc.hyps by (auto simp: next_word_def Let_def)
  then show ?case using ws Suc.hyps by (simp add: ws_def [symmetric])
qed

lemma key_words_shape:
  assumes "length key = 32"
  shows "length (key_words key) = 60 \<and> (\<forall>w\<in>set (key_words key). length w = 4)"
  unfolding key_words_def
  by (rule key_words_upto) (use chunks_exact [of 4 key 8] assms in simp_all)

lemma length_concat_const: "\<forall>c\<in>set xss. length c = n \<Longrightarrow> length (concat xss) = length xss * n"
  by (induction xss) auto

lemma length_aes_encrypt:
  assumes "length key = 32"
  shows "length (aes_encrypt key block) = 16"
proof -
  have "length (concat (key_words key)) = 15 * 16"
    using key_words_shape [OF assms] length_concat_const [of "key_words key" 4] by simp
  then have ks: "length (round_keys key) = 15" "\<forall>k\<in>set (round_keys key). length k = 16"
    using chunks_exact [of 16 "concat (key_words key)" 15] by (simp_all add: round_keys_def)
  then have "length (round_keys key ! 14) = 16" by simp
  then show ?thesis by (simp add: aes_encrypt_def Let_def)
qed

lemma length_keystream:
  assumes "length key = 32"
  shows "length (keystream key nonce n) = n"
proof -
  have "length (concat (map (\<lambda>i. aes_encrypt key (counter_block nonce (i + 2))) [0..<(n + 15) div 16]))
      = (n + 15) div 16 * 16"
    by (subst length_concat_const [of _ 16]) (auto simp: length_aes_encrypt [OF assms])
  moreover have "n \<le> (n + 15) div 16 * 16" by linarith
  ultimately show ?thesis unfolding keystream_def length_take by linarith
qed

lemma length_gcm_tag: "length key = 32 \<Longrightarrow> length (gcm_tag key nonce c) = 16"
  by (simp add: gcm_tag_def Let_def length_aes_encrypt)

lemma xor_bytes_bytes: "b \<in> set (xor_bytes xs ys) \<Longrightarrow> b < 256"
  by (auto simp: xor_bytes_def)

lemma xor_byte_twice: "(x :: nat) < 256 \<Longrightarrow> ((x XOR k) mod 256 XOR k) mod 256 = x"
proof -
  assume "x < 256"
  have "take_bit 8 (take_bit 8 (x XOR k) XOR k) = take_bit 8 x"
    by (simp add: xor.assoc)
  then show ?thesis using \<open>x < 256\<close> by (simp add: take_bit_eq_mod)
qed

lemma xor_bytes_twice:
  "length xs \<le> length ks \<Longrightarrow> \<forall>b\<in>set xs. b < 256 \<Longrightarrow> xor_bytes (xor_bytes xs ks) ks = xs"
proof (induction xs ks rule: list_induct2')
  case (4 x xs k ks)
  then show ?case using xor_byte_twice [of x k] by (simp add: xor_bytes_def)
qed (simp_all add: xor_bytes_def)

section \<open>Sealing and opening\<close>

lemma gcm_seal_bytes: "b \<in> set (gcm_seal key nonce p) \<Longrightarrow> b < 256"
  by (auto simp: gcm_seal_def gcm_tag_def Let_def dest: xor_bytes_bytes)

lemma gcm_open_seal:
  assumes "length key = 32" and "\<forall>b\<in>set p. b < 256"
  shows "gcm_open key nonce (gcm_seal key nonce p) = Some p"
  by (simp add: gcm_open_def gcm_seal_def Let_def length_gcm_tag [OF assms(1)] length_keystream [OF assms(1)]
      xor_bytes_twice assms(2))

lemma length_gcm_seal: "length key = 32 \<Longrightarrow> length (gcm_seal key nonce p) = length p + 16"
  by (simp add: gcm_seal_def Let_def length_gcm_tag length_keystream)

text \<open>Only what \<open>gcm_seal\<close> makes is opened.\<close>

lemma gcm_open_only_sealed:
  assumes "length key = 32" and "\<forall>b\<in>set s. b < 256" and "gcm_open key nonce s = Some p"
  shows "s = gcm_seal key nonce p"
proof -
  define c where "c = take (length s - 16) s"
  have "16 \<le> length s" and tag: "gcm_tag key nonce c = drop (length s - 16) s"
    and p: "p = xor_bytes c (keystream key nonce (length c))"
    using assms(3) by (auto simp: gcm_open_def Let_def c_def split: if_splits)
  have "\<forall>b\<in>set c. b < 256" using assms(2) by (auto simp: c_def dest: in_set_takeD)
  moreover have "length p = length c" by (simp add: p length_keystream [OF assms(1)])
  ultimately have "xor_bytes p (keystream key nonce (length p)) = c"
    by (simp add: p xor_bytes_twice length_keystream [OF assms(1)])
  then show ?thesis by (simp add: gcm_seal_def tag Let_def) (simp add: c_def)
qed

end
