(* ===== verification/Encrypt.thy ===== *)
theory Encrypt
  imports Driver Go_Base64 Go_Aes_Gcm
begin

text \<open>
  \<open>encrypt.go\<close>: credentials at rest. The interface \<open>Encryptor\<close> has two implementations,
  \<open>NoopEncryptor\<close> and \<open>GCMEncryptor\<close> with its 32-byte key; they are the constructors of one
  datatype and the two methods functions on it. A nonce is drawn from the entropy of the
  world, whose exhaustion is the error of \<open>io.ReadFull\<close>.
\<close>

section \<open>The encryptors\<close>

text \<open>The array type \<open>[32]byte\<close> of a key, and \<open>copy\<close> into a zeroed one.\<close>

typedef key32 = "{s :: string. length s = 32}"
  morphisms key_bytes Key32
  by (rule exI [of _ "replicate 32 (CHR 0x00)"]) simp

definition copy_key :: "string \<Rightarrow> key32" where
  "copy_key key = Key32 (take 32 (key @ replicate 32 (CHR 0x00)))"

datatype encryptor = NoopEncryptor | GCMEncryptor key32

definition to_bytes :: "string \<Rightarrow> nat list" where
  "to_bytes s = map of_char s"

definition of_bytes :: "nat list \<Rightarrow> string" where
  "of_bytes bs = map char_of bs"

definition nonce_size :: nat where
  "nonce_size = 12"

definition seal :: "string \<Rightarrow> string \<Rightarrow> string \<Rightarrow> string" where
  "seal key nonce plaintext = of_bytes (gcm_seal (to_bytes key) (to_bytes nonce) (to_bytes plaintext))"

fun Encrypt :: "encryptor \<Rightarrow> string \<Rightarrow> ('d, string) action" where
  "Encrypt NoopEncryptor p w = (Ok p, w)"
| "Encrypt (GCMEncryptor key) p w =
     (if length (w_pool w) < nonce_size then (Err (External ''cannot read the entropy source''), w)
      else let nonce = take nonce_size (w_pool w)
           in (Ok (nonce @ seal (key_bytes key) nonce p), w\<lparr>w_pool := drop nonce_size (w_pool w)\<rparr>))"

fun Decrypt :: "encryptor \<Rightarrow> string \<Rightarrow> ext + string" where
  "Decrypt NoopEncryptor c = Inr c"
| "Decrypt (GCMEncryptor key) c =
     (if length c < nonce_size then Inl ''ciphertext too short''
      else case gcm_open (to_bytes (key_bytes key)) (to_bytes (take nonce_size c)) (to_bytes (drop nonce_size c)) of
        None \<Rightarrow> Inl ''cipher: message authentication failed''
      | Some p \<Rightarrow> Inr (of_bytes p))"

section \<open>Keys\<close>

datatype key_err = KeyNotBase64 string | KeyBadLength string nat

definition parseKey :: "string \<Rightarrow> string \<Rightarrow> (key_err, key32) go" where
  "parseKey keyB64 envName =
     (case base64_decode keyB64 of
        None \<Rightarrow> Err (KeyNotBase64 envName)
      | Some key \<Rightarrow> if length key \<noteq> 32 then Err (KeyBadLength envName (length key)) else Ok (copy_key key))"

definition NewEncryptor :: "string \<Rightarrow> (key_err, encryptor) go" where
  "NewEncryptor keyB64 =
     (if keyB64 = [] then Ok NoopEncryptor
      else bind_go (parseKey keyB64 ''STATE_ENCRYPTION_KEY'') (\<lambda>key. Ok (GCMEncryptor key)))"

definition NewPreviousKeyDecryptor :: "string \<Rightarrow> (key_err, encryptor) go" where
  "NewPreviousKeyDecryptor keyB64 =
     bind_go (parseKey keyB64 ''STATE_ENCRYPTION_KEY_PREVIOUS'') (\<lambda>key. Ok (GCMEncryptor key))"

section \<open>Round trip\<close>

lemma length_key_bytes [simp]: "length (key_bytes k) = 32"
  using key_bytes [of k] by simp

lemma key_bytes_copy [simp]: "length key = 32 \<Longrightarrow> key_bytes (copy_key key) = key"
  by (simp add: copy_key_def Key32_inverse)

lemma to_of_bytes: "\<forall>b\<in>set bs. b < 256 \<Longrightarrow> to_bytes (of_bytes bs) = bs"
  by (induction bs) (auto simp: to_bytes_def of_bytes_def)

lemma of_to_bytes [simp]: "of_bytes (to_bytes s) = s"
  by (simp add: to_bytes_def of_bytes_def comp_def)

lemma length_bytes [simp]: "length (to_bytes s) = length s" "length (of_bytes bs) = length bs"
  by (simp_all add: to_bytes_def of_bytes_def)

lemma to_bytes_bytes: "b \<in> set (to_bytes s) \<Longrightarrow> b < 256"
  by (auto simp: to_bytes_def)

lemma to_bytes_seal:
  "to_bytes (seal key nonce p) = gcm_seal (to_bytes key) (to_bytes nonce) (to_bytes p)"
  using gcm_seal_bytes by (simp add: seal_def to_of_bytes)

lemma open_seal:
  "length key = 32 \<Longrightarrow> gcm_open (to_bytes key) (to_bytes nonce) (to_bytes (seal key nonce p)) = Some (to_bytes p)"
  using to_bytes_bytes by (simp add: to_bytes_seal gcm_open_seal)

lemma Decrypt_Encrypt: "Encrypt e p w = (Ok c, w') \<Longrightarrow> Decrypt e c = Inr p"
  by (cases e) (auto simp: Let_def nonce_size_def open_seal split: if_splits)

lemma Encrypt_frame:
  "Encrypt e p w = (r, w') \<Longrightarrow> w_hist w' = w_hist w \<and> w_store w' = w_store w
     \<and> ((\<exists>c. r = Ok c) \<or> (\<exists>x. r = Err (External x)))"
  by (cases e) (auto simp: Let_def split: if_splits)

lemma gcm_open_bytes: "gcm_open key nonce s = Some q \<Longrightarrow> b \<in> set q \<Longrightarrow> b < 256"
  by (auto simp: gcm_open_def Let_def dest: xor_bytes_bytes split: if_splits)

lemma Decrypt_GCM_iff:
  "Decrypt (GCMEncryptor k) c = Inr p \<longleftrightarrow>
     (\<exists>nonce. length nonce = nonce_size \<and> c = nonce @ seal (key_bytes k) nonce p)"
proof
  assume d: "Decrypt (GCMEncryptor k) c = Inr p"
  define nonce where "nonce = take nonce_size c"
  have n: "length nonce = nonce_size" using d by (auto simp: nonce_def split: if_splits)
  obtain q where q: "gcm_open (to_bytes (key_bytes k)) (to_bytes nonce) (to_bytes (drop nonce_size c)) = Some q"
    and p: "p = of_bytes q"
    using d by (auto simp: nonce_def split: if_splits option.splits)
  have "to_bytes (drop nonce_size c) = gcm_seal (to_bytes (key_bytes k)) (to_bytes nonce) q"
    by (rule gcm_open_only_sealed [OF _ _ q]) (auto dest: to_bytes_bytes)
  then have "drop nonce_size c = of_bytes (gcm_seal (to_bytes (key_bytes k)) (to_bytes nonce) q)"
    by (metis of_to_bytes)
  moreover have "q = to_bytes p" unfolding p using gcm_open_bytes [OF q] by (simp add: to_of_bytes)
  ultimately have "drop nonce_size c = seal (key_bytes k) nonce p" by (simp add: seal_def)
  then have "c = nonce @ seal (key_bytes k) nonce p" by (metis append_take_drop_id nonce_def)
  with n show "\<exists>nonce. length nonce = nonce_size \<and> c = nonce @ seal (key_bytes k) nonce p" by blast
next
  assume "\<exists>nonce. length nonce = nonce_size \<and> c = nonce @ seal (key_bytes k) nonce p"
  then show "Decrypt (GCMEncryptor k) c = Inr p" by (auto simp: open_seal)
qed

section \<open>The contract of the interface\<close>

locale encryptor_contract =
  fixes enc :: "string \<Rightarrow> ('d, string) action" and dec :: "string \<Rightarrow> ext + string"
  assumes dec_enc: "enc p w = (Ok c, w') \<Longrightarrow> dec c = Inr p"
    and enc_frame: "enc p w = (r, w') \<Longrightarrow> w_hist w' = w_hist w \<and> w_store w' = w_store w
          \<and> ((\<exists>c. r = Ok c) \<or> (\<exists>x. r = Err (External x)))"
begin

text \<open>What is stored is the base64 text of the ciphertext; it is read back by decoding and decrypting.\<close>

lemma stored_round_trip:
  assumes "enc p w = (Ok c, w')"
  shows "Option.bind (base64_decode (base64_encode c)) (\<lambda>x. case dec x of Inr q \<Rightarrow> Some q | Inl e \<Rightarrow> None) = Some p"
  using dec_enc [OF assms] by simp

lemma enc_accepted: "enc p w = (r, w') \<Longrightarrow> accepted w' = accepted w"
  using enc_frame by (simp add: accepted_def)

end

interpretation crypt: encryptor_contract "Encrypt e" "Decrypt e"
  by unfold_locales (auto dest: Decrypt_Encrypt Encrypt_frame)

section \<open>Properties\<close>

text \<open>
  Claim C20. Encryption always reads back: whatever the encryptor, either it succeeds and its
  own decryption of the result is the plaintext, or it is AES-GCM without 12 bytes of
  entropy left, an error that changes nothing.
\<close>

theorem encryption_reads_back:
  "(\<exists>c w'. Encrypt e p w = (Ok c, w') \<and> Decrypt e c = Inr p)
   \<or> ((\<exists>k. e = GCMEncryptor k) \<and> length (w_pool w) < nonce_size
      \<and> Encrypt e p w = (Err (External ''cannot read the entropy source''), w))"
proof (cases "is_ok (fst (Encrypt e p w))")
  case True
  then obtain c w' where "Encrypt e p w = (Ok c, w')" by (cases "Encrypt e p w") (auto simp: is_ok_iff)
  then show ?thesis using crypt.dec_enc by blast
next
  case False
  then show ?thesis by (cases e) (auto simp: Let_def split: if_splits)
qed

text \<open>
  Claim C19. AES-256-GCM decryption is authenticated: it returns a plaintext only for the one
  ciphertext that a nonce of 12 bytes and this key give for that plaintext. Every other
  byte string is an error.
\<close>

theorem decrypts_only_sealed:
  "Decrypt (GCMEncryptor k) c = Inr p \<longleftrightarrow>
     (\<exists>nonce. length nonce = nonce_size \<and> c = nonce @ seal (key_bytes k) nonce p)"
  by (rule Decrypt_GCM_iff)

text \<open>
  The configured key decides the encryptor: no key means plaintext, a key that is
  base64 of exactly 32 bytes means AES-256-GCM under those bytes, anything else is refused. The
  retired key has no plaintext fallback.
\<close>

lemma key_selects_encryptor:
  "(NewEncryptor s = Ok e \<longleftrightarrow> (s = [] \<and> e = NoopEncryptor)
      \<or> (\<exists>k. s \<noteq> [] \<and> base64_decode s = Some (key_bytes k) \<and> e = GCMEncryptor k))
   \<and> (NewPreviousKeyDecryptor s = Ok e \<longleftrightarrow> (\<exists>k. base64_decode s = Some (key_bytes k) \<and> e = GCMEncryptor k))"
proof -
  have "parseKey s env = Ok k \<longleftrightarrow> base64_decode s = Some (key_bytes k)" for env k
  proof
    assume "base64_decode s = Some (key_bytes k)"
    moreover have "copy_key (key_bytes k) = k" by (simp add: copy_key_def key_bytes_inverse)
    ultimately show "parseKey s env = Ok k" by (simp add: parseKey_def)
  qed (auto simp: parseKey_def split: option.splits if_splits)
  then show ?thesis by (auto simp: NewEncryptor_def NewPreviousKeyDecryptor_def)
qed

end
