(* ===== verification/Store.thy ===== *)
theory Store
  imports Admin Encrypt
begin

text \<open>
  \<open>state.go\<close>: the broker's memory. GORM and the SQL database under it are a parameter: a
  record of the calls the code makes, each an action on the database that may fail; the
  laws they are relied on for stand in the locale \<open>gorm_db\<close>. What the code does around
  them (insert or update, encryption, JSON, base64, key rotation, error wrapping) is
  modelled.
\<close>

section \<open>Records\<close>

record InstanceRecord =
  ir_InstanceID :: string
  ir_ServiceID :: string
  ir_PlanID :: string
  ir_Database :: string
  ir_Params :: InstanceParams

record BindingRecord =
  br_BindingID :: string
  br_InstanceID :: string
  br_Username :: string
  br_Params :: BindingParams
  br_Credentials :: string

record BindingInfo =
  bi_InstanceID :: string
  bi_Username :: string
  bi_Params :: BindingParams
  bi_Credentials :: "string \<rightharpoonup> string"

section \<open>The database calls\<close>

datatype 'a found = Found 'a | RecordNotFound | DbError ext

text \<open>
  One field per call of the code: \<open>First\<close>, \<open>Updates\<close> with \<open>Select("*")\<close>, \<open>Create\<close> and
  \<open>Delete\<close> by primary key on each table, \<open>Find\<close> by instance and of all bindings, \<open>Update\<close> of
  one column, \<open>Exec\<close> of a DDL statement, and \<open>DB\<close> with the \<open>Close\<close> of the connection pool it gives.
\<close>

record 'd gorm =
  g_first_instance :: "string \<Rightarrow> 'd \<Rightarrow> InstanceRecord found \<times> 'd"
  g_update_instance :: "string \<Rightarrow> InstanceRecord \<Rightarrow> 'd \<Rightarrow> ext option \<times> 'd"
  g_create_instance :: "InstanceRecord \<Rightarrow> 'd \<Rightarrow> ext option \<times> 'd"
  g_delete_instance :: "string \<Rightarrow> 'd \<Rightarrow> ext option \<times> 'd"
  g_first_binding :: "string \<Rightarrow> 'd \<Rightarrow> BindingRecord found \<times> 'd"
  g_update_binding :: "string \<Rightarrow> BindingRecord \<Rightarrow> 'd \<Rightarrow> ext option \<times> 'd"
  g_create_binding :: "BindingRecord \<Rightarrow> 'd \<Rightarrow> ext option \<times> 'd"
  g_delete_binding :: "string \<Rightarrow> 'd \<Rightarrow> ext option \<times> 'd"
  g_bindings_of :: "string \<Rightarrow> 'd \<Rightarrow> (ext + BindingRecord list) \<times> 'd"
  g_all_bindings :: "'d \<Rightarrow> (ext + BindingRecord list) \<times> 'd"
  g_set_credentials :: "string \<Rightarrow> string \<Rightarrow> 'd \<Rightarrow> ext option \<times> 'd"
  g_exec :: "string \<Rightarrow> 'd \<Rightarrow> ext option \<times> 'd"
  g_sql_db :: "'d \<Rightarrow> ext option \<times> 'd"
  g_close :: "'d \<Rightarrow> ext option \<times> 'd"

record 'd store =
  st_db :: "'d gorm"
  st_encryptor :: encryptor

text \<open>A call on the database, as an action on the world.\<close>

definition on_db :: "('d \<Rightarrow> 'a \<times> 'd) \<Rightarrow> ('d, 'a) action" where
  "on_db f w = (case f (w_store w) of (x, d) \<Rightarrow> (Ok x, w\<lparr>w_store := d\<rparr>))"

definition write_db :: "('d \<Rightarrow> ext option \<times> 'd) \<Rightarrow> ('d, unit) action" where
  "write_db f = seq (on_db f) (\<lambda>r. case r of None \<Rightarrow> ret () | Some e \<Rightarrow> fail (External e))"

section \<open>Opening\<close>

datatype dialector = SqliteFile string | GaussConn string | PostgresURL string

datatype open_err =
    DialectorFailed ext
  | UnsupportedDSN string
  | CannotOpen ext
  | CannotCreateTables ext
  | CannotRestrict ext

definition stateDialector :: "(string \<Rightarrow> ext option) \<Rightarrow> config \<Rightarrow> (open_err, dialector) go" where
  "stateDialector sql_open cfg =
     (if StateDSN cfg = [] then Ok (SqliteFile (StatePath cfg))
      else if has_prefix ''gaussdb://'' (StateDSN cfg) then
        (case sql_open (StateDSN cfg) of
           Some e \<Rightarrow> Err (DialectorFailed e)
         | None \<Rightarrow> Ok (GaussConn (StateDSN cfg)))
      else if has_prefix ''postgres://'' (StateDSN cfg) \<or> has_prefix ''postgresql://'' (StateDSN cfg)
        then Ok (PostgresURL (StateDSN cfg))
      else Err (UnsupportedDSN (StateDSN cfg)))"

definition stateSchema :: "string list" where
  "stateSchema = [
''CREATE TABLE IF NOT EXISTS instance_records (
		instance_id TEXT PRIMARY KEY,
		service_id  TEXT NOT NULL,
		plan_id     TEXT NOT NULL,
		database    TEXT NOT NULL,
		params      TEXT NOT NULL
	)'',
''CREATE TABLE IF NOT EXISTS binding_records (
		binding_id   TEXT PRIMARY KEY,
		instance_id  TEXT NOT NULL,
		username     TEXT NOT NULL,
		params       TEXT NOT NULL,
		credentials  TEXT NOT NULL
	)'']"

fun create_tables :: "'d gorm \<Rightarrow> string list \<Rightarrow> ('d world, open_err, unit) act" where
  "create_tables g [] w = (Ok (), w)"
| "create_tables g (ddl # ddls) w = (case g_exec g ddl (w_store w) of
      (None, d) \<Rightarrow> create_tables g ddls (w\<lparr>w_store := d\<rparr>)
    | (Some e, d) \<Rightarrow> (Err (CannotCreateTables e), w\<lparr>w_store := d\<rparr>))"

text \<open>\<open>gorm.Open\<close> of a dialector gives the calls; \<open>os.Chmod\<close> is the last parameter.\<close>

definition OpenStore ::
    "(string \<Rightarrow> ext option) \<Rightarrow> (dialector \<Rightarrow> ext + 'd gorm) \<Rightarrow> (string \<Rightarrow> nat \<Rightarrow> ext option) \<Rightarrow>
     config \<Rightarrow> encryptor \<Rightarrow> ('d world, open_err, 'd store) act" where
  "OpenStore sql_open gorm_open chmod cfg encr =
     seq (lift (stateDialector sql_open cfg)) (\<lambda>dialect.
     case gorm_open dialect of
       Inl e \<Rightarrow> fail (CannotOpen e)
     | Inr g \<Rightarrow>
         seq (create_tables g stateSchema) (\<lambda>_.
         case (if StateDSN cfg = [] then chmod (StatePath cfg) 384 else None) of
           Some e \<Rightarrow> fail (CannotRestrict e)
         | None \<Rightarrow> ret \<lparr>st_db = g, st_encryptor = encr\<rparr>))"

definition Store_Close :: "'d store \<Rightarrow> ('d, unit) action" where
  "Store_Close s = seq (write_db (g_sql_db (st_db s))) (\<lambda>_. write_db (g_close (st_db s)))"

section \<open>Instances\<close>

definition PutInstance :: "'d store \<Rightarrow> string \<Rightarrow> InstanceRecord \<Rightarrow> ('d, unit) action" where
  "PutInstance s instanceID record0 =
     (let r = record0\<lparr>ir_InstanceID := instanceID\<rparr> in
      seq (on_db (g_first_instance (st_db s) instanceID)) (\<lambda>found. case found of
        Found _ \<Rightarrow> write_db (g_update_instance (st_db s) instanceID r)
      | RecordNotFound \<Rightarrow> write_db (g_create_instance (st_db s) r)
      | DbError e \<Rightarrow> fail (External e)))"

definition GetInstance :: "'d store \<Rightarrow> string \<Rightarrow> ('d, InstanceRecord option) action" where
  "GetInstance s instanceID =
     seq (on_db (g_first_instance (st_db s) instanceID)) (\<lambda>found. case found of
        Found r \<Rightarrow> ret (Some r)
      | RecordNotFound \<Rightarrow> ret None
      | DbError e \<Rightarrow> fail (CannotRead instanceID e))"

definition DeleteInstance :: "'d store \<Rightarrow> string \<Rightarrow> ('d, unit) action" where
  "DeleteInstance s instanceID = write_db (g_delete_instance (st_db s) instanceID)"

section \<open>Bindings\<close>

definition decryptCredentials :: "'d store \<Rightarrow> string \<Rightarrow> string \<Rightarrow> (err, string \<rightharpoonup> string) go" where
  "decryptCredentials s bindingID stored =
     (case base64_decode stored of
        None \<Rightarrow> Err (CannotDecode bindingID)
      | Some ciphertext \<Rightarrow>
          (case Decrypt (st_encryptor s) ciphertext of
             Inl e \<Rightarrow> Err (CannotDecrypt bindingID e)
           | Inr plain \<Rightarrow>
               (case unmarshal_string_map plain of
                  None \<Rightarrow> Err (Corrupted bindingID)
                | Some creds \<Rightarrow> Ok creds)))"

text \<open>A failed encryption is wrapped; nothing else in the code of \<open>Encrypt\<close> can fail.\<close>

definition wrap_encrypt :: "err \<Rightarrow> err" where
  "wrap_encrypt e = (case e of External x \<Rightarrow> CannotEncrypt x | _ \<Rightarrow> e)"

definition PutBinding ::
    "'d store \<Rightarrow> string \<Rightarrow> string \<Rightarrow> string \<Rightarrow> BindingParams \<Rightarrow> (string \<times> string) list \<Rightarrow> ('d, unit) action" where
  "PutBinding s bindingID username instanceID params creds =
     (let plain = marshal_string_map creds in
      seq (on_err wrap_encrypt (Encrypt (st_encryptor s) plain)) (\<lambda>encrypted.
      let r = \<lparr>br_BindingID = bindingID, br_InstanceID = instanceID, br_Username = username,
               br_Params = params, br_Credentials = base64_encode encrypted\<rparr> in
      seq (on_db (g_first_binding (st_db s) bindingID)) (\<lambda>found. case found of
        Found _ \<Rightarrow> write_db (g_update_binding (st_db s) bindingID r)
      | RecordNotFound \<Rightarrow> write_db (g_create_binding (st_db s) r)
      | DbError e \<Rightarrow> fail (External e))))"

definition binding_info :: "'d store \<Rightarrow> BindingRecord \<Rightarrow> (err, BindingInfo) go" where
  "binding_info s r =
     bind_go (decryptCredentials s (br_BindingID r) (br_Credentials r)) (\<lambda>creds.
       Ok \<lparr>bi_InstanceID = br_InstanceID r, bi_Username = br_Username r, bi_Params = br_Params r,
           bi_Credentials = creds\<rparr>)"

definition GetBinding :: "'d store \<Rightarrow> string \<Rightarrow> ('d, BindingInfo option) action" where
  "GetBinding s bindingID =
     seq (on_db (g_first_binding (st_db s) bindingID)) (\<lambda>found. case found of
        Found r \<Rightarrow> seq (lift (binding_info s r)) (\<lambda>info. ret (Some info))
      | RecordNotFound \<Rightarrow> ret None
      | DbError e \<Rightarrow> fail (CannotRead bindingID e))"

definition DeleteBinding :: "'d store \<Rightarrow> string \<Rightarrow> ('d, unit) action" where
  "DeleteBinding s bindingID = write_db (g_delete_binding (st_db s) bindingID)"

fun decrypt_all :: "'d store \<Rightarrow> BindingRecord list \<Rightarrow> (err, BindingInfo list) go" where
  "decrypt_all s [] = Ok []"
| "decrypt_all s (r # rs) =
     bind_go (binding_info s r) (\<lambda>info. bind_go (decrypt_all s rs) (\<lambda>infos. Ok (info # infos)))"

definition BindingsForInstance :: "'d store \<Rightarrow> string \<Rightarrow> ('d, BindingInfo list) action" where
  "BindingsForInstance s instanceID =
     seq (on_db (g_bindings_of (st_db s) instanceID)) (\<lambda>found. case found of
        Inl e \<Rightarrow> fail (CannotList instanceID e)
      | Inr records \<Rightarrow> lift (decrypt_all s records))"

section \<open>Key rotation\<close>

text \<open>
  The loop of \<open>RotateBindings\<close>, with the number of records moved so far; an error carries
  that number, as the code returns both.
\<close>

fun rotate_loop :: "'d store \<Rightarrow> encryptor \<Rightarrow> nat \<Rightarrow> BindingRecord list \<Rightarrow> ('d world, nat \<times> err, nat) act" where
  "rotate_loop s previous n [] w = (Ok n, w)"
| "rotate_loop s previous n (r # rs) w =
     (case base64_decode (br_Credentials r) of
        None \<Rightarrow> (Err (n, CannotDecode (br_BindingID r)), w)
      | Some ciphertext \<Rightarrow>
          (case Decrypt (st_encryptor s) ciphertext of
             Inr plain \<Rightarrow> rotate_loop s previous n rs w
           | Inl _ \<Rightarrow>
               (case Decrypt previous ciphertext of
                  Inl e \<Rightarrow> (Err (n, NeitherKey (br_BindingID r) e), w)
                | Inr plain \<Rightarrow>
                    (case Encrypt (st_encryptor s) plain w of
                       (Ok reencrypted, w1) \<Rightarrow>
                         (case g_set_credentials (st_db s) (br_BindingID r) (base64_encode reencrypted) (w_store w1) of
                            (None, d) \<Rightarrow> rotate_loop s previous (n + 1) rs (w1\<lparr>w_store := d\<rparr>)
                          | (Some e, d) \<Rightarrow> (Err (n, CannotRewrite (br_BindingID r) e), w1\<lparr>w_store := d\<rparr>))
                     | (Err (External e), w1) \<Rightarrow> (Err (n, CannotReencrypt (br_BindingID r) e), w1)
                     | (Err e, w1) \<Rightarrow> (Err (n, e), w1)
                     | (Panic, w1) \<Rightarrow> (Panic, w1)))))"

definition RotateBindings :: "'d store \<Rightarrow> encryptor \<Rightarrow> ('d world, nat \<times> err, nat) act" where
  "RotateBindings s previous w =
     (case g_all_bindings (st_db s) (w_store w) of
        (Inl e, d) \<Rightarrow> (Err (0, CannotReadForRotation e), w\<lparr>w_store := d\<rparr>)
      | (Inr records, d) \<Rightarrow> rotate_loop s previous 0 records (w\<lparr>w_store := d\<rparr>))"

section \<open>The laws of the database\<close>

text \<open>
  A write makes its change, or reports an error and leaves either the old or the new
  contents (a lost acknowledgement): \<open>old\<close> and \<open>new\<close> are the contents before the call and
  the ones it aims at, \<open>c\<close> the contents after it.
\<close>

definition wrote :: "'r \<Rightarrow> 'r \<Rightarrow> ext option \<Rightarrow> 'r \<Rightarrow> bool" where
  "wrote old new x c \<longleftrightarrow> c = new \<or> (x \<noteq> None \<and> c = old)"

text \<open>
  GORM over a SQL database with the two tables of \<open>stateSchema\<close>, as the code uses it: \<open>insts\<close>
  and \<open>binds\<close> are the rows by primary key. A read changes nothing and returns the row, or
  that there is none, or an error; the JSON columns read back what was written.
\<close>

locale gorm_db =
  fixes g :: "'d gorm"
    and insts :: "'d \<Rightarrow> string \<rightharpoonup> InstanceRecord"
    and binds :: "'d \<Rightarrow> string \<rightharpoonup> BindingRecord"
  assumes first_instance: "g_first_instance g k d = (x, d') \<Longrightarrow>
      insts d' = insts d \<and> binds d' = binds d
      \<and> (\<forall>r. x = Found r \<longrightarrow> insts d k = Some r) \<and> (x = RecordNotFound \<longrightarrow> insts d k = None)"
    and update_instance: "g_update_instance g k i d = (e, d') \<Longrightarrow> insts d k \<noteq> None \<Longrightarrow> ir_InstanceID i = k \<Longrightarrow>
      binds d' = binds d \<and> wrote (insts d) ((insts d)(k \<mapsto> i)) e (insts d')"
    and create_instance: "g_create_instance g i d = (e, d') \<Longrightarrow> insts d (ir_InstanceID i) = None \<Longrightarrow>
      binds d' = binds d \<and> wrote (insts d) ((insts d)(ir_InstanceID i \<mapsto> i)) e (insts d')"
    and drop_instance: "g_delete_instance g k d = (e, d') \<Longrightarrow>
      binds d' = binds d \<and> wrote (insts d) ((insts d)(k := None)) e (insts d')"
    and first_binding: "g_first_binding g k d = (y, d') \<Longrightarrow>
      insts d' = insts d \<and> binds d' = binds d
      \<and> (\<forall>r. y = Found r \<longrightarrow> binds d k = Some r) \<and> (y = RecordNotFound \<longrightarrow> binds d k = None)"
    and update_binding: "g_update_binding g k b d = (e, d') \<Longrightarrow> binds d k \<noteq> None \<Longrightarrow> br_BindingID b = k \<Longrightarrow>
      insts d' = insts d \<and> wrote (binds d) ((binds d)(k \<mapsto> b)) e (binds d')"
    and create_binding: "g_create_binding g b d = (e, d') \<Longrightarrow> binds d (br_BindingID b) = None \<Longrightarrow>
      insts d' = insts d \<and> wrote (binds d) ((binds d)(br_BindingID b \<mapsto> b)) e (binds d')"
    and drop_binding: "g_delete_binding g k d = (e, d') \<Longrightarrow>
      insts d' = insts d \<and> wrote (binds d) ((binds d)(k := None)) e (binds d')"
    and bindings_of: "g_bindings_of g k d = (z, d') \<Longrightarrow>
      insts d' = insts d \<and> binds d' = binds d
      \<and> (\<forall>rs. z = Inr rs \<longrightarrow> set rs = {r \<in> ran (binds d). br_InstanceID r = k})"
    and all_bindings: "g_all_bindings g d = (z, d') \<Longrightarrow>
      insts d' = insts d \<and> binds d' = binds d
      \<and> (\<forall>rs. z = Inr rs \<longrightarrow> set rs = ran (binds d) \<and> distinct (map br_BindingID rs))"
    and set_credentials: "g_set_credentials g k c d = (e, d') \<Longrightarrow> binds d k = Some b \<Longrightarrow>
      insts d' = insts d \<and> wrote (binds d) ((binds d)(k \<mapsto> b\<lparr>br_Credentials := c\<rparr>)) e (binds d')"
    and binding_key: "binds d k = Some b \<Longrightarrow> br_BindingID b = k"

section \<open>The contract of the store\<close>

text \<open>
  What the broker relies on, in terms of the rows by key alone: reads return the row and
  change nothing, a write makes its change or fails with the old or the new rows, and a
  binding that was put is read back with its credentials.
\<close>

definition same_tables ::
    "('d \<Rightarrow> string \<rightharpoonup> InstanceRecord) \<Rightarrow> ('d \<Rightarrow> string \<rightharpoonup> BindingRecord) \<Rightarrow> 'd world \<Rightarrow> 'd world \<Rightarrow> bool" where
  "same_tables insts binds w w' \<longleftrightarrow> w_hist w' = w_hist w \<and> w_pool w' = w_pool w
     \<and> insts (w_store w') = insts (w_store w) \<and> binds (w_store w') = binds (w_store w)"

text \<open>The new rows are the ones aimed at, or the call failed and they are the old ones.\<close>

definition put_rows :: "'r \<Rightarrow> 'r \<Rightarrow> ('e, unit) go \<Rightarrow> 'r \<Rightarrow> bool" where
  "put_rows old new r c \<longleftrightarrow> r \<noteq> Panic \<and> (c = new \<or> (r \<noteq> Ok () \<and> c = old))"

definition info_of :: "BindingRecord \<Rightarrow> (string \<times> string) list \<Rightarrow> BindingInfo" where
  "info_of r creds = \<lparr>bi_InstanceID = br_InstanceID r, bi_Username = br_Username r, bi_Params = br_Params r,
     bi_Credentials = map_of creds\<rparr>"

locale store_contract =
  fixes s :: "'d store"
    and insts :: "'d \<Rightarrow> string \<rightharpoonup> InstanceRecord"
    and binds :: "'d \<Rightarrow> string \<rightharpoonup> BindingRecord"
  assumes get_instance: "GetInstance s k w = (x, w') \<Longrightarrow>
      same_tables insts binds w w' \<and> x \<noteq> Panic \<and> (\<forall>v. x = Ok v \<longrightarrow> v = insts (w_store w) k)"
    and put_instance: "PutInstance s k i w = (u, w') \<Longrightarrow>
      w_hist w' = w_hist w \<and> w_pool w' = w_pool w \<and> binds (w_store w') = binds (w_store w)
      \<and> put_rows (insts (w_store w)) ((insts (w_store w))(k \<mapsto> i\<lparr>ir_InstanceID := k\<rparr>)) u (insts (w_store w'))"
    and delete_instance: "DeleteInstance s k w = (u, w') \<Longrightarrow>
      w_hist w' = w_hist w \<and> w_pool w' = w_pool w \<and> binds (w_store w') = binds (w_store w)
      \<and> put_rows (insts (w_store w)) ((insts (w_store w))(k := None)) u (insts (w_store w'))"
    and get_binding: "GetBinding s k w = (y, w') \<Longrightarrow>
      same_tables insts binds w w' \<and> y \<noteq> Panic \<and> (y = Ok None \<longrightarrow> binds (w_store w) k = None)
      \<and> (\<forall>v. y = Ok (Some v) \<longrightarrow> (\<exists>b. binds (w_store w) k = Some b \<and> binding_info s b = Ok v))"
    and put_binding: "PutBinding s k user iid ps creds w = (u, w') \<Longrightarrow>
      distinct (map fst creds) \<Longrightarrow> list_all valid_entry creds \<Longrightarrow>
      w_hist w' = w_hist w \<and> insts (w_store w') = insts (w_store w)
      \<and> ((\<exists>e. u = Err e \<and> binds (w_store w') = binds (w_store w))
         \<or> (\<exists>b. b = \<lparr>br_BindingID = k, br_InstanceID = iid, br_Username = user, br_Params = ps,
                   br_Credentials = br_Credentials b\<rparr>
              \<and> binding_info s b = Ok (info_of b creds)
              \<and> put_rows (binds (w_store w)) ((binds (w_store w))(k \<mapsto> b)) u (binds (w_store w'))))"
    and delete_binding: "DeleteBinding s k w = (u, w') \<Longrightarrow>
      w_hist w' = w_hist w \<and> w_pool w' = w_pool w \<and> insts (w_store w') = insts (w_store w)
      \<and> put_rows (binds (w_store w)) ((binds (w_store w))(k := None)) u (binds (w_store w'))"
    and bindings_for: "BindingsForInstance s k w = (z, w') \<Longrightarrow>
      same_tables insts binds w w' \<and> z \<noteq> Panic
      \<and> (\<forall>is. z = Ok is \<longrightarrow> (is = [] \<longleftrightarrow> (\<forall>b\<in>ran (binds (w_store w)). br_InstanceID b \<noteq> k)))"

lemma on_db_eq: "on_db f w = (r, w') \<longleftrightarrow> (\<exists>x d. f (w_store w) = (x, d) \<and> r = Ok x \<and> w' = w\<lparr>w_store := d\<rparr>)"
  by (auto simp: on_db_def split: prod.splits)

lemma write_db_eq:
  "write_db f w = (r, w') \<longleftrightarrow> (\<exists>x d. f (w_store w) = (x, d) \<and> w' = w\<lparr>w_store := d\<rparr>
     \<and> r = (case x of None \<Rightarrow> Ok () | Some e \<Rightarrow> Err (External e)))"
  by (auto simp: write_db_def seq_def on_db_def split: prod.splits option.splits)

lemma write_rows:
  assumes "wrote old new x c" and "r = (case x of None \<Rightarrow> Ok () | Some e \<Rightarrow> Err (External e))"
  shows "put_rows old new r c"
  using assms by (auto simp: wrote_def put_rows_def split: option.splits)

lemma decrypt_all_Ok_Nil: "decrypt_all s rs = Ok is \<Longrightarrow> is = [] \<longleftrightarrow> rs = []"
  by (cases rs) auto

lemma decryptCredentials_not_Panic [simp]: "decryptCredentials s k c \<noteq> Panic"
  by (auto simp: decryptCredentials_def split: option.splits sum.splits)

lemma binding_info_not_Panic [simp]: "binding_info s r \<noteq> Panic"
  by (simp add: binding_info_def bind_go_eq_Panic)

lemma decrypt_all_not_Panic [simp]: "decrypt_all s rs \<noteq> Panic"
  by (induction rs) (auto simp: bind_go_eq_Panic)

lemma binding_info_stored:
  assumes "Encrypt (st_encryptor s) (marshal_string_map creds) w = (Ok c, w')"
    and "distinct (map fst creds)" and "list_all valid_entry creds" and "br_Credentials b = base64_encode c"
  shows "binding_info s b = Ok (info_of b creds)"
  using crypt.dec_enc [OF assms(1)] assms(4) unmarshal_marshal [OF assms(2,3)]
  by (simp add: binding_info_def decryptCredentials_def info_of_def)

section \<open>Writing rows\<close>

lemma put_instance_rows:
  assumes db: "gorm_db (st_db s) insts binds" and run: "PutInstance s k i w = (u, w')"
  shows "w_hist w' = w_hist w \<and> w_pool w' = w_pool w \<and> binds (w_store w') = binds (w_store w)
      \<and> put_rows (insts (w_store w)) ((insts (w_store w))(k \<mapsto> i\<lparr>ir_InstanceID := k\<rparr>)) u (insts (w_store w'))"
proof -
  obtain x d where x: "g_first_instance (st_db s) k (w_store w) = (x, d)" by fastforce
  note seen = gorm_db.first_instance [OF db x]
  let ?i = "i\<lparr>ir_InstanceID := k\<rparr>"
  show ?thesis
  proof (cases x)
    case (Found r)
    obtain e d' where e: "g_update_instance (st_db s) k ?i d = (e, d')" by fastforce
    have "insts d k \<noteq> None" using seen Found by simp
    then have "binds d' = binds d" "wrote (insts d) ((insts d)(k \<mapsto> ?i)) e (insts d')"
      using gorm_db.update_instance [OF db e] by simp_all
    moreover have "u = (case e of None \<Rightarrow> Ok () | Some e \<Rightarrow> Err (External e))" "w' = w\<lparr>w_store := d'\<rparr>"
      using run x e Found by (auto simp: PutInstance_def Let_def seq_def on_db_def write_db_def split: option.splits)
    ultimately show ?thesis using seen write_rows by auto
  next
    case RecordNotFound
    obtain e d' where e: "g_create_instance (st_db s) ?i d = (e, d')" by fastforce
    have "insts d (ir_InstanceID ?i) = None" using seen RecordNotFound by simp
    then have "binds d' = binds d" "wrote (insts d) ((insts d)(k \<mapsto> ?i)) e (insts d')"
      using gorm_db.create_instance [OF db e] by simp_all
    moreover have "u = (case e of None \<Rightarrow> Ok () | Some e \<Rightarrow> Err (External e))" "w' = w\<lparr>w_store := d'\<rparr>"
      using run x e RecordNotFound by (auto simp: PutInstance_def Let_def seq_def on_db_def write_db_def split: option.splits)
    ultimately show ?thesis using seen write_rows by auto
  next
    case (DbError e)
    then show ?thesis using run x seen by (auto simp: PutInstance_def Let_def seq_def on_db_def put_rows_def)
  qed
qed

lemma put_binding_rows:
  assumes db: "gorm_db (st_db s) insts binds" and run: "PutBinding s k user iid ps creds w = (u, w')"
    and creds: "distinct (map fst creds)" "list_all valid_entry creds"
  shows "w_hist w' = w_hist w \<and> insts (w_store w') = insts (w_store w)
      \<and> ((\<exists>e. u = Err e \<and> binds (w_store w') = binds (w_store w))
         \<or> (\<exists>b. b = \<lparr>br_BindingID = k, br_InstanceID = iid, br_Username = user, br_Params = ps,
                   br_Credentials = br_Credentials b\<rparr>
              \<and> binding_info s b = Ok (info_of b creds)
              \<and> put_rows (binds (w_store w)) ((binds (w_store w))(k \<mapsto> b)) u (binds (w_store w'))))"
proof -
  obtain y w1 where y: "Encrypt (st_encryptor s) (marshal_string_map creds) w = (y, w1)" by fastforce
  have frame: "w_hist w1 = w_hist w" "w_store w1 = w_store w" using crypt.enc_frame [OF y] by simp_all
  obtain x d where x: "g_first_binding (st_db s) k (w_store w1) = (x, d)" by fastforce
  note seen = gorm_db.first_binding [OF db x]
  show ?thesis
  proof (cases y)
    case (Ok c)
    define b where "b = \<lparr>br_BindingID = k, br_InstanceID = iid, br_Username = user, br_Params = ps,
      br_Credentials = base64_encode c\<rparr>"
    have rest: "(case x of Found _ \<Rightarrow> write_db (g_update_binding (st_db s) k b)
        | RecordNotFound \<Rightarrow> write_db (g_create_binding (st_db s) b)
        | DbError e \<Rightarrow> fail (External e)) (w1\<lparr>w_store := d\<rparr>) = (u, w')"
      unfolding b_def using run y x Ok by (simp add: PutBinding_def Let_def seq_def on_err_def on_db_def)
    have info: "binding_info s b = Ok (info_of b creds)"
      using binding_info_stored [OF y [unfolded Ok] creds] by (simp add: b_def)
    have self: "b = \<lparr>br_BindingID = k, br_InstanceID = iid, br_Username = user, br_Params = ps,
      br_Credentials = br_Credentials b\<rparr>" by (simp add: b_def)
    have key: "br_BindingID b = k" by (simp add: b_def)
    consider (error) e where "x = DbError e"
      | (sent) e d' where "binds d = binds (w_store w)" "insts d' = insts d"
          "wrote (binds d) ((binds d)(k \<mapsto> b)) e (binds d')"
          "u = (case e of None \<Rightarrow> Ok () | Some e \<Rightarrow> Err (External e))" "w' = w1\<lparr>w_store := d'\<rparr>"
    proof (cases x)
      case (Found r)
      then obtain e d' where e: "g_update_binding (st_db s) k b d = (e, d')"
        and "u = (case e of None \<Rightarrow> Ok () | Some e \<Rightarrow> Err (External e))" "w' = w1\<lparr>w_store := d'\<rparr>"
        using rest by (auto simp: write_db_eq)
      then show thesis using that(2) gorm_db.update_binding [OF db e] Found seen frame key by auto
    next
      case RecordNotFound
      then obtain e d' where e: "g_create_binding (st_db s) b d = (e, d')"
        and "u = (case e of None \<Rightarrow> Ok () | Some e \<Rightarrow> Err (External e))" "w' = w1\<lparr>w_store := d'\<rparr>"
        using rest by (auto simp: write_db_eq)
      then show thesis using that(2) gorm_db.create_binding [OF db e] RecordNotFound seen frame key by auto
    qed (use that in blast)
    then show ?thesis
    proof cases
      case error
      then show ?thesis using rest seen frame by auto
    next
      case sent
      then have "put_rows (binds (w_store w)) ((binds (w_store w))(k \<mapsto> b)) u (binds (w_store w'))"
        using write_rows by fastforce
      then show ?thesis using sent seen frame self info by auto
    qed
  next
    case (Err e)
    then show ?thesis using run y frame
      by (auto simp: PutBinding_def Let_def seq_def on_err_def)
  next
    case Panic
    then show ?thesis using crypt.enc_frame [OF y] by auto
  qed
qed

section \<open>The store keeps its contract\<close>

lemma store_contract_of_gorm:
  assumes db: "gorm_db (st_db s) insts binds"
  shows "store_contract s insts binds"
proof unfold_locales
  note laws = gorm_db.first_instance [OF db] gorm_db.first_binding [OF db] gorm_db.bindings_of [OF db]
  show "same_tables insts binds w w' \<and> x \<noteq> Panic \<and> (\<forall>v. x = Ok v \<longrightarrow> v = insts (w_store w) k)"
    if "GetInstance s k w = (x, w')" for k w x w'
  proof -
    obtain y d where y: "g_first_instance (st_db s) k (w_store w) = (y, d)" by fastforce
    then show ?thesis using that laws(1) [OF y]
      by (cases y) (auto simp: GetInstance_def seq_def on_db_def same_tables_def)
  qed
  show "same_tables insts binds w w' \<and> y \<noteq> Panic \<and> (y = Ok None \<longrightarrow> binds (w_store w) k = None)
      \<and> (\<forall>v. y = Ok (Some v) \<longrightarrow> (\<exists>b. binds (w_store w) k = Some b \<and> binding_info s b = Ok v))"
    if "GetBinding s k w = (y, w')" for k w y w'
  proof -
    obtain x d where x: "g_first_binding (st_db s) k (w_store w) = (x, d)" by fastforce
    then show ?thesis using that laws(2) [OF x]
      by (cases x) (auto simp: GetBinding_def seq_def on_db_def same_tables_def
          split: go.splits)
  qed
  show "same_tables insts binds w w' \<and> z \<noteq> Panic
      \<and> (\<forall>is. z = Ok is \<longrightarrow> (is = [] \<longleftrightarrow> (\<forall>b\<in>ran (binds (w_store w)). br_InstanceID b \<noteq> k)))"
    if "BindingsForInstance s k w = (z, w')" for k w z w'
  proof -
    obtain x d where x: "g_bindings_of (st_db s) k (w_store w) = (x, d)" by fastforce
    show ?thesis
    proof (cases x)
      case (Inr rs)
      then have "z = decrypt_all s rs" "w' = w\<lparr>w_store := d\<rparr>"
        using that x by (simp_all add: BindingsForInstance_def seq_def on_db_def)
      moreover have "set rs = {r \<in> ran (binds (w_store w)). br_InstanceID r = k}"
        using laws(3) [OF x] Inr by blast
      then have "rs = [] \<longleftrightarrow> (\<forall>b\<in>ran (binds (w_store w)). br_InstanceID b \<noteq> k)"
        unfolding set_empty [symmetric] by auto
      ultimately show ?thesis using laws(3) [OF x] decrypt_all_Ok_Nil
        by (auto simp: same_tables_def)
    qed (use that x laws(3) [OF x] in \<open>auto simp: BindingsForInstance_def seq_def on_db_def same_tables_def\<close>)
  qed
  show "w_hist w' = w_hist w \<and> w_pool w' = w_pool w \<and> binds (w_store w') = binds (w_store w)
      \<and> put_rows (insts (w_store w)) ((insts (w_store w))(k := None)) u (insts (w_store w'))"
    if "DeleteInstance s k w = (u, w')" for k w u w'
    using that by (auto simp: DeleteInstance_def write_db_eq dest!: gorm_db.drop_instance [OF db] intro: write_rows)
  show "w_hist w' = w_hist w \<and> w_pool w' = w_pool w \<and> insts (w_store w') = insts (w_store w)
      \<and> put_rows (binds (w_store w)) ((binds (w_store w))(k := None)) u (binds (w_store w'))"
    if "DeleteBinding s k w = (u, w')" for k w u w'
    using that by (auto simp: DeleteBinding_def write_db_eq dest!: gorm_db.drop_binding [OF db] intro: write_rows)
  show "w_hist w' = w_hist w \<and> w_pool w' = w_pool w \<and> binds (w_store w') = binds (w_store w)
      \<and> put_rows (insts (w_store w)) ((insts (w_store w))(k \<mapsto> i\<lparr>ir_InstanceID := k\<rparr>)) u (insts (w_store w'))"
    if "PutInstance s k i w = (u, w')" for k i w u w'
    using put_instance_rows [OF db that] .
  show "w_hist w' = w_hist w \<and> insts (w_store w') = insts (w_store w)
      \<and> ((\<exists>e. u = Err e \<and> binds (w_store w') = binds (w_store w))
         \<or> (\<exists>b. b = \<lparr>br_BindingID = k, br_InstanceID = iid, br_Username = user, br_Params = ps,
                   br_Credentials = br_Credentials b\<rparr>
              \<and> binding_info s b = Ok (info_of b creds)
              \<and> put_rows (binds (w_store w)) ((binds (w_store w))(k \<mapsto> b)) u (binds (w_store w'))))"
    if "PutBinding s k user iid ps creds w = (u, w')" "distinct (map fst creds)" "list_all valid_entry creds"
    for k user iid ps creds w u w'
    using put_binding_rows [OF db that] .
qed

locale stored = gorm_db "st_db s" insts binds
  for s :: "'d store" and insts :: "'d \<Rightarrow> string \<rightharpoonup> InstanceRecord" and binds :: "'d \<Rightarrow> string \<rightharpoonup> BindingRecord"

sublocale stored < store_contract s insts binds
  by (rule store_contract_of_gorm) unfold_locales

section \<open>What a read answers\<close>

text \<open>
  The error with which a read by primary key fails, when the database does; a read answers
  that, or the row as it is stored, and moves the database as the call did.
\<close>

definition instance_fault :: "'d store \<Rightarrow> string \<Rightarrow> 'd \<Rightarrow> err option" where
  "instance_fault s k d = (case fst (g_first_instance (st_db s) k d) of
      DbError m \<Rightarrow> Some (CannotRead k m) | _ \<Rightarrow> None)"

definition binding_fault :: "'d store \<Rightarrow> string \<Rightarrow> 'd \<Rightarrow> err option" where
  "binding_fault s k d = (case fst (g_first_binding (st_db s) k d) of
      DbError m \<Rightarrow> Some (CannotRead k m) | _ \<Rightarrow> None)"

definition after_instance :: "'d store \<Rightarrow> string \<Rightarrow> 'd world \<Rightarrow> 'd world" where
  "after_instance s k w = w\<lparr>w_store := snd (g_first_instance (st_db s) k (w_store w))\<rparr>"

definition after_binding :: "'d store \<Rightarrow> string \<Rightarrow> 'd world \<Rightarrow> 'd world" where
  "after_binding s k w = w\<lparr>w_store := snd (g_first_binding (st_db s) k (w_store w))\<rparr>"

context stored
begin

lemma GetInstance_answer:
  "GetInstance s k w = (case instance_fault s k (w_store w) of Some e \<Rightarrow> Err e | None \<Rightarrow> Ok (insts (w_store w) k),
     after_instance s k w)"
proof -
  obtain x d where x: "g_first_instance (st_db s) k (w_store w) = (x, d)" by fastforce
  show ?thesis using first_instance [OF x]
    by (cases x) (auto simp: GetInstance_def seq_def on_db_def x instance_fault_def after_instance_def)
qed

lemma GetBinding_answer:
  "GetBinding s k w = (case binding_fault s k (w_store w) of Some e \<Rightarrow> Err e
     | None \<Rightarrow> (case binds (w_store w) k of None \<Rightarrow> Ok None | Some v \<Rightarrow> bind_go (binding_info s v) (\<lambda>e. Ok (Some e))),
     after_binding s k w)"
proof -
  obtain x d where x: "g_first_binding (st_db s) k (w_store w) = (x, d)" by fastforce
  show ?thesis using first_binding [OF x]
    by (cases x; cases "binding_info s (case x of Found v \<Rightarrow> v | _ \<Rightarrow> undefined)")
       (auto simp: GetBinding_def seq_def on_db_def x binding_fault_def after_binding_def)
qed

lemma after_instance_tables: "same_tables insts binds w (after_instance s k w)"
  using first_instance [OF prod.collapse [symmetric]] by (simp add: same_tables_def after_instance_def)

lemma after_binding_tables: "same_tables insts binds w (after_binding s k w)"
  using first_binding [OF prod.collapse [symmetric]] by (simp add: same_tables_def after_binding_def)

end

section \<open>Reading back\<close>

context store_contract
begin

lemma put_get_instance:
  assumes "PutInstance s k i w = (Ok (), w1)" and "GetInstance s k w1 = (Ok v, w2)"
  shows "v = Some (i\<lparr>ir_InstanceID := k\<rparr>)"
  using put_instance [OF assms(1)] get_instance [OF assms(2)] by (auto simp: put_rows_def)

lemma put_get_binding:
  assumes "PutBinding s k user iid ps creds w = (Ok (), w1)" and "GetBinding s k w1 = (Ok v, w2)"
    and "distinct (map fst creds)" and "list_all valid_entry creds"
  shows "v = Some \<lparr>bi_InstanceID = iid, bi_Username = user, bi_Params = ps, bi_Credentials = map_of creds\<rparr>"
proof -
  from put_binding [OF assms(1,3,4)] obtain b where b: "b = \<lparr>br_BindingID = k, br_InstanceID = iid,
      br_Username = user, br_Params = ps, br_Credentials = br_Credentials b\<rparr>"
    and info: "binding_info s b = Ok (info_of b creds)"
    and row: "binds (w_store w1) = (binds (w_store w))(k \<mapsto> b)" by (auto simp: put_rows_def)
  have "v = Some (info_of b creds)"
    using get_binding [OF assms(2)] row info by (cases v) auto
  moreover have "info_of b creds
      = \<lparr>bi_InstanceID = iid, bi_Username = user, bi_Params = ps, bi_Credentials = map_of creds\<rparr>"
    by (subst b) (simp add: info_of_def)
  ultimately show ?thesis by simp
qed

end

section \<open>Key rotation\<close>

text \<open>What an encryptor reads in a stored column.\<close>

definition reads :: "encryptor \<Rightarrow> string \<Rightarrow> string option" where
  "reads e c = (case base64_decode c of
      None \<Rightarrow> None
    | Some x \<Rightarrow> (case Decrypt e x of Inl _ \<Rightarrow> None | Inr p \<Rightarrow> Some p))"

text \<open>
  A row before and after rotation: untouched, or moved from the previous key to the current
  one with the same plaintext and nothing else changed.
\<close>

definition moved :: "encryptor \<Rightarrow> encryptor \<Rightarrow> BindingRecord \<Rightarrow> BindingRecord \<Rightarrow> bool" where
  "moved cur prev b b' \<longleftrightarrow> b' = b
     \<or> (\<exists>c p. reads cur (br_Credentials b) = None \<and> reads prev (br_Credentials b) = Some p
           \<and> b' = b\<lparr>br_Credentials := c\<rparr> \<and> reads cur c = Some p)"

definition rotated :: "encryptor \<Rightarrow> encryptor \<Rightarrow> (string \<rightharpoonup> BindingRecord) \<Rightarrow> (string \<rightharpoonup> BindingRecord) \<Rightarrow> bool" where
  "rotated cur prev t t' \<longleftrightarrow> (\<forall>k. rel_option (moved cur prev) (t k) (t' k))"

lemma moved_refl [simp]: "moved cur prev b b"
  by (simp add: moved_def)

lemma moved_trans: "moved cur prev a b \<Longrightarrow> moved cur prev b c \<Longrightarrow> moved cur prev a c"
  unfolding moved_def by auto

lemma rotated_refl [simp]: "rotated cur prev t t"
  by (simp add: rotated_def option.rel_refl)

lemma rotated_trans: "rotated cur prev t u \<Longrightarrow> rotated cur prev u v \<Longrightarrow> rotated cur prev t v"
  unfolding rotated_def
proof
  fix k assume *: "\<forall>k. rel_option (moved cur prev) (t k) (u k)" "\<forall>k. rel_option (moved cur prev) (u k) (v k)"
  show "rel_option (moved cur prev) (t k) (v k)"
    using *(1) [THEN spec, of k] *(2) [THEN spec, of k]
    by (cases "t k"; cases "u k"; cases "v k") (auto intro: moved_trans)
qed

lemma rotated_row: "rotated cur prev t t' \<Longrightarrow> t k = Some b \<Longrightarrow> \<exists>b'. t' k = Some b' \<and> moved cur prev b b'"
  unfolding rotated_def by (metis option_rel_Some1)

lemma rotated_dom: "rotated cur prev t t' \<Longrightarrow> dom t' = dom t"
  unfolding rotated_def dom_def by (metis option.rel_distinct(1) option.rel_distinct(2) option.exhaust)

lemma moved_keeps_current: "moved cur prev b b' \<Longrightarrow> reads cur (br_Credentials b) = Some p \<Longrightarrow> b' = b"
  by (auto simp: moved_def)

lemma Encrypt_reads: "Encrypt e p w = (Ok c, w') \<Longrightarrow> reads e (base64_encode c) = Some p"
  using crypt.dec_enc by (fastforce simp: reads_def)

definition rotation_outcome ::
    "('d \<Rightarrow> string \<rightharpoonup> InstanceRecord) \<Rightarrow> ('d \<Rightarrow> string \<rightharpoonup> BindingRecord) \<Rightarrow> encryptor \<Rightarrow> encryptor \<Rightarrow>
     nat \<Rightarrow> BindingRecord list \<Rightarrow> 'd world \<Rightarrow> (nat \<times> err, nat) go \<Rightarrow> 'd world \<Rightarrow> bool" where
  "rotation_outcome insts binds cur prev n rs w r w' \<longleftrightarrow>
     w_hist w' = w_hist w \<and> insts (w_store w') = insts (w_store w)
   \<and> rotated cur prev (binds (w_store w)) (binds (w_store w'))
   \<and> (\<forall>k. k \<notin> br_BindingID ` set rs \<longrightarrow> binds (w_store w') k = binds (w_store w) k)
   \<and> r \<noteq> Panic
   \<and> (\<forall>m. r = Ok m \<longrightarrow> m = n + length (filter (\<lambda>x. reads cur (br_Credentials x) = None) rs)
        \<and> (\<forall>x\<in>set rs. \<exists>b p. binds (w_store w') (br_BindingID x) = Some b \<and> reads cur (br_Credentials b) = Some p))"

lemma rotation_stops:
  assumes "w_hist w' = w_hist w" and "insts (w_store w') = insts (w_store w)"
    and "rotated cur prev (binds (w_store w)) (binds (w_store w'))"
    and "\<forall>k. k \<noteq> br_BindingID x \<longrightarrow> binds (w_store w') k = binds (w_store w) k"
  shows "rotation_outcome insts binds cur prev n (x # rs) w (Err e) w'"
  using assms by (simp add: rotation_outcome_def)

lemma rotation_skips:
  assumes "rotation_outcome insts binds cur prev n rs w r w'" and "reads cur (br_Credentials x) = Some p"
    and "binds (w_store w) (br_BindingID x) = Some x" and "br_BindingID x \<notin> br_BindingID ` set rs"
  shows "rotation_outcome insts binds cur prev n (x # rs) w r w'"
  using assms by (auto simp: rotation_outcome_def)

lemma rotation_moves:
  assumes "rotation_outcome insts binds cur prev (n + 1) rs v r w'"
    and "reads cur (br_Credentials x) = None" and "br_BindingID x \<notin> br_BindingID ` set rs"
    and "w_hist v = w_hist w" and "insts (w_store v) = insts (w_store w)"
    and "rotated cur prev (binds (w_store w)) (binds (w_store v))"
    and "\<forall>k. k \<noteq> br_BindingID x \<longrightarrow> binds (w_store v) k = binds (w_store w) k"
    and "binds (w_store v) (br_BindingID x) = Some b" and "reads cur (br_Credentials b) = Some p"
  shows "rotation_outcome insts binds cur prev n (x # rs) w r w'"
  using assms rotated_trans [of cur prev "binds (w_store w)" "binds (w_store v)" "binds (w_store w')"]
  by (auto simp: rotation_outcome_def)

context stored
begin

lemma set_row:
  assumes "g_set_credentials (st_db s) k c d = (e, d')" and "binds d k = Some b"
    and "moved cur prev b (b\<lparr>br_Credentials := c\<rparr>)"
  shows "insts d' = insts d" "rotated cur prev (binds d) (binds d')" "\<forall>j. j \<noteq> k \<longrightarrow> binds d' j = binds d j"
    "e = None \<Longrightarrow> binds d' k = Some (b\<lparr>br_Credentials := c\<rparr>)"
proof -
  note law = set_credentials [OF assms(1,2)]
  then show "insts d' = insts d" "\<forall>j. j \<noteq> k \<longrightarrow> binds d' j = binds d j"
    "e = None \<Longrightarrow> binds d' k = Some (b\<lparr>br_Credentials := c\<rparr>)" by (auto simp: wrote_def)
  have "rotated cur prev (binds d) ((binds d)(k \<mapsto> b\<lparr>br_Credentials := c\<rparr>))"
    using assms(2,3) by (auto simp: rotated_def option.rel_refl)
  then show "rotated cur prev (binds d) (binds d')" using law by (auto simp: wrote_def)
qed

lemma rotate_loop_outcome:
  assumes "rotate_loop s prev n rs w = (r, w')" and "\<forall>x\<in>set rs. binds (w_store w) (br_BindingID x) = Some x"
    and "distinct (map br_BindingID rs)"
  shows "rotation_outcome insts binds (st_encryptor s) prev n rs w r w'"
  using assms
proof (induction rs arbitrary: n w)
  case Nil
  then show ?case by (auto simp: rotation_outcome_def)
next
  case (Cons x rs)
  let ?cur = "st_encryptor s" and ?c = "br_Credentials x" and ?k = "br_BindingID x"
  have row: "binds (w_store w) ?k = Some x" and new: "?k \<notin> br_BindingID ` set rs"
    and rest: "distinct (map br_BindingID rs)" "\<forall>y\<in>set rs. binds (w_store w) (br_BindingID y) = Some y"
    using Cons.prems(2,3) by auto
  have stop: ?case if "r = Err e" "w_hist w' = w_hist w" "w_store w' = w_store w" for e
    unfolding that(1) by (rule rotation_stops) (simp_all add: that)
  show ?case
  proof (cases "base64_decode ?c")
    case None
    then show ?thesis using Cons.prems(1) by (intro stop) auto
  next
    case (Some y)
    show ?thesis
    proof (cases "Decrypt ?cur y")
      case (Inr p)
      then have "reads ?cur ?c = Some p" using Some by (simp add: reads_def)
      moreover have "rotate_loop s prev n rs w = (r, w')" using Cons.prems(1) Some Inr by simp
      from Cons.IH [OF this rest(2,1)] have "rotation_outcome insts binds ?cur prev n rs w r w'" .
      ultimately show ?thesis using row new by (intro rotation_skips)
    next
      case (Inl e0)
      then have old: "reads ?cur ?c = None" using Some by (simp add: reads_def)
      show ?thesis
      proof (cases "Decrypt prev y")
        case (Inl e)
        then show ?thesis using Cons.prems(1) Some \<open>Decrypt ?cur y = Inl e0\<close> by (intro stop) auto
      next
        case (Inr p)
        then have readable: "reads prev ?c = Some p" using Some by (simp add: reads_def)
        obtain z w1 where z: "Encrypt ?cur p w = (z, w1)" by fastforce
        note frame = crypt.enc_frame [OF z]
        note run = Cons.prems(1) Some \<open>Decrypt ?cur y = Inl e0\<close> Inr z
        consider c where "z = Ok c" | e where "z = Err (External e)" using frame by blast
        then show ?thesis
        proof cases
          case 2
          then show ?thesis using run frame by (intro stop) auto
        next
          case 1
          let ?new = "x\<lparr>br_Credentials := base64_encode c\<rparr>"
          have now: "reads ?cur (base64_encode c) = Some p" using Encrypt_reads z 1 by blast
          then have mv: "moved ?cur prev x ?new" using old readable by (auto simp: moved_def)
          obtain e d where e: "g_set_credentials (st_db s) ?k (base64_encode c) (w_store w1) = (e, d)" by fastforce
          have row1: "binds (w_store w1) ?k = Some x" using row frame by simp
          note set = set_row [OF e row1 mv]
          show ?thesis
          proof (cases e)
            case (Some e')
            then have "r = Err (n, CannotRewrite ?k e')" "w' = w1\<lparr>w_store := d\<rparr>" using run 1 e by auto
            then show ?thesis using set(1-3) frame by (auto intro: rotation_stops)
          next
            case None
            define v where "v = w1\<lparr>w_store := d\<rparr>"
            have "rotate_loop s prev (n + 1) rs v = (r, w')" using run 1 e None by (simp add: v_def)
            moreover have "\<forall>y\<in>set rs. binds (w_store v) (br_BindingID y) = Some y"
            proof
              fix y assume "y \<in> set rs"
              moreover then have "br_BindingID y \<noteq> ?k" using new by (metis imageI)
              ultimately show "binds (w_store v) (br_BindingID y) = Some y"
                using set(3) rest(2) frame by (simp add: v_def)
            qed
            ultimately have "rotation_outcome insts binds ?cur prev (n + 1) rs v r w'"
              using Cons.IH rest(1) by blast
            then show ?thesis
              by (rule rotation_moves [OF _ old new, where b = ?new and p = p])
                 (use set None frame now in \<open>simp_all add: v_def\<close>)
          qed
        qed
      qed
    qed
  qed
qed

lemma rotate_outcome:
  assumes "RotateBindings s prev w = (r, w')"
  shows "w_hist w' = w_hist w \<and> insts (w_store w') = insts (w_store w)
    \<and> rotated (st_encryptor s) prev (binds (w_store w)) (binds (w_store w')) \<and> r \<noteq> Panic
    \<and> (\<forall>m. r = Ok m \<longrightarrow>
         m = card {k. \<exists>b. binds (w_store w) k = Some b \<and> reads (st_encryptor s) (br_Credentials b) = None}
       \<and> (\<forall>k b. binds (w_store w') k = Some b \<longrightarrow> reads (st_encryptor s) (br_Credentials b) \<noteq> None))"
proof -
  obtain z d where z: "g_all_bindings (st_db s) (w_store w) = (z, d)" by fastforce
  note law = all_bindings [OF z]
  show ?thesis
  proof (cases z)
    case (Inl e)
    then show ?thesis using assms z law by (auto simp: RotateBindings_def)
  next
    case (Inr rs)
    let ?cur = "st_encryptor s" and ?w = "w\<lparr>w_store := d\<rparr>"
    have all: "set rs = ran (binds d)" and dist: "distinct (map br_BindingID rs)" using law Inr by auto
    have rows: "\<forall>x\<in>set rs. binds d (br_BindingID x) = Some x"
      unfolding all by (auto simp: ran_def dest: binding_key)
    have "rotate_loop s prev 0 rs ?w = (r, w')" using assms z Inr by (simp add: RotateBindings_def)
    from rotate_loop_outcome [OF this] rows dist
    have out: "rotation_outcome insts binds ?cur prev 0 rs ?w r w'" by simp
    let ?old = "\<lambda>x. reads ?cur (br_Credentials x) = None"
    have "length (filter ?old rs) = card (br_BindingID ` set (filter ?old rs))"
      using dist by (metis distinct_card distinct_map_filter length_map set_map)
    also have "br_BindingID ` set (filter ?old rs) = {k. \<exists>b. binds d k = Some b \<and> ?old b}"
    proof (intro set_eqI iffI)
      fix k assume "k \<in> br_BindingID ` set (filter ?old rs)"
      then show "k \<in> {k. \<exists>b. binds d k = Some b \<and> ?old b}" using rows by auto
    next
      fix k assume "k \<in> {k. \<exists>b. binds d k = Some b \<and> ?old b}"
      then obtain b where "b \<in> set rs" "br_BindingID b = k" "?old b"
        using binding_key by (auto simp: all ran_def)
      then show "k \<in> br_BindingID ` set (filter ?old rs)" by auto
    qed
    finally have count: "length (filter ?old rs) = card {k. \<exists>b. binds (w_store w) k = Some b \<and> ?old b}"
      using law by simp
    have dom: "dom (binds (w_store w')) = dom (binds d)"
      by (rule rotated_dom [of ?cur prev]) (use out in \<open>simp add: rotation_outcome_def\<close>)
    have "reads ?cur (br_Credentials b) \<noteq> None" if ok: "r = Ok m" "binds (w_store w') k = Some b" for m k b
    proof -
      obtain x where "binds d k = Some x" using ok(2) dom by (metis domD domI)
      then have "x \<in> set rs" "br_BindingID x = k" using binding_key by (auto simp: all ran_def)
      then show ?thesis using out ok by (fastforce simp: rotation_outcome_def)
    qed
    then show ?thesis using out count law by (auto simp: rotation_outcome_def)
  qed
qed

end

end
