(* ===== verification/Broker.thy ===== *)
theory Broker
  imports Store
begin

text \<open>
  \<open>broker.go\<close>: the Open Service Broker layer. A handler is an action on the world that ends
  with a response, an error of the API, or a panic. The lock that serialises the mutating
  handlers makes each of them one step; the other handlers are one read of the store. The
  JSON schema validator is a parameter of the broker.
\<close>

section \<open>The broker and its requests\<close>

record 'd broker =
  bk_cfg :: config
  bk_catalog :: catalog_data
  bk_admin :: "'d admin"
  bk_store :: "'d store"
  bk_validate :: validator

definition NewBroker :: "config \<Rightarrow> catalog_data \<Rightarrow> 'd admin \<Rightarrow> 'd store \<Rightarrow> validator \<Rightarrow> 'd broker" where
  "NewBroker cfg data admin store validate = \<lparr>bk_cfg = cfg, bk_catalog = data, bk_admin = admin,
     bk_store = store, bk_validate = validate\<rparr>"

type_synonym ('d, 'a) handler = "('d world, api_err, 'a) act"

record ProvisionDetails =
  pd_ServiceID :: string
  pd_PlanID :: string
  pd_RawParameters :: string

record UpdateDetails =
  ud_ServiceID :: string
  ud_PlanID :: string
  ud_RawParameters :: string

record BindDetails =
  bd_ServiceID :: string
  bd_RawParameters :: string

record Binding =
  b_AlreadyExists :: bool
  b_Credentials :: "string \<rightharpoonup> string"

record GetInstanceDetailsSpec =
  gi_ServiceID :: string
  gi_PlanID :: string
  gi_Parameters :: InstanceParams

record GetBindingSpec =
  gb_Credentials :: "string \<rightharpoonup> string"
  gb_Parameters :: BindingParams

datatype LastOperationState = InProgress | Succeeded | Failed

record LastOperation =
  lo_State :: LastOperationState
  lo_Description :: string

section \<open>Helpers\<close>

definition require :: "bool \<Rightarrow> 'e \<Rightarrow> ('s, 'e, unit) act" where
  "require c e = (if c then ret () else fail e)"

text \<open>The two ways an inner error leaves a handler: as it is, or as a 400.\<close>

definition pass :: "('d, 'a) action \<Rightarrow> ('d, 'a) handler" where
  "pass m = on_err PassThrough m"

definition invalidInput :: "(err, 'a) go \<Rightarrow> ('d, 'a) handler" where
  "invalidInput r = on_err BadRequest (lift r)"

definition check_service :: "'d broker \<Rightarrow> string \<Rightarrow> ('d, unit) handler" where
  "check_service b serviceID =
     require (serviceID = s_ServiceID (Service (bk_catalog b))) (BadRequest (UnknownServiceId serviceID))"

definition Broker_plan :: "'d broker \<Rightarrow> string \<Rightarrow> ('d, plan) handler" where
  "Broker_plan b planID = (case List.find (\<lambda>p. p_ID p = planID) (Plans (bk_catalog b)) of
      Some p \<Rightarrow> ret p
    | None \<Rightarrow> fail (BadRequest (UnknownPlanId planID)))"

text \<open>A slice out of range in \<open>NamesFor\<close> or \<open>UserFor\<close> is a panic.\<close>

definition Broker_names :: "'d broker \<Rightarrow> string \<Rightarrow> string \<Rightarrow> ('d, names) handler" where
  "Broker_names b instanceID name = lift (go_of_option (NamesFor instanceID (NamePrefix (bk_cfg b)) name))"

definition Broker_user :: "'d broker \<Rightarrow> string \<Rightarrow> string \<Rightarrow> ('d, string) handler" where
  "Broker_user b bindingID name = lift (go_of_option (UserFor bindingID (NamePrefix (bk_cfg b)) name))"

definition mapAdminError :: "api_err \<Rightarrow> err \<Rightarrow> api_err" where
  "mapAdminError conflict e = (case e of AlreadyExists table name \<Rightarrow> conflict | _ \<Rightarrow> PassThrough e)"

definition uri_for :: "config \<Rightarrow> string \<Rightarrow> string \<Rightarrow> string \<Rightarrow> string" where
  "uri_for c database username password =
     ''postgresql://'' @ url_escape QueryComponent username @ '':'' @ url_escape QueryComponent password
     @ ''@'' @ DBHost c @ '':'' @ int_text (DBPort c) @ ''/'' @ database
     @ (if DBSSLMode c \<noteq> ''disable'' then ''?sslmode='' @ url_escape QueryComponent (DBSSLMode c) else [])"

definition credentials :: "'d broker \<Rightarrow> string \<Rightarrow> string \<Rightarrow> string \<Rightarrow> (string \<times> string) list" where
  "credentials b database username password =
     (let c = bk_cfg b in
      [(''uri'', uri_for c database username password),
       (''hostname'', DBHost c),
       (''port'', int_text (DBPort c)),
       (''database'', database),
       (''username'', username),
       (''password'', password),
       (''sslmode'', DBSSLMode c)])"

section \<open>Handlers\<close>

definition Broker_Services :: "'d broker \<Rightarrow> ('d, service list) handler" where
  "Broker_Services b = ret (Catalog (bk_catalog b))"

text \<open>The response of \<open>Provision\<close> is its \<open>AlreadyExists\<close>.\<close>

definition Broker_Provision :: "'d broker \<Rightarrow> string \<Rightarrow> ProvisionDetails \<Rightarrow> ('d, bool) handler" where
  "Broker_Provision b instanceID details =
     seq (check_service b (pd_ServiceID details)) (\<lambda>_.
     seq (Broker_plan b (pd_PlanID details)) (\<lambda>plan.
     seq (invalidInput (parseParams (bk_validate b) (instanceSchema plan) (pd_RawParameters details))) (\<lambda>params.
     seq (invalidInput (ResolveInstanceParams plan params)) (\<lambda>spec.
     seq (pass (GetInstance (bk_store b) instanceID)) (\<lambda>existing.
     case existing of
       Some i \<Rightarrow> if ir_PlanID i = p_ID plan \<and> ir_Params i = spec then ret True
                 else fail ErrInstanceAlreadyExists
     | None \<Rightarrow>
         seq (Broker_names b instanceID (ip_Name spec)) (\<lambda>nms.
         seq (on_err (mapAdminError ErrInstanceAlreadyExists) (Admin_Provision (bk_admin b) nms spec)) (\<lambda>_.
         seq (pass (PutInstance (bk_store b) instanceID
               \<lparr>ir_InstanceID = [], ir_ServiceID = s_ServiceID (Service (bk_catalog b)), ir_PlanID = p_ID plan,
                ir_Database = n_Database nms, ir_Params = spec\<rparr>)) (\<lambda>_.
         ret False))))))))"

definition Broker_Update :: "'d broker \<Rightarrow> string \<Rightarrow> UpdateDetails \<Rightarrow> ('d, unit) handler" where
  "Broker_Update b instanceID details =
     seq (check_service b (ud_ServiceID details)) (\<lambda>_.
     seq (pass (GetInstance (bk_store b) instanceID)) (\<lambda>existing.
     case existing of
       None \<Rightarrow> fail ErrInstanceNotFound
     | Some i \<Rightarrow>
         seq (require (ud_PlanID details = [] \<or> ud_PlanID details = ir_PlanID i) ErrPlanChangeNotSupported) (\<lambda>_.
         seq (Broker_plan b (ir_PlanID i)) (\<lambda>plan.
         seq (invalidInput (parseParams (bk_validate b) (updatableSchema plan) (ud_RawParameters details))) (\<lambda>params.
         seq (invalidInput (ResolveInstanceParams plan params)) (\<lambda>requested.
         let i' = i\<lparr>ir_Params := (ir_Params i)\<lparr>ip_MaxConnections := ip_MaxConnections requested,
                                            ip_StorageGB := ip_StorageGB requested\<rparr>\<rparr> in
         seq (Broker_names b instanceID (ip_Name (ir_Params i'))) (\<lambda>nms.
         seq (pass (Admin_Update (bk_admin b) nms (ir_Params i'))) (\<lambda>_.
         pass (PutInstance (bk_store b) instanceID i')))))))))"

definition Broker_Deprovision :: "'d broker \<Rightarrow> string \<Rightarrow> string \<Rightarrow> ('d, unit) handler" where
  "Broker_Deprovision b instanceID serviceID =
     seq (check_service b serviceID) (\<lambda>_.
     seq (pass (GetInstance (bk_store b) instanceID)) (\<lambda>instance.
     case instance of
       None \<Rightarrow> fail ErrInstanceNotFound
     | Some i \<Rightarrow>
         seq (pass (BindingsForInstance (bk_store b) instanceID)) (\<lambda>bindings.
         seq (require (bindings = []) (BadRequest StillHasBindings)) (\<lambda>_.
         seq (Broker_names b instanceID (ip_Name (ir_Params i))) (\<lambda>nms.
         seq (pass (Admin_Deprovision (bk_admin b) nms)) (\<lambda>_.
         pass (DeleteInstance (bk_store b) instanceID)))))))"

definition Broker_Bind :: "'d broker \<Rightarrow> string \<Rightarrow> string \<Rightarrow> BindDetails \<Rightarrow> ('d, Binding) handler" where
  "Broker_Bind b instanceID bindingID details =
     seq (check_service b (bd_ServiceID details)) (\<lambda>_.
     seq (pass (GetInstance (bk_store b) instanceID)) (\<lambda>instance.
     case instance of
       None \<Rightarrow> fail ErrInstanceNotFound
     | Some i \<Rightarrow>
         seq (invalidInput (parseParams (bk_validate b) bindingSchema (bd_RawParameters details))) (\<lambda>params.
         let spec = binding_spec params in
         seq (pass (GetBinding (bk_store b) bindingID)) (\<lambda>existing.
         case existing of
           Some e \<Rightarrow> if bi_InstanceID e = instanceID \<and> bi_Params e = spec
                     then ret \<lparr>b_AlreadyExists = True, b_Credentials = bi_Credentials e\<rparr>
                     else fail ErrBindingAlreadyExists
         | None \<Rightarrow>
             seq (Broker_names b instanceID (ip_Name (ir_Params i))) (\<lambda>nms.
             seq (Broker_user b bindingID (bp_Name spec)) (\<lambda>username.
             seq (on_err (mapAdminError ErrBindingAlreadyExists) (Admin_Bind (bk_admin b) nms username)) (\<lambda>password.
             let creds = credentials b (n_Database nms) username password in
             seq (pass (PutBinding (bk_store b) bindingID username instanceID spec creds)) (\<lambda>_.
             ret \<lparr>b_AlreadyExists = False, b_Credentials = map_of creds\<rparr>))))))))"

definition Broker_Unbind :: "'d broker \<Rightarrow> string \<Rightarrow> string \<Rightarrow> string \<Rightarrow> ('d, unit) handler" where
  "Broker_Unbind b instanceID bindingID serviceID =
     seq (check_service b serviceID) (\<lambda>_.
     seq (pass (GetInstance (bk_store b) instanceID)) (\<lambda>instance.
     seq (pass (GetBinding (bk_store b) bindingID)) (\<lambda>binding.
     case (instance, binding) of
       (Some i, Some e) \<Rightarrow>
         seq (require (bi_InstanceID e = instanceID) ErrBindingNotFound) (\<lambda>_.
         seq (Broker_names b instanceID (ip_Name (ir_Params i))) (\<lambda>nms.
         seq (pass (Admin_Unbind (bk_admin b) nms (bi_Username e))) (\<lambda>_.
         pass (DeleteBinding (bk_store b) bindingID))))
     | _ \<Rightarrow> fail ErrBindingNotFound)))"

definition Broker_GetInstance :: "'d broker \<Rightarrow> string \<Rightarrow> ('d, GetInstanceDetailsSpec) handler" where
  "Broker_GetInstance b instanceID =
     seq (pass (GetInstance (bk_store b) instanceID)) (\<lambda>instance. case instance of
       None \<Rightarrow> fail ErrInstanceNotFound
     | Some i \<Rightarrow> ret \<lparr>gi_ServiceID = ir_ServiceID i, gi_PlanID = ir_PlanID i, gi_Parameters = ir_Params i\<rparr>)"

definition Broker_GetBinding :: "'d broker \<Rightarrow> string \<Rightarrow> string \<Rightarrow> ('d, GetBindingSpec) handler" where
  "Broker_GetBinding b instanceID bindingID =
     seq (pass (GetBinding (bk_store b) bindingID)) (\<lambda>binding. case binding of
       None \<Rightarrow> fail ErrBindingNotFound
     | Some e \<Rightarrow> ret \<lparr>gb_Credentials = bi_Credentials e, gb_Parameters = bi_Params e\<rparr>)"

definition synchronous :: LastOperation where
  "synchronous = \<lparr>lo_State = Succeeded, lo_Description = ''synchronous operation''\<rparr>"

definition Broker_LastOperation :: "'d broker \<Rightarrow> string \<Rightarrow> ('d, LastOperation) handler" where
  "Broker_LastOperation b instanceID =
     seq (pass (GetInstance (bk_store b) instanceID)) (\<lambda>instance. case instance of
       None \<Rightarrow> fail ErrInstanceNotFound
     | Some i \<Rightarrow> ret synchronous)"

definition Broker_LastBindingOperation :: "'d broker \<Rightarrow> string \<Rightarrow> string \<Rightarrow> ('d, LastOperation) handler" where
  "Broker_LastBindingOperation b instanceID bindingID =
     seq (pass (GetBinding (bk_store b) bindingID)) (\<lambda>binding. case binding of
       None \<Rightarrow> fail ErrBindingNotFound
     | Some e \<Rightarrow> ret synchronous)"

section \<open>Evaluating handlers\<close>

lemma seq_cases:
  assumes "seq m f w = (r, w')"
  obtains (ok) x w1 where "m w = (Ok x, w1)" and "f x w1 = (r, w')"
    | (err) e where "m w = (Err e, w')" and "r = Err e"
    | (panic) "m w = (Panic, w')" and "r = Panic"
proof (cases "m w")
  case (Pair r1 w1)
  then show thesis using assms ok err panic by (cases r1) (auto simp: seq_def)
qed

lemma require_apply [simp]: "require c e w = (if c then Ok () else Err e, w)"
  by (simp add: require_def)

lemma invalidInput_apply [simp]: "invalidInput r w = (map_err BadRequest r, w)"
  by (simp add: invalidInput_def on_err_def)

lemma pass_apply: "pass m w = (case m w of (r, w') \<Rightarrow> (map_err PassThrough r, w'))"
  by (simp add: pass_def on_err_def)

lemma check_service_apply:
  "check_service b sid w = (if sid = s_ServiceID (Service (bk_catalog b)) then Ok ()
     else Err (BadRequest (UnknownServiceId sid)), w)"
  by (simp add: check_service_def)

lemma check_service_then:
  "sid = s_ServiceID (Service (bk_catalog b)) \<Longrightarrow> seq (check_service b sid) f w = f () w"
  "sid \<noteq> s_ServiceID (Service (bk_catalog b)) \<Longrightarrow>
     seq (check_service b sid) f w = (Err (BadRequest (UnknownServiceId sid)), w)"
  by (simp_all add: seq_def check_service_apply)

lemma Broker_plan_apply:
  "Broker_plan b pid w = (case List.find (\<lambda>p. p_ID p = pid) (Plans (bk_catalog b)) of
     Some p \<Rightarrow> Ok p | None \<Rightarrow> Err (BadRequest (UnknownPlanId pid)), w)"
  by (simp add: Broker_plan_def split: option.splits)

lemma Broker_names_apply [simp]:
  "Broker_names b iid name w = (go_of_option (NamesFor iid (NamePrefix (bk_cfg b)) name), w)"
  by (simp add: Broker_names_def)

lemma Broker_user_apply [simp]:
  "Broker_user b bid name w = (go_of_option (UserFor bid (NamePrefix (bk_cfg b)) name), w)"
  by (simp add: Broker_user_def)

text \<open>
  The requests a handler goes on with, and what it has read from them: the checks of the code
  as one predicate each.
\<close>

definition provision_request :: "'d broker \<Rightarrow> ProvisionDetails \<Rightarrow> plan \<Rightarrow> InstanceParams \<Rightarrow> bool" where
  "provision_request b d p spec \<longleftrightarrow> pd_ServiceID d = s_ServiceID (Service (bk_catalog b))
     \<and> List.find (\<lambda>p. p_ID p = pd_PlanID d) (Plans (bk_catalog b)) = Some p
     \<and> (\<exists>params. parseParams (bk_validate b) (instanceSchema p) (pd_RawParameters d) = Ok params
          \<and> ResolveInstanceParams p params = Ok spec)"

definition update_request :: "'d broker \<Rightarrow> UpdateDetails \<Rightarrow> InstanceRecord \<Rightarrow> InstanceRecord \<Rightarrow> bool" where
  "update_request b d i i' \<longleftrightarrow> ud_ServiceID d = s_ServiceID (Service (bk_catalog b))
     \<and> (ud_PlanID d = [] \<or> ud_PlanID d = ir_PlanID i)
     \<and> (\<exists>p params requested. List.find (\<lambda>p. p_ID p = ir_PlanID i) (Plans (bk_catalog b)) = Some p
          \<and> parseParams (bk_validate b) (updatableSchema p) (ud_RawParameters d) = Ok params
          \<and> ResolveInstanceParams p params = Ok requested
          \<and> i' = i\<lparr>ir_Params := (ir_Params i)\<lparr>ip_MaxConnections := ip_MaxConnections requested,
                                            ip_StorageGB := ip_StorageGB requested\<rparr>\<rparr>)"

definition bind_request :: "'d broker \<Rightarrow> BindDetails \<Rightarrow> BindingParams \<Rightarrow> bool" where
  "bind_request b d spec \<longleftrightarrow> bd_ServiceID d = s_ServiceID (Service (bk_catalog b))
     \<and> (\<exists>params. parseParams (bk_validate b) bindingSchema (bd_RawParameters d) = Ok params
          \<and> spec = binding_spec params)"

section \<open>The parts the broker is wired to\<close>

context admin_contract
begin

lemma keeps_store_parts:
  "keeps (\<lambda>w. w_store w = d) (execTemplate a rel t v)" "keeps (\<lambda>w. w_store w = d) (ensureAbsent a tb c n)"
  "keeps (\<lambda>w. w_store w = d) (draw_password :: ('d, string) action)"
proof -
  have "keeps (\<lambda>w. w_store w = d) (db_Exec (a_db a) t ss)" for t ss
    by (rule keepsI) (simp add: exec_frame)
  then show "keeps (\<lambda>w. w_store w = d) (execTemplate a rel t v)"
    by (simp add: execTemplate_def keeps_seq)
  have "keeps (\<lambda>w. w_store w = d) (db_Exists (a_db a) tb c n)"
    by (rule keepsI) (metis exists_law prod.collapse)
  then show "keeps (\<lambda>w. w_store w = d) (ensureAbsent a tb c n)"
    by (simp add: ensureAbsent_def keeps_seq)
  show "keeps (\<lambda>w. w_store w = d) (draw_password :: ('d, string) action)"
    by (rule keepsI) (auto simp: draw_password_def split: option.splits)
qed

lemma keeps_rollback: "keeps P m \<Longrightarrow> keeps P c \<Longrightarrow> keeps P (or_rollback m c)"
  by (fastforce simp: keeps_def or_rollback_def split: prod.splits go.splits)

text \<open>No operation on the database objects touches the state database.\<close>

lemma admin_keeps_store:
  "keeps (\<lambda>w. w_store w = d) (Admin_Deprovision a nms)" "keeps (\<lambda>w. w_store w = d) (Admin_Update a nms spec)"
  "keeps (\<lambda>w. w_store w = d) (Admin_Unbind a nms user)" "keeps (\<lambda>w. w_store w = d) (Admin_Provision a nms spec)"
  "keeps (\<lambda>w. w_store w = d) (Admin_Bind a nms user)"
  by (simp_all add: Admin_Deprovision_def Admin_Update_def Admin_Unbind_def Admin_Provision_def Admin_Bind_def
      Let_def keeps_seq keeps_rollback keeps_store_parts)

end

section \<open>The steps of the handlers\<close>

definition new_instance :: "'d broker \<Rightarrow> plan \<Rightarrow> InstanceParams \<Rightarrow> names \<Rightarrow> InstanceRecord" where
  "new_instance b p spec nms = \<lparr>ir_InstanceID = [], ir_ServiceID = s_ServiceID (Service (bk_catalog b)),
     ir_PlanID = p_ID p, ir_Database = n_Database nms, ir_Params = spec\<rparr>"

text \<open>What each handler does once its request passed the checks.\<close>

definition do_provision :: "'d broker \<Rightarrow> string \<Rightarrow> plan \<Rightarrow> InstanceParams \<Rightarrow> ('d, bool) handler" where
  "do_provision b iid p spec =
     seq (Broker_names b iid (ip_Name spec)) (\<lambda>nms.
     seq (on_err (mapAdminError ErrInstanceAlreadyExists) (Admin_Provision (bk_admin b) nms spec)) (\<lambda>_.
     seq (pass (PutInstance (bk_store b) iid (new_instance b p spec nms))) (\<lambda>_.
     ret False)))"

definition do_update :: "'d broker \<Rightarrow> string \<Rightarrow> InstanceRecord \<Rightarrow> ('d, unit) handler" where
  "do_update b iid i' =
     seq (Broker_names b iid (ip_Name (ir_Params i'))) (\<lambda>nms.
     seq (pass (Admin_Update (bk_admin b) nms (ir_Params i'))) (\<lambda>_.
     pass (PutInstance (bk_store b) iid i')))"

definition do_deprovision :: "'d broker \<Rightarrow> string \<Rightarrow> InstanceRecord \<Rightarrow> ('d, unit) handler" where
  "do_deprovision b iid i =
     seq (Broker_names b iid (ip_Name (ir_Params i))) (\<lambda>nms.
     seq (pass (Admin_Deprovision (bk_admin b) nms)) (\<lambda>_.
     pass (DeleteInstance (bk_store b) iid)))"

definition do_bind :: "'d broker \<Rightarrow> string \<Rightarrow> string \<Rightarrow> InstanceRecord \<Rightarrow> BindingParams \<Rightarrow> ('d, Binding) handler" where
  "do_bind b iid bid i spec =
     seq (Broker_names b iid (ip_Name (ir_Params i))) (\<lambda>nms.
     seq (Broker_user b bid (bp_Name spec)) (\<lambda>username.
     seq (on_err (mapAdminError ErrBindingAlreadyExists) (Admin_Bind (bk_admin b) nms username)) (\<lambda>password.
     let creds = credentials b (n_Database nms) username password in
     seq (pass (PutBinding (bk_store b) bid username iid spec creds)) (\<lambda>_.
     ret \<lparr>b_AlreadyExists = False, b_Credentials = map_of creds\<rparr>))))"

definition do_unbind :: "'d broker \<Rightarrow> string \<Rightarrow> string \<Rightarrow> InstanceRecord \<Rightarrow> BindingInfo \<Rightarrow> ('d, unit) handler" where
  "do_unbind b iid bid i e =
     seq (Broker_names b iid (ip_Name (ir_Params i))) (\<lambda>nms.
     seq (pass (Admin_Unbind (bk_admin b) nms (bi_Username e))) (\<lambda>_.
     pass (DeleteBinding (bk_store b) bid)))"

text \<open>The checks that read the request alone.\<close>

lemma provision_checks:
  assumes "Broker_Provision b iid d w = (r, w')"
  obtains (reject) e where "r = Err (BadRequest e)" and "w' = w" and "\<nexists>p spec. provision_request b d p spec"
    | (go) p spec where "provision_request b d p spec"
      and "seq (pass (GetInstance (bk_store b) iid)) (\<lambda>existing. case existing of
         Some i \<Rightarrow> if ir_PlanID i = p_ID p \<and> ir_Params i = spec then ret True else fail ErrInstanceAlreadyExists
       | None \<Rightarrow> do_provision b iid p spec) w = (r, w')"
proof (cases "\<exists>p spec. provision_request b d p spec")
  case True
  then obtain p spec where ps: "provision_request b d p spec" by blast
  then show thesis using assms
    by (intro go [OF ps])
       (auto simp: Broker_Provision_def provision_request_def seq_def check_service_apply Broker_plan_apply
         do_provision_def new_instance_def cong: if_cong option.case_cong)
next
  case False
  then have "\<exists>e. (r, w') = (Err (BadRequest e), w)"
    using assms
    by (auto simp: Broker_Provision_def provision_request_def seq_def check_service_apply Broker_plan_apply
        split: if_splits option.splits go.splits)
  with False reject show thesis by blast
qed

lemma update_checks:
  assumes "seq (require (ud_PlanID d = [] \<or> ud_PlanID d = ir_PlanID i) ErrPlanChangeNotSupported) (\<lambda>_.
      seq (Broker_plan b (ir_PlanID i)) (\<lambda>plan.
      seq (invalidInput (parseParams (bk_validate b) (updatableSchema plan) (ud_RawParameters d))) (\<lambda>params.
      seq (invalidInput (ResolveInstanceParams plan params)) (\<lambda>requested.
      let i' = i\<lparr>ir_Params := (ir_Params i)\<lparr>ip_MaxConnections := ip_MaxConnections requested,
                                         ip_StorageGB := ip_StorageGB requested\<rparr>\<rparr> in
      seq (Broker_names b iid (ip_Name (ir_Params i'))) (\<lambda>nms.
      seq (pass (Admin_Update (bk_admin b) nms (ir_Params i'))) (\<lambda>_.
      pass (PutInstance (bk_store b) iid i'))))))) w = (r, w')"
    and "ud_ServiceID d = s_ServiceID (Service (bk_catalog b))"
  obtains (reject) e where "r = Err e" and "e = ErrPlanChangeNotSupported \<or> (\<exists>m. e = BadRequest m)" and "w' = w"
      and "\<nexists>i'. update_request b d i i'"
    | (go) i' where "update_request b d i i'" and "do_update b iid i' w = (r, w')"
proof (cases "\<exists>i'. update_request b d i i'")
  case True
  then obtain i' where i': "update_request b d i i'" by blast
  then show thesis using assms(1)
    by (intro go [OF i'])
       (auto simp: update_request_def seq_def Broker_plan_apply do_update_def Let_def cong: if_cong option.case_cong)
next
  case False
  then have "\<exists>e. (r, w') = (Err e, w) \<and> (e = ErrPlanChangeNotSupported \<or> (\<exists>m. e = BadRequest m))"
    using assms
    by (auto simp: update_request_def seq_def Broker_plan_apply Let_def
        split: if_splits option.splits go.splits)
  with False reject show thesis by blast
qed

text \<open>The repeated read-and-decide of the handlers, over the contract of the store.\<close>

locale broker_parts = store_contract "bk_store b" insts binds + admin_contract "bk_admin b" target
  for b :: "'d broker" and insts :: "'d \<Rightarrow> string \<rightharpoonup> InstanceRecord"
    and binds :: "'d \<Rightarrow> string \<rightharpoonup> BindingRecord" and target :: "string \<Rightarrow> string"
begin

lemma read_instance:
  assumes "seq (pass (GetInstance (bk_store b) iid)) f w = (r, w')"
  obtains (err) e where "r = Err (PassThrough e)" and "same_tables insts binds w w'"
    | (go) w1 where "same_tables insts binds w w1" and "f (insts (w_store w) iid) w1 = (r, w')"
proof -
  obtain x w1 where x: "GetInstance (bk_store b) iid w = (x, w1)" by fastforce
  note law = get_instance [OF x]
  show thesis
    using assms law err go by (cases x) (auto simp: seq_def pass_apply x)
qed

lemma read_binding:
  assumes "seq (pass (GetBinding (bk_store b) bid)) f w = (r, w')"
  obtains (err) e where "r = Err (PassThrough e)" and "same_tables insts binds w w'"
    | (none) w1 where "same_tables insts binds w w1" and "binds (w_store w) bid = None" and "f None w1 = (r, w')"
    | (some) w1 v e where "same_tables insts binds w w1" and "binds (w_store w) bid = Some v"
        and "binding_info (bk_store b) v = Ok e" and "f (Some e) w1 = (r, w')"
proof -
  obtain x w1 where x: "GetBinding (bk_store b) bid w = (x, w1)" by fastforce
  note law = get_binding [OF x]
  show thesis
  proof (cases x)
    case (Ok v)
    then have f: "f v w1 = (r, w')" using assms by (simp add: seq_def pass_apply x)
    show thesis
    proof (cases v)
      case None
      then show thesis using none law Ok f by blast
    next
      case (Some e)
      then obtain v' where "binds (w_store w) bid = Some v'" "binding_info (bk_store b) v' = Ok e"
        using law Ok by blast
      then show thesis using some law Some f by blast
    qed
  qed (use assms law err in \<open>auto simp: seq_def pass_apply x\<close>)
qed

lemma list_bindings:
  assumes "seq (pass (BindingsForInstance (bk_store b) iid)) f w = (r, w')"
  obtains (err) e where "r = Err (PassThrough e)" and "same_tables insts binds w w'"
    | (go) w1 infos where "same_tables insts binds w w1" and "f infos w1 = (r, w')"
        and "infos = [] \<longleftrightarrow> (\<forall>v\<in>ran (binds (w_store w)). br_InstanceID v \<noteq> iid)"
proof -
  obtain x w1 where x: "BindingsForInstance (bk_store b) iid w = (x, w1)" by fastforce
  note law = bindings_for [OF x]
  show thesis
    using assms law err go by (cases x) (auto simp: seq_def pass_apply x)
qed

lemma same_refl [simp]: "same_tables insts binds w w"
  by (simp add: same_tables_def)

lemma same_trans: "same_tables insts binds w w1 \<Longrightarrow> same_tables insts binds w1 w2 \<Longrightarrow> same_tables insts binds w w2"
  by (simp add: same_tables_def)

text \<open>
  Every mutating handler ends in its checks, having changed nothing and sent nothing, or goes
  on with a request that passed them, in a world with the same tables.
\<close>

lemma provision_steps:
  assumes "Broker_Provision b iid d w = (r, w')"
  obtains (reject) e where "r = Err (BadRequest e)" and "w' = w" and "\<nexists>p spec. provision_request b d p spec"
    | (unread) e where "r = Err (PassThrough e)" and "same_tables insts binds w w'"
    | (known) p spec i where "provision_request b d p spec" and "insts (w_store w) iid = Some i"
        and "same_tables insts binds w w'"
        and "r = (if ir_PlanID i = p_ID p \<and> ir_Params i = spec then Ok True else Err ErrInstanceAlreadyExists)"
    | (go) p spec w1 where "provision_request b d p spec" and "insts (w_store w) iid = None"
        and "same_tables insts binds w w1" and "do_provision b iid p spec w1 = (r, w')"
  using assms
proof (cases rule: provision_checks)
  case (go p spec)
  note ps = this
  from ps(2) show thesis
  proof (cases rule: read_instance)
    case (go w1)
    then show thesis using ps that(3,4) by (cases "insts (w_store w) iid") (auto split: if_splits)
  qed (use that in blast)
qed (use that in blast)

lemma update_steps:
  assumes "Broker_Update b iid d w = (r, w')"
  obtains (foreign) "r = Err (BadRequest (UnknownServiceId (ud_ServiceID d)))" and "w' = w"
        and "ud_ServiceID d \<noteq> s_ServiceID (Service (bk_catalog b))"
    | (unread) e where "r = Err (PassThrough e)" and "same_tables insts binds w w'"
    | (unknown) "r = Err ErrInstanceNotFound" and "same_tables insts binds w w'" and "insts (w_store w) iid = None"
    | (reject) i e where "insts (w_store w) iid = Some i" and "same_tables insts binds w w'" and "r = Err e"
        and "e = ErrPlanChangeNotSupported \<or> (\<exists>m. e = BadRequest m)" and "\<nexists>i'. update_request b d i i'"
    | (go) i i' w1 where "update_request b d i i'" and "insts (w_store w) iid = Some i"
        and "same_tables insts binds w w1" and "do_update b iid i' w1 = (r, w')"
proof (cases "ud_ServiceID d = s_ServiceID (Service (bk_catalog b))")
  case True
  from assms [unfolded Broker_Update_def check_service_then(1) [OF this]]
  show thesis
  proof (cases rule: read_instance)
    case (go w1)
    show thesis
    proof (cases "insts (w_store w) iid")
      case None
      then show thesis using go that(3) by auto
    next
      case (Some i)
      from go(2) [unfolded Some option.case] True show thesis
        by (rule update_checks) (use go(1) Some that(4,5) in auto)
    qed
  qed (use that in blast)
next
  case False
  then show thesis using assms that(1) by (auto simp: Broker_Update_def check_service_then(2))
qed

lemma deprovision_steps:
  assumes "Broker_Deprovision b iid sid w = (r, w')"
  obtains (foreign) "r = Err (BadRequest (UnknownServiceId sid))" and "w' = w"
    | (unread) e where "r = Err (PassThrough e)" and "same_tables insts binds w w'"
    | (unknown) "r = Err ErrInstanceNotFound" and "same_tables insts binds w w'" and "insts (w_store w) iid = None"
    | (bound) "r = Err (BadRequest StillHasBindings)" and "same_tables insts binds w w'"
        and "\<exists>v\<in>ran (binds (w_store w)). br_InstanceID v = iid"
    | (go) i w1 where "insts (w_store w) iid = Some i" and "\<forall>v\<in>ran (binds (w_store w)). br_InstanceID v \<noteq> iid"
        and "same_tables insts binds w w1" and "do_deprovision b iid i w1 = (r, w')"
proof (cases "sid = s_ServiceID (Service (bk_catalog b))")
  case True
  from assms [unfolded Broker_Deprovision_def check_service_then(1) [OF this]]
  show thesis
  proof (cases rule: read_instance)
    case (go w1)
    show thesis
    proof (cases "insts (w_store w) iid")
      case None
      then show thesis using go that(3) by auto
    next
      case (Some i)
      have tables: "binds (w_store w1) = binds (w_store w)" using go(1) by (simp add: same_tables_def)
      from go(2) [unfolded Some option.case] show thesis
      proof (cases rule: list_bindings)
        case (err e)
        then show thesis using that(2) same_trans go(1) by blast
      next
        case (go w2 infos)
        note same = same_trans [OF \<open>same_tables insts binds w w1\<close> go(1)]
        show thesis
        proof (cases "infos = []")
          case True
          then have "do_deprovision b iid i w2 = (r, w')"
            using go(2) by (simp add: seq_def do_deprovision_def)
          then show thesis using that(5) Some same go(3) True tables by auto
        next
          case False
          then have "r = Err (BadRequest StillHasBindings)" "w' = w2" using go(2) by (auto simp: seq_def)
          then show thesis using that(4) same go(3) False tables by auto
        qed
      qed
    qed
  qed (use that in blast)
next
  case False
  then show thesis using assms that(1) by (auto simp: Broker_Deprovision_def check_service_then(2))
qed

lemma bind_steps:
  assumes "Broker_Bind b iid bid d w = (r, w')"
  obtains (reject) e where "r = Err (BadRequest e)" and "same_tables insts binds w w'" and "\<nexists>spec. bind_request b d spec"
    | (unread) e where "r = Err (PassThrough e)" and "same_tables insts binds w w'"
    | (unknown) "r = Err ErrInstanceNotFound" and "same_tables insts binds w w'" and "insts (w_store w) iid = None"
    | (known) spec i v e where "bind_request b d spec" and "insts (w_store w) iid = Some i"
        and "same_tables insts binds w w'" and "binds (w_store w) bid = Some v" and "binding_info (bk_store b) v = Ok e"
        and "r = (if bi_InstanceID e = iid \<and> bi_Params e = spec
               then Ok \<lparr>b_AlreadyExists = True, b_Credentials = bi_Credentials e\<rparr> else Err ErrBindingAlreadyExists)"
    | (go) spec i w1 where "bind_request b d spec" and "insts (w_store w) iid = Some i"
        and "binds (w_store w) bid = None" and "same_tables insts binds w w1" and "do_bind b iid bid i spec w1 = (r, w')"
proof (cases "bd_ServiceID d = s_ServiceID (Service (bk_catalog b))")
  case True
  from assms [unfolded Broker_Bind_def check_service_then(1) [OF this]]
  show thesis
  proof (cases rule: read_instance)
    case (go w1)
    note w1 = go
    show thesis
    proof (cases "insts (w_store w) iid")
      case None
      then show thesis using go that(3) by auto
    next
      case (Some i)
      have tables: "binds (w_store w1) = binds (w_store w)" using go(1) by (simp add: same_tables_def)
      show thesis
      proof (cases "parseParams (bk_validate b) bindingSchema (bd_RawParameters d)")
        case (Ok params)
        define spec where "spec = binding_spec params"
        have spec: "bind_request b d spec" using True Ok by (auto simp: bind_request_def spec_def)
        have "seq (pass (GetBinding (bk_store b) bid)) (\<lambda>existing. case existing of
           Some e \<Rightarrow> if bi_InstanceID e = iid \<and> bi_Params e = spec
                     then ret \<lparr>b_AlreadyExists = True, b_Credentials = bi_Credentials e\<rparr>
                     else fail ErrBindingAlreadyExists
         | None \<Rightarrow> do_bind b iid bid i spec) w1 = (r, w')"
          unfolding do_bind_def spec_def Let_def
          using go(2) [unfolded Let_def] Some Ok by (simp add: seq_def [of "invalidInput _"])
        then show thesis
        proof (cases rule: read_binding)
          case (err e)
          then show thesis using that(2) same_trans w1(1) by blast
        next
          case (none w2)
          then show thesis using that(5) [OF spec Some _ same_trans [OF w1(1)]] tables by simp
        next
          case (some w2 v e)
          have "w' = w2" using some(4) by (simp split: if_splits)
          then show thesis using that(4) [OF spec Some same_trans [OF w1(1)], of v e] some tables
            by (simp split: if_splits)
        qed
      next
        case (Err e)
        then have "r = Err (BadRequest e)" "w' = w1" using go(2) Some by (auto simp: seq_def)
        then show thesis using that(1) w1(1) Err by (auto simp: bind_request_def)
      qed simp
    qed
  qed (use that in blast)
next
  case False
  then show thesis using assms that(1) by (auto simp: Broker_Bind_def check_service_then(2) bind_request_def)
qed

lemma unbind_steps:
  assumes "Broker_Unbind b iid bid sid w = (r, w')"
  obtains (foreign) "r = Err (BadRequest (UnknownServiceId sid))" and "w' = w"
    | (unread) e where "r = Err (PassThrough e)" and "same_tables insts binds w w'"
    | (unknown) "r = Err ErrBindingNotFound" and "same_tables insts binds w w'"
        and "insts (w_store w) iid = None \<or> binds (w_store w) bid = None
           \<or> (\<exists>v. binds (w_store w) bid = Some v \<and> br_InstanceID v \<noteq> iid)"
    | (go) i v e w1 where "insts (w_store w) iid = Some i" and "binds (w_store w) bid = Some v"
        and "br_InstanceID v = iid" and "binding_info (bk_store b) v = Ok e"
        and "same_tables insts binds w w1" and "do_unbind b iid bid i e w1 = (r, w')"
proof (cases "sid = s_ServiceID (Service (bk_catalog b))")
  case True
  from assms [unfolded Broker_Unbind_def check_service_then(1) [OF this]]
  show thesis
  proof (cases rule: read_instance)
    case (go w1)
    note w1 = go
    have tables: "binds (w_store w1) = binds (w_store w)" using go(1) by (simp add: same_tables_def)
    from go(2) show thesis
    proof (cases rule: read_binding)
      case (err e)
      then show thesis using that(2) same_trans w1(1) by blast
    next
      case (none w2)
      then have "r = Err ErrBindingNotFound" "w' = w2" by (auto split: option.splits)
      then show thesis using that(3) same_trans [OF w1(1) none(1)] none(2) tables by auto
    next
      case (some w2 v e)
      have iid: "bi_InstanceID e = br_InstanceID v" using some(3) by (auto simp: binding_info_def)
      show thesis
      proof (cases "insts (w_store w) iid")
        case None
        then have "r = Err ErrBindingNotFound" "w' = w2" using some(4) by auto
        then show thesis using that(3) same_trans [OF w1(1) some(1)] None by auto
      next
        case (Some i)
        show thesis
        proof (cases "br_InstanceID v = iid")
          case True
          then have "do_unbind b iid bid i e w2 = (r, w')"
            using some(4) Some iid by (simp add: seq_def [of "require _ _"] do_unbind_def)
          then show thesis using that(4) Some some(2,3) True same_trans [OF w1(1) some(1)] tables by auto
        next
          case False
          then have "r = Err ErrBindingNotFound" "w' = w2" using some(4) Some iid by (auto simp: seq_def)
          then show thesis using that(3) same_trans [OF w1(1) some(1)] some(2) False tables by auto
        qed
      qed
    qed
  qed (use that in blast)
next
  case False
  then show thesis using assms that(1) by (auto simp: Broker_Unbind_def check_service_then(2))
qed

end

section \<open>The effects of the handlers\<close>

lemma names_of_prefix:
  assumes "namePrefixPattern pre"
  shows "\<exists>nms. NamesFor iid pre cn = Some nms" and "NamesFor iid pre cn = Some nms \<Longrightarrow> clean_names nms"
    and "\<exists>u. UserFor bid pre cn = Some u" and "UserFor bid pre cn = Some u \<Longrightarrow> list_all name_char u"
proof -
  have len: "length pre \<le> 30" and chars: "list_all name_char pre"
    using assms by (simp_all add: namePrefixPattern_length namePrefixPattern_chars)
  have suffixes: "list_all name_char ''_'' \<and> list_all name_char ''u_'' \<and> list_all name_char ''_grp''
      \<and> list_all name_char ''_ts''" by (simp add: name_char_def class_codes)
  show "\<exists>nms. NamesFor iid pre cn = Some nms" using len by (intro NamesFor_returns) simp
  show "\<exists>u. UserFor bid pre cn = Some u" using len by (intro UserFor_returns) simp
  show "NamesFor iid pre cn = Some nms \<Longrightarrow> clean_names nms"
    using suffixes chars by (elim NamesFor_cases) (auto simp: clean_names_def)
  show "UserFor bid pre cn = Some u \<Longrightarrow> list_all name_char u"
    using suffixes chars by (elim UserFor_cases) auto
qed

text \<open>A database operation, then the write that records it.\<close>

lemma run_then_write:
  assumes run: "seq (pass m) (\<lambda>_. pass n) w = (r, w')" and "runs tr m"
  obtains (failed) k e where "r = Err (PassThrough e)" and "driver_error e"
        and "accepted w' = accepted w @ take k tr" and "w_store w' = w_store w" and "k < length tr"
    | (ran) w1 u where "w_store w1 = w_store w" and "accepted w1 = accepted w @ tr"
        and "n w1 = (u, w')" and "r = map_err PassThrough u"
proof -
  obtain x w1 where m: "m w = (x, w1)" by fastforce
  obtain u w2 where n: "n w1 = (u, w2)" by fastforce
  from runsD [OF assms(2) m] consider (all) "is_ok x" "accepted w1 = accepted w @ tr" "w_store w1 = w_store w"
    | (part) k e where "k < length tr" "x = Err e" "driver_error e" "accepted w1 = accepted w @ take k tr"
        "w_store w1 = w_store w"
    by blast
  then show thesis
  proof cases
    case all
    then obtain a where "x = Ok a" by (auto simp: is_ok_iff)
    then have "r = map_err PassThrough u" "w2 = w'" using run by (simp_all add: seq_def pass_apply m n)
    then show thesis using ran all n by blast
  next
    case part
    then have "r = Err (PassThrough e)" "w' = w1" using run by (simp_all add: seq_def pass_apply m)
    then show thesis using failed part by blast
  qed
qed

lemma mapAdminError_driver: "driver_error e \<Longrightarrow> mapAdminError c e = PassThrough e"
  by (auto simp: mapAdminError_def driver_error_def)

lemma mapAdminError_exists: "mapAdminError c (AlreadyExists t n) = c"
  by (simp add: mapAdminError_def)

lemma mapAdminError_guard: "guard_error e \<Longrightarrow> mapAdminError c e = c \<or> (mapAdminError c e = PassThrough e \<and> driver_error e)"
  by (auto simp: guard_error_def mapAdminError_driver mapAdminError_exists)

text \<open>
  A running broker: its store and admin keep their contracts, its configuration was validated,
  and its SQL is the intended one.
\<close>

definition broker_ok :: "'d broker \<Rightarrow> bool" where
  "broker_ok b \<longleftrightarrow> namePrefixPattern (NamePrefix (bk_cfg b)) \<and> admin_ready (bk_admin b)
     \<and> list_all exact_quotas (Plans (bk_catalog b))
     \<and> list_all is_ascii (DBHost (bk_cfg b)) \<and> list_all is_ascii (DBSSLMode (bk_cfg b))"

lemma provision_request_within:
  assumes "broker_ok b" and "provision_request b d p spec"
  shows "p \<in> set (Plans (bk_catalog b))" and "within_plan p spec" and "p_ID p = pd_PlanID d"
proof -
  have p: "p \<in> set (Plans (bk_catalog b)) \<and> p_ID p = pd_PlanID d"
    using assms(2) find_Some_iff_mem by (force simp: provision_request_def)
  then have "exact_quotas p" using assms(1) by (auto simp: broker_ok_def list_all_iff)
  then show "within_plan p spec" using assms(2) ResolveInstanceParams_within by (auto simp: provision_request_def)
  show "p \<in> set (Plans (bk_catalog b))" "p_ID p = pd_PlanID d" using p by simp_all
qed

context broker_parts
begin

lemma do_provision_steps:
  assumes run: "do_provision b iid p spec w = (r, w')" and ok: "broker_ok b" and "clean_spec spec"
  obtains (recorded) nms pw where "NamesFor iid (NamePrefix (bk_cfg b)) (ip_Name spec) = Some nms" and "r = Ok False"
        and "accepted w' = accepted w @ provision_trace target (bk_admin b) nms spec pw"
        and "insts (w_store w') = (insts (w_store w))(iid \<mapsto> (new_instance b p spec nms)\<lparr>ir_InstanceID := iid\<rparr>)"
        and "binds (w_store w') = binds (w_store w)"
    | (unrecorded) nms pw e where "NamesFor iid (NamePrefix (bk_cfg b)) (ip_Name spec) = Some nms"
        and "r = Err (PassThrough e)" and "accepted w' = accepted w @ provision_trace target (bk_admin b) nms spec pw"
        and "insts (w_store w') \<in> {insts (w_store w),
               (insts (w_store w))(iid \<mapsto> (new_instance b p spec nms)\<lparr>ir_InstanceID := iid\<rparr>)}"
        and "binds (w_store w') = binds (w_store w)"
    | (conflict) "r = Err ErrInstanceAlreadyExists" and "accepted w' = accepted w" and "w_store w' = w_store w"
    | (failed) nms pw k j e where "NamesFor iid (NamePrefix (bk_cfg b)) (ip_Name spec) = Some nms"
        and "r = Err (PassThrough e)" and "driver_error e" and "w_store w' = w_store w"
        and "accepted w' = accepted w @ take k (provision_trace target (bk_admin b) nms spec pw)
               @ take j (deprovision_trace target (bk_admin b) nms)"
    | (panic) "r = Panic" and "accepted w' = accepted w" and "w_store w' = w_store w"
        and "randomPassword (w_pool w) = None"
proof -
  have prefix: "namePrefixPattern (NamePrefix (bk_cfg b))" and ready: "admin_ready (bk_admin b)"
    using ok by (simp_all add: broker_ok_def)
  obtain nms where nms: "NamesFor iid (NamePrefix (bk_cfg b)) (ip_Name spec) = Some nms"
    using names_of_prefix(1) [OF prefix] by blast
  have clean: "clean_names nms" using names_of_prefix(2) [OF prefix] nms by blast
  obtain x w1 where x: "Admin_Provision (bk_admin b) nms spec w = (x, w1)" by fastforce
  let ?put = "PutInstance (bk_store b) iid (new_instance b p spec nms)"
  obtain u w2 where u: "?put w1 = (u, w2)" by fastforce
  have eval: "(r, w') = (case x of Ok a \<Rightarrow> (case u of Ok c \<Rightarrow> (Ok False, w2) | Err e \<Rightarrow> (Err (PassThrough e), w2)
      | Panic \<Rightarrow> (Panic, w2)) | Err e \<Rightarrow> (Err (mapAdminError ErrInstanceAlreadyExists e), w1) | Panic \<Rightarrow> (Panic, w1))"
    using run nms by (cases x; cases u) (auto simp: do_provision_def seq_def on_err_def x u pass_apply)
  from provision_outcome [OF ready clean assms(3) x]
  have store: "w_store w1 = w_store w" by blast
  from provision_outcome [OF ready clean assms(3) x]
  consider (all) pw where "x = Ok ()" "accepted w1 = accepted w @ provision_trace target (bk_admin b) nms spec pw"
    | (guard) e where "x = Err e" "guard_error e" "accepted w1 = accepted w"
    | (part) pw k j e where "x = Err e" "driver_error e"
        "accepted w1 = accepted w @ take k (provision_trace target (bk_admin b) nms spec pw)
          @ take j (deprovision_trace target (bk_admin b) nms)"
    | (dry) "x = Panic" "randomPassword (w_pool w) = None" "accepted w1 = accepted w"
  proof (elim conjE disjE exE, goal_cases)
    case 1 then show ?case by blast
  next
    case 2 then show ?case by blast
  next
    case 3 then show ?case using cleaned_prefix by metis
  next
    case 4 then show ?case by blast
  qed
  then show thesis
  proof cases
    case all
    note law = put_instance [OF u]
    have acc: "accepted w2 = accepted w1" using law by (simp add: accepted_def)
    show thesis
    proof (cases u)
      case (Ok c)
      then show thesis using recorded [OF nms] eval all law store acc by (auto simp: put_rows_def)
    next
      case (Err e)
      then show thesis using unrecorded [OF nms] eval all law store acc by (auto simp: put_rows_def)
    next
      case Panic
      then show thesis using law by (simp add: put_rows_def)
    qed
  next
    case guard
    then show thesis
      using mapAdminError_guard [of e ErrInstanceAlreadyExists] conflict eval store failed [OF nms, where k = 0 and j = 0]
      by auto
  next
    case part
    then show thesis using failed [OF nms] eval store by (auto simp: mapAdminError_driver)
  next
    case dry
    then show thesis using panic eval store by auto
  qed
qed

lemma do_update_steps:
  assumes run: "do_update b iid i' w = (r, w')" and ok: "broker_ok b" and spec: "clean_spec (ir_Params i')"
  obtains (failed) nms k e where "r = Err (PassThrough e)" and "driver_error e" and "w_store w' = w_store w"
        and "NamesFor iid (NamePrefix (bk_cfg b)) (ip_Name (ir_Params i')) = Some nms"
        and "accepted w' = accepted w @ take k (update_trace target (bk_admin b) nms (ir_Params i'))"
    | (ran) nms where "NamesFor iid (NamePrefix (bk_cfg b)) (ip_Name (ir_Params i')) = Some nms"
        and "accepted w' = accepted w @ update_trace target (bk_admin b) nms (ir_Params i')"
        and "binds (w_store w') = binds (w_store w)" and "(\<exists>e. r = Err (PassThrough e)) \<or> r = Ok ()"
        and "put_rows (insts (w_store w)) ((insts (w_store w))(iid \<mapsto> i'\<lparr>ir_InstanceID := iid\<rparr>)) r (insts (w_store w'))"
proof -
  have prefix: "namePrefixPattern (NamePrefix (bk_cfg b))" and ready: "admin_ready (bk_admin b)"
    using ok by (simp_all add: broker_ok_def)
  obtain nms where nms: "NamesFor iid (NamePrefix (bk_cfg b)) (ip_Name (ir_Params i')) = Some nms"
    using names_of_prefix(1) [OF prefix] by blast
  have clean: "clean_names nms" using names_of_prefix(2) [OF prefix] nms by blast
  have "seq (pass (Admin_Update (bk_admin b) nms (ir_Params i'))) (\<lambda>_. pass (PutInstance (bk_store b) iid i')) w = (r, w')"
    using run nms by (simp add: do_update_def seq_def [of "Broker_names _ _ _"])
  then show thesis
  proof (cases rule: run_then_write [OF _ update_runs [OF ready clean spec], consumes 1])
    case (1 k e)
    then show thesis using failed nms by blast
  next
    case (2 w1 u)
    note law = put_instance [OF 2(3)]
    have acc: "accepted w' = accepted w1" using law by (simp add: accepted_def)
    show thesis by (rule ran [OF nms]) (use 2 law acc in \<open>cases u; auto simp: put_rows_def\<close>)+
  qed
qed

lemma do_deprovision_steps:
  assumes run: "do_deprovision b iid i w = (r, w')" and ok: "broker_ok b"
  obtains (failed) nms k e where "r = Err (PassThrough e)" and "driver_error e" and "w_store w' = w_store w"
        and "NamesFor iid (NamePrefix (bk_cfg b)) (ip_Name (ir_Params i)) = Some nms"
        and "accepted w' = accepted w @ take k (deprovision_trace target (bk_admin b) nms)"
        and "k < length (deprovision_trace target (bk_admin b) nms)"
    | (ran) nms where "NamesFor iid (NamePrefix (bk_cfg b)) (ip_Name (ir_Params i)) = Some nms"
        and "accepted w' = accepted w @ deprovision_trace target (bk_admin b) nms"
        and "binds (w_store w') = binds (w_store w)" and "(\<exists>e. r = Err (PassThrough e)) \<or> r = Ok ()"
        and "put_rows (insts (w_store w)) ((insts (w_store w))(iid := None)) r (insts (w_store w'))"
        and "\<exists>u v. w_store v = w_store w \<and> DeleteInstance (bk_store b) iid v = (u, w')"
proof -
  have prefix: "namePrefixPattern (NamePrefix (bk_cfg b))" and ready: "admin_ready (bk_admin b)"
    using ok by (simp_all add: broker_ok_def)
  obtain nms where nms: "NamesFor iid (NamePrefix (bk_cfg b)) (ip_Name (ir_Params i)) = Some nms"
    using names_of_prefix(1) [OF prefix] by blast
  have clean: "clean_names nms" using names_of_prefix(2) [OF prefix] nms by blast
  have "seq (pass (Admin_Deprovision (bk_admin b) nms)) (\<lambda>_. pass (DeleteInstance (bk_store b) iid)) w = (r, w')"
    using run nms by (simp add: do_deprovision_def seq_def [of "Broker_names _ _ _"])
  then show thesis
  proof (cases rule: run_then_write [OF _ deprovision_runs [OF ready clean], consumes 1])
    case (1 k e)
    then show thesis using failed nms by blast
  next
    case (2 w1 u)
    note law = delete_instance [OF 2(3)]
    have acc: "accepted w' = accepted w1" using law by (simp add: accepted_def)
    have "\<exists>u v. w_store v = w_store w \<and> DeleteInstance (bk_store b) iid v = (u, w')" using 2(1,3) by blast
    then show thesis
      by (intro ran [OF nms]) (use 2 law acc in \<open>cases u; auto simp: put_rows_def\<close>)+
  qed
qed

lemma do_unbind_steps:
  assumes run: "do_unbind b iid bid i e w = (r, w')" and ok: "broker_ok b" and user: "list_all name_char (bi_Username e)"
  obtains (failed) nms k x where "r = Err (PassThrough x)" and "driver_error x" and "w_store w' = w_store w"
        and "NamesFor iid (NamePrefix (bk_cfg b)) (ip_Name (ir_Params i)) = Some nms"
        and "accepted w' = accepted w @ take k (unbind_trace target (bk_admin b) nms (bi_Username e))"
        and "k < length (unbind_trace target (bk_admin b) nms (bi_Username e))"
    | (ran) nms where "NamesFor iid (NamePrefix (bk_cfg b)) (ip_Name (ir_Params i)) = Some nms"
        and "accepted w' = accepted w @ unbind_trace target (bk_admin b) nms (bi_Username e)"
        and "insts (w_store w') = insts (w_store w)" and "(\<exists>x. r = Err (PassThrough x)) \<or> r = Ok ()"
        and "put_rows (binds (w_store w)) ((binds (w_store w))(bid := None)) r (binds (w_store w'))"
        and "\<exists>u v. w_store v = w_store w \<and> DeleteBinding (bk_store b) bid v = (u, w')"
proof -
  have prefix: "namePrefixPattern (NamePrefix (bk_cfg b))" and ready: "admin_ready (bk_admin b)"
    using ok by (simp_all add: broker_ok_def)
  obtain nms where nms: "NamesFor iid (NamePrefix (bk_cfg b)) (ip_Name (ir_Params i)) = Some nms"
    using names_of_prefix(1) [OF prefix] by blast
  have clean: "clean_names nms" using names_of_prefix(2) [OF prefix] nms by blast
  have "seq (pass (Admin_Unbind (bk_admin b) nms (bi_Username e))) (\<lambda>_. pass (DeleteBinding (bk_store b) bid)) w = (r, w')"
    using run nms by (simp add: do_unbind_def seq_def [of "Broker_names _ _ _"])
  then show thesis
  proof (cases rule: run_then_write [OF _ unbind_runs [OF ready clean user], consumes 1])
    case (1 k e)
    then show thesis using failed nms by blast
  next
    case (2 w1 u)
    note law = delete_binding [OF 2(3)]
    have acc: "accepted w' = accepted w1" using law by (simp add: accepted_def)
    have "\<exists>u v. w_store v = w_store w \<and> DeleteBinding (bk_store b) bid v = (u, w')" using 2(1,3) by blast
    then show thesis
      by (intro ran [OF nms]) (use 2 law acc in \<open>cases u; auto simp: put_rows_def\<close>)+
  qed
qed

end

section \<open>Credentials\<close>

lemma name_char_list_ascii: "list_all name_char s \<Longrightarrow> list_all is_ascii s"
  by (auto simp: list_all_iff name_char_ascii)

lemma url_escape_ascii: "list_all is_ascii (url_escape m s)"
proof -
  have unescaped: "should_escape m c"
    if "\<not> is_alnum c" "c \<notin> set sub_delims_host" "c \<notin> A" "c \<notin> B" "A = set ''-_.~''" "B = set ''$&+,/:;=?@''"
    for c A B
    using that by (simp add: should_escape_def)
  have marks: "list_all is_ascii (sub_delims_host @ ''-_.~'' @ ''$&+,/:;=?@'')" "is_ascii (CHR ''%'')" "is_ascii (CHR ''+'')"
    by code_simp+
  have byte: "\<not> should_escape m c \<Longrightarrow> is_ascii c" for c
    using marks(1) unescaped [OF _ _ _ _ refl refl, of c] is_alnum_ascii [of c]
    unfolding list_all_iff set_append by blast
  then show ?thesis using url_escape_chars marks(2,3) unfolding list_all_iff by metis
qed

lemma int_text_ascii: "list_all is_ascii (int_text n)"
  using clean_int_text [of n] by (simp add: clean_word_def list_all_iff)

lemma credentials_valid:
  assumes "broker_ok b" and "list_all is_ascii db" and "list_all is_ascii user" and "list_all is_ascii pw"
  shows "distinct (map fst (credentials b db user pw))" and "list_all valid_entry (credentials b db user pw)"
proof -
  show "distinct (map fst (credentials b db user pw))" by (simp add: credentials_def Let_def)
  have "list_all is_ascii (DBHost (bk_cfg b))" "list_all is_ascii (DBSSLMode (bk_cfg b))"
    using assms(1) by (simp_all add: broker_ok_def)
  moreover have ascii: "list_all is_ascii ''postgresql://?sslmode=:@uri.hostname.port.database.username.password.''" by code_simp
  then have "list_all is_ascii ''postgresql://''" "list_all is_ascii ''?sslmode=''" "is_ascii CHR '':''" "is_ascii CHR ''@''"
    "is_ascii CHR ''/''" by simp_all
  ultimately have "list_all is_ascii (uri_for (bk_cfg b) db user pw)"
    using assms(2-4) by (auto simp: uri_for_def url_escape_ascii int_text_ascii)
  moreover have "list_all (list_all is_ascii) (map fst (credentials b db user pw))"
    using ascii by (simp add: credentials_def Let_def)
  ultimately show "list_all valid_entry (credentials b db user pw)"
    using assms by (auto simp: credentials_def Let_def valid_entry_def broker_ok_def int_text_ascii intro!: valid_utf8_ascii)
qed

text \<open>The row a successful binding leaves: its columns, and what its credentials decrypt to.\<close>

definition bound_row ::
    "'d broker \<Rightarrow> string \<Rightarrow> string \<Rightarrow> BindingParams \<Rightarrow> names \<Rightarrow> string \<Rightarrow> string \<Rightarrow> BindingRecord \<Rightarrow> bool" where
  "bound_row b iid bid spec nms user pw v \<longleftrightarrow>
     UserFor bid (NamePrefix (bk_cfg b)) (bp_Name spec) = Some user
   \<and> v = \<lparr>br_BindingID = bid, br_InstanceID = iid, br_Username = user, br_Params = spec,
          br_Credentials = br_Credentials v\<rparr>
   \<and> binding_info (bk_store b) v = Ok (info_of v (credentials b (n_Database nms) user pw))"

lemma bound_row_user: "bound_row b iid bid spec nms user pw v \<Longrightarrow> UserFor bid (NamePrefix (bk_cfg b)) (bp_Name spec) = Some user"
  by (simp add: bound_row_def)

lemma seq_on_err:
  "m w = (x, w1) \<Longrightarrow> seq (on_err h m) f w
     = (case x of Ok a \<Rightarrow> f a w1 | Err e \<Rightarrow> (Err (h e), w1) | Panic \<Rightarrow> (Panic, w1))"
  by (cases x) (simp_all add: seq_def on_err_def)

context broker_parts
begin

lemma do_bind_steps:
  assumes run: "do_bind b iid bid i spec w = (r, w')" and ok: "broker_ok b"
  obtains (recorded) nms user pw v where "NamesFor iid (NamePrefix (bk_cfg b)) (ip_Name (ir_Params i)) = Some nms"
        and "r = Ok \<lparr>b_AlreadyExists = False, b_Credentials = map_of (credentials b (n_Database nms) user pw)\<rparr>"
        and "accepted w' = accepted w @ bind_trace target (bk_admin b) nms user pw"
        and "insts (w_store w') = insts (w_store w)" and "bound_row b iid bid spec nms user pw v"
        and "binds (w_store w') = (binds (w_store w))(bid \<mapsto> v)"
    | (unrecorded) nms user pw e where "NamesFor iid (NamePrefix (bk_cfg b)) (ip_Name (ir_Params i)) = Some nms"
        and "UserFor bid (NamePrefix (bk_cfg b)) (bp_Name spec) = Some user"
        and "r = Err (PassThrough e)" and "accepted w' = accepted w @ bind_trace target (bk_admin b) nms user pw"
        and "insts (w_store w') = insts (w_store w)"
        and "binds (w_store w') = binds (w_store w)
          \<or> (\<exists>v. bound_row b iid bid spec nms user pw v \<and> binds (w_store w') = (binds (w_store w))(bid \<mapsto> v))"
    | (conflict) "r = Err ErrBindingAlreadyExists" and "accepted w' = accepted w" and "w_store w' = w_store w"
    | (failed) nms user pw k j e where "NamesFor iid (NamePrefix (bk_cfg b)) (ip_Name (ir_Params i)) = Some nms"
        and "UserFor bid (NamePrefix (bk_cfg b)) (bp_Name spec) = Some user"
        and "r = Err (PassThrough e)" and "driver_error e" and "w_store w' = w_store w"
        and "accepted w' = accepted w @ take k (bind_trace target (bk_admin b) nms user pw)
               @ take j (unbind_trace target (bk_admin b) nms user)"
    | (panic) "r = Panic" and "accepted w' = accepted w" and "w_store w' = w_store w"
        and "randomPassword (w_pool w) = None"
proof -
  have prefix: "namePrefixPattern (NamePrefix (bk_cfg b))" and ready: "admin_ready (bk_admin b)"
    using ok by (simp_all add: broker_ok_def)
  obtain nms where nms: "NamesFor iid (NamePrefix (bk_cfg b)) (ip_Name (ir_Params i)) = Some nms"
    using names_of_prefix(1) [OF prefix] by blast
  obtain user where user: "UserFor bid (NamePrefix (bk_cfg b)) (bp_Name spec) = Some user"
    using names_of_prefix(3) [OF prefix] by blast
  have clean: "clean_names nms" using names_of_prefix(2) [OF prefix] nms by blast
  have cuser: "list_all name_char user" using names_of_prefix(4) [OF prefix] user by blast
  obtain x w1 where x: "Admin_Bind (bk_admin b) nms user w = (x, w1)" by fastforce
  note out = bind_outcome [OF ready clean cuser x]
  have rest: "(case x of Ok pw \<Rightarrow>
        seq (pass (PutBinding (bk_store b) bid user iid spec (credentials b (n_Database nms) user pw)))
          (\<lambda>_. ret \<lparr>b_AlreadyExists = False, b_Credentials = map_of (credentials b (n_Database nms) user pw)\<rparr>) w1
      | Err e \<Rightarrow> (Err (mapAdminError ErrBindingAlreadyExists e), w1) | Panic \<Rightarrow> (Panic, w1)) = (r, w')"
    using run nms user
    by (simp add: do_bind_def seq_def [of "Broker_names _ _ _"] seq_def [of "Broker_user _ _ _"]
        seq_on_err x Let_def)
  show thesis
  proof (cases x)
    case (Ok pw)
    with out have pool: "randomPassword (w_pool w) = Some (pw, w_pool w1)" and store: "w_store w1 = w_store w"
      and acc: "accepted w1 = accepted w @ bind_trace target (bk_admin b) nms user pw" by auto
    let ?creds = "credentials b (n_Database nms) user pw"
    have "list_all is_ascii pw"
      using clean_password [of pw] randomPassword_cases [OF pool] by (auto simp: clean_text_def list_all_iff)
    then have valid: "distinct (map fst ?creds)" "list_all valid_entry ?creds"
      using credentials_valid [OF ok] name_char_list_ascii cuser clean by (simp_all add: clean_names_def)
    obtain u w2 where u: "PutBinding (bk_store b) bid user iid spec ?creds w1 = (u, w2)" by fastforce
    note law = put_binding [OF u valid]
    have acc2: "accepted w2 = accepted w1" using law by (simp add: accepted_def)
    have frame: "insts (w_store w2) = insts (w_store w)" using law store by simp
    have eval: "(case u of Ok c \<Rightarrow> (Ok \<lparr>b_AlreadyExists = False, b_Credentials = map_of ?creds\<rparr>, w2)
        | Err e \<Rightarrow> (Err (PassThrough e), w2) | Panic \<Rightarrow> (Panic, w2)) = (r, w')"
      using rest Ok by (cases u) (simp_all add: seq_def pass_apply u)
    from law consider (lost) e where "u = Err e" "binds (w_store w2) = binds (w_store w)"
      | (put) v where "bound_row b iid bid spec nms user pw v"
          "put_rows (binds (w_store w)) ((binds (w_store w))(bid \<mapsto> v)) u (binds (w_store w2))"
      unfolding bound_row_def using user store by auto
    then show thesis
    proof cases
      case lost
      then show thesis using unrecorded [OF nms user] eval acc acc2 frame by auto
    next
      case put
      then show thesis
        using recorded [OF nms, of user pw v] unrecorded [OF nms user, of _ pw] eval acc acc2 frame
        by (cases u) (auto simp: put_rows_def)
    qed
  next
    case (Err e)
    with rest have r: "r = Err (mapAdminError ErrBindingAlreadyExists e)" "w' = w1" by simp_all
    from out Err have "w_store w1 = w_store w" and "guard_error e \<and> accepted w1 = accepted w
      \<or> (\<exists>pw k v. driver_error e \<and> accepted v = accepted w @ take k (bind_trace target (bk_admin b) nms user pw)
          \<and> cleaned (unbind_trace target (bk_admin b) nms user) (Admin_Unbind (bk_admin b) nms user) v w1)" by auto
    then have "w_store w1 = w_store w" and "guard_error e \<and> accepted w1 = accepted w
      \<or> (\<exists>pw k j. driver_error e \<and> accepted w1 = accepted w @ take k (bind_trace target (bk_admin b) nms user pw)
          @ take j (unbind_trace target (bk_admin b) nms user))" using cleaned_prefix by blast+
    then show thesis
      using r mapAdminError_guard [of e ErrBindingAlreadyExists] mapAdminError_driver conflict
        failed [OF nms user, where k = 0 and j = 0] failed [OF nms user] by auto
  next
    case Panic
    then show thesis using panic rest out by auto
  qed
qed

end

end
