(* ===== verification/Tenants.thy ===== *)
theory Tenants
  imports Broker
begin

text \<open>
  What the broker promises about its memory, as an abstract machine: its state is the two
  tables by key, its steps are the life cycle of tenants and bindings. Every request, on any
  server and any state database that keeps the laws of GORM, is one step of the machine or
  changes nothing, so the machine's invariant holds in every world the broker can reach.
\<close>

section \<open>Requests\<close>

datatype request =
    ProvisionReq string ProvisionDetails
  | UpdateReq string UpdateDetails
  | DeprovisionReq string string
  | BindReq string string BindDetails
  | UnbindReq string string string

datatype response = Provisioned bool | Updated | Deprovisioned | Bound Binding | Unbound

definition respond :: "('a \<Rightarrow> response) \<Rightarrow> ('d, 'a) handler \<Rightarrow> ('d, response) handler" where
  "respond f m = seq m (\<lambda>x. ret (f x))"

fun handle :: "'d broker \<Rightarrow> request \<Rightarrow> ('d, response) handler" where
  "handle b (ProvisionReq iid d) = respond Provisioned (Broker_Provision b iid d)"
| "handle b (UpdateReq iid d) = respond (\<lambda>_. Updated) (Broker_Update b iid d)"
| "handle b (DeprovisionReq iid sid) = respond (\<lambda>_. Deprovisioned) (Broker_Deprovision b iid sid)"
| "handle b (BindReq iid bid d) = respond Bound (Broker_Bind b iid bid d)"
| "handle b (UnbindReq iid bid sid) = respond (\<lambda>_. Unbound) (Broker_Unbind b iid bid sid)"

lemma respond_eq: "respond f m w = (r, w') \<longleftrightarrow>
    (\<exists>x. m w = (x, w') \<and> r = (case x of Ok a \<Rightarrow> Ok (f a) | Err e \<Rightarrow> Err e | Panic \<Rightarrow> Panic))"
  by (auto simp: respond_def seq_def split: prod.splits go.splits)

section \<open>The abstract machine\<close>

type_synonym tenants = "(string \<rightharpoonup> InstanceRecord) \<times> (string \<rightharpoonup> BindingRecord)"

text \<open>A stored instance: of the broker's service, on a plan of the catalog and within it, under its own name.\<close>

definition inst_ok :: "'d broker \<Rightarrow> string \<Rightarrow> InstanceRecord \<Rightarrow> bool" where
  "inst_ok b k i \<longleftrightarrow> ir_InstanceID i = k \<and> ir_ServiceID i = s_ServiceID (Service (bk_catalog b))
   \<and> (\<exists>p\<in>set (Plans (bk_catalog b)). p_ID p = ir_PlanID i \<and> within_plan p (ir_Params i))
   \<and> (\<exists>nms. NamesFor k (NamePrefix (bk_cfg b)) (ip_Name (ir_Params i)) = Some nms \<and> ir_Database i = n_Database nms)"

text \<open>A stored binding: of a stored instance, its credentials readable and naming that instance's database.\<close>

definition bind_ok :: "'d broker \<Rightarrow> (string \<rightharpoonup> InstanceRecord) \<Rightarrow> string \<Rightarrow> BindingRecord \<Rightarrow> bool" where
  "bind_ok b I k v \<longleftrightarrow> (\<exists>i nms pw. I (br_InstanceID v) = Some i
     \<and> NamesFor (br_InstanceID v) (NamePrefix (bk_cfg b)) (ip_Name (ir_Params i)) = Some nms
     \<and> bound_row b (br_InstanceID v) k (br_Params v) nms (br_Username v) pw v)"

text \<open>What an update keeps.\<close>

definition same_tenant :: "InstanceRecord \<Rightarrow> InstanceRecord \<Rightarrow> bool" where
  "same_tenant i i' \<longleftrightarrow> (\<exists>mc sg. i' = i\<lparr>ir_Params := (ir_Params i)\<lparr>ip_MaxConnections := mc, ip_StorageGB := sg\<rparr>\<rparr>)"

inductive tenant_step :: "'d broker \<Rightarrow> tenants \<Rightarrow> tenants \<Rightarrow> bool" for b where
  provisioned: "I k = None \<Longrightarrow> inst_ok b k i \<Longrightarrow> tenant_step b (I, B) (I(k \<mapsto> i), B)"
| updated: "I k = Some i \<Longrightarrow> inst_ok b k i' \<Longrightarrow> same_tenant i i' \<Longrightarrow> tenant_step b (I, B) (I(k \<mapsto> i'), B)"
| deprovisioned: "I k = Some i \<Longrightarrow> \<forall>v\<in>ran B. br_InstanceID v \<noteq> k \<Longrightarrow> tenant_step b (I, B) (I(k := None), B)"
| bound: "B k = None \<Longrightarrow> bind_ok b I k v \<Longrightarrow> tenant_step b (I, B) (I, B(k \<mapsto> v))"
| unbound: "B k = Some v \<Longrightarrow> tenant_step b (I, B) (I, B(k := None))"

inductive_cases tenant_stepE: "tenant_step b s s'"

inductive_simps tenant_step_from_empty: "tenant_step b (Map.empty, Map.empty) s"

definition tenant_inv :: "'d broker \<Rightarrow> tenants \<Rightarrow> bool" where
  "tenant_inv b s \<longleftrightarrow> (\<forall>k i. fst s k = Some i \<longrightarrow> inst_ok b k i) \<and> (\<forall>k v. snd s k = Some v \<longrightarrow> bind_ok b (fst s) k v)"

lemma tenant_inv_empty: "tenant_inv b (Map.empty, Map.empty)"
  by (simp add: tenant_inv_def)

lemma bind_ok_cong:
  assumes "bind_ok b I k v"
    and "\<And>i. I (br_InstanceID v) = Some i \<Longrightarrow> \<exists>i'. I' (br_InstanceID v) = Some i' \<and> ip_Name (ir_Params i') = ip_Name (ir_Params i)"
  shows "bind_ok b I' k v"
  using assms unfolding bind_ok_def by metis

lemma tenant_step_inv:
  assumes "tenant_step b s s'" and "tenant_inv b s"
  shows "tenant_inv b s'"
  using assms
proof (induction rule: tenant_step.induct)
  case (provisioned I k i B)
  have "bind_ok b (I(k \<mapsto> i)) j v" if "B j = Some v" for j v
    by (rule bind_ok_cong [of b I]) (use provisioned that in \<open>auto simp: tenant_inv_def\<close>)
  then show ?case using provisioned by (auto simp: tenant_inv_def)
next
  case (updated I k i i' B)
  have "bind_ok b (I(k \<mapsto> i')) j v" if "B j = Some v" for j v
    by (rule bind_ok_cong [of b I]) (use updated that in \<open>auto simp: tenant_inv_def same_tenant_def\<close>)
  then show ?case using updated by (auto simp: tenant_inv_def)
next
  case (deprovisioned I k i B)
  have "bind_ok b (I(k := None)) j v" if "B j = Some v" for j v
    by (rule bind_ok_cong [of b I]) (use deprovisioned that in \<open>auto simp: tenant_inv_def ran_def\<close>)
  then show ?case using deprovisioned by (auto simp: tenant_inv_def)
next
  case (bound B k I v)
  then show ?case by (simp add: tenant_inv_def)
next
  case (unbound B k v I)
  then show ?case by (simp add: tenant_inv_def)
qed

section \<open>The broker refines it\<close>

definition tenants_of ::
    "('d \<Rightarrow> string \<rightharpoonup> InstanceRecord) \<Rightarrow> ('d \<Rightarrow> string \<rightharpoonup> BindingRecord) \<Rightarrow> 'd world \<Rightarrow> tenants" where
  "tenants_of insts binds w = (insts (w_store w), binds (w_store w))"

lemma same_tenants: "same_tables insts binds w w' \<Longrightarrow> tenants_of insts binds w' = tenants_of insts binds w"
  by (simp add: same_tables_def tenants_of_def)

lemma new_instance_ok:
  assumes "p \<in> set (Plans (bk_catalog b))" and "within_plan p spec"
    and "NamesFor k (NamePrefix (bk_cfg b)) (ip_Name spec) = Some nms"
  shows "inst_ok b k ((new_instance b p spec nms)\<lparr>ir_InstanceID := k\<rparr>)"
  using assms by (auto simp: inst_ok_def new_instance_def)

lemma updated_ok:
  assumes "broker_ok b" and "inst_ok b k i" and "update_request b d i i'"
  shows "inst_ok b k i'" and "same_tenant i i'" and "clean_spec (ir_Params i')"
proof -
  obtain p params requested where p: "List.find (\<lambda>p. p_ID p = ir_PlanID i) (Plans (bk_catalog b)) = Some p"
    and rq: "ResolveInstanceParams p params = Ok requested"
    and i': "i' = i\<lparr>ir_Params := (ir_Params i)\<lparr>ip_MaxConnections := ip_MaxConnections requested,
                                            ip_StorageGB := ip_StorageGB requested\<rparr>\<rparr>"
    using assms(3) by (auto simp: update_request_def)
  have mem: "p \<in> set (Plans (bk_catalog b)) \<and> p_ID p = ir_PlanID i" using find_Some_iff_mem [OF p] by simp
  then have "exact_quotas p" using assms(1) by (auto simp: broker_ok_def list_all_iff)
  then have "within_plan p requested" using rq ResolveInstanceParams_within by blast
  moreover obtain q where "within_plan q (ir_Params i)" using assms(2) by (auto simp: inst_ok_def)
  ultimately have within: "within_plan p (ir_Params i')" by (simp add: within_plan_def i')
  then show "inst_ok b k i'" using assms(2) mem by (auto simp: inst_ok_def i')
  show "same_tenant i i'" unfolding same_tenant_def i' by blast
  show "clean_spec (ir_Params i')" using within by (rule clean_spec_within)
qed

lemma bind_ok_user: "broker_ok b \<Longrightarrow> bind_ok b I k v \<Longrightarrow> list_all name_char (br_Username v)"
  unfolding bind_ok_def bound_row_def broker_ok_def using names_of_prefix(4) by metis

context broker_parts
begin

lemma refines:
  assumes ok: "broker_ok b" and inv: "tenant_inv b (tenants_of insts binds w)" and run: "handle b rq w = (r, w')"
  shows "tenants_of insts binds w' = tenants_of insts binds w
    \<or> tenant_step b (tenants_of insts binds w) (tenants_of insts binds w')"
proof (cases rq)
  case (ProvisionReq iid d)
  then obtain x where "Broker_Provision b iid d w = (x, w')" using run by (auto simp: respond_eq)
  then show ?thesis
  proof (cases rule: provision_steps)
    case (go p spec w1)
    note ps = provision_request_within [OF ok go(1)]
    have eq: "tenants_of insts binds w1 = tenants_of insts binds w" using go(3) by (rule same_tenants)
    have free: "insts (w_store w1) iid = None" using eq go(2) by (simp add: tenants_of_def)
    from go(4) ok clean_spec_within [OF ps(2)] have "tenants_of insts binds w' = tenants_of insts binds w1
        \<or> tenant_step b (tenants_of insts binds w1) (tenants_of insts binds w')"
    proof (cases rule: do_provision_steps)
      case (recorded nms pw)
      then show ?thesis using new_instance_ok [OF ps(1,2)] free
        by (auto simp: tenants_of_def intro!: tenant_step.provisioned)
    next
      case (unrecorded nms pw e)
      then show ?thesis using new_instance_ok [OF ps(1,2)] free
        by (auto simp: tenants_of_def intro!: tenant_step.provisioned)
    qed (simp_all add: tenants_of_def)
    then show ?thesis by (simp add: eq)
  qed (simp_all add: same_tables_def tenants_of_def)
next
  case (UpdateReq iid d)
  then obtain x where "Broker_Update b iid d w = (x, w')" using run by (auto simp: respond_eq)
  then show ?thesis
  proof (cases rule: update_steps)
    case (go i i' w1)
    have eq: "tenants_of insts binds w1 = tenants_of insts binds w" using go(3) by (rule same_tenants)
    have here: "insts (w_store w1) iid = Some i" using eq go(2) by (simp add: tenants_of_def)
    have old: "inst_ok b iid i" using inv go(2) by (simp add: tenant_inv_def tenants_of_def)
    note up = updated_ok [OF ok old go(1)]
    have self: "i'\<lparr>ir_InstanceID := iid\<rparr> = i'" using up(1) by (simp add: inst_ok_def)
    from go(4) ok up(3) have "tenants_of insts binds w' = tenants_of insts binds w1
        \<or> tenant_step b (tenants_of insts binds w1) (tenants_of insts binds w')"
    proof (cases rule: do_update_steps)
      case (ran nms)
      then show ?thesis using here up self
        by (auto simp: tenants_of_def put_rows_def intro!: tenant_step.updated)
    qed (simp add: tenants_of_def)
    then show ?thesis by (simp add: eq)
  qed (simp_all add: same_tables_def tenants_of_def)
next
  case (DeprovisionReq iid sid)
  then obtain x where "Broker_Deprovision b iid sid w = (x, w')" using run by (auto simp: respond_eq)
  then show ?thesis
  proof (cases rule: deprovision_steps)
    case (go i w1)
    have eq: "tenants_of insts binds w1 = tenants_of insts binds w" using go(3) by (rule same_tenants)
    have here: "insts (w_store w1) iid = Some i" "\<forall>v\<in>ran (binds (w_store w1)). br_InstanceID v \<noteq> iid"
      using eq go(1,2) by (simp_all add: tenants_of_def)
    from go(4) ok have "tenants_of insts binds w' = tenants_of insts binds w1
        \<or> tenant_step b (tenants_of insts binds w1) (tenants_of insts binds w')"
    proof (cases rule: do_deprovision_steps)
      case (ran nms)
      then show ?thesis using here
        by (auto simp: tenants_of_def put_rows_def intro!: tenant_step.deprovisioned)
    qed (simp add: tenants_of_def)
    then show ?thesis by (simp add: eq)
  qed (simp_all add: same_tables_def tenants_of_def)
next
  case (BindReq iid bid d)
  then obtain x where "Broker_Bind b iid bid d w = (x, w')" using run by (auto simp: respond_eq)
  then show ?thesis
  proof (cases rule: bind_steps)
    case (go spec i w1)
    have eq: "tenants_of insts binds w1 = tenants_of insts binds w" using go(4) by (rule same_tenants)
    have here: "insts (w_store w1) iid = Some i" "binds (w_store w1) bid = None"
      using eq go(2,3) by (simp_all add: tenants_of_def)
    have new: "bind_ok b (insts (w_store w1)) bid v"
      if "NamesFor iid (NamePrefix (bk_cfg b)) (ip_Name (ir_Params i)) = Some nms" "bound_row b iid bid spec nms user pw v"
      for nms user pw v
    proof -
      have "br_InstanceID v = iid" "br_Params v = spec" "br_Username v = user"
        using that(2) unfolding bound_row_def by (metis BindingRecord.select_convs)+
      then show ?thesis using that here by (auto simp: bind_ok_def)
    qed
    from go(5) ok have "tenants_of insts binds w' = tenants_of insts binds w1
        \<or> tenant_step b (tenants_of insts binds w1) (tenants_of insts binds w')"
    proof (cases rule: do_bind_steps)
      case (recorded nms user pw v)
      then show ?thesis using here new by (auto simp: tenants_of_def intro!: tenant_step.bound)
    next
      case (unrecorded nms user pw e)
      then show ?thesis using here new by (auto simp: tenants_of_def intro!: tenant_step.bound)
    qed (simp_all add: tenants_of_def)
    then show ?thesis by (simp add: eq)
  qed (simp_all add: same_tables_def tenants_of_def)
next
  case (UnbindReq iid bid sid)
  then obtain x where "Broker_Unbind b iid bid sid w = (x, w')" using run by (auto simp: respond_eq)
  then show ?thesis
  proof (cases rule: unbind_steps)
    case (go i v e w1)
    have eq: "tenants_of insts binds w1 = tenants_of insts binds w" using go(5) by (rule same_tenants)
    have here: "binds (w_store w1) bid = Some v" using eq go(2) by (simp add: tenants_of_def)
    have "bind_ok b (insts (w_store w)) bid v" using inv go(2) by (simp add: tenant_inv_def tenants_of_def)
    moreover have "bi_Username e = br_Username v" using go(4) by (auto simp: binding_info_def)
    ultimately have "list_all name_char (bi_Username e)" using bind_ok_user [OF ok] by simp
    from go(6) ok this have "tenants_of insts binds w' = tenants_of insts binds w1
        \<or> tenant_step b (tenants_of insts binds w1) (tenants_of insts binds w')"
    proof (cases rule: do_unbind_steps)
      case (ran nms)
      then show ?thesis using here
        by (auto simp: tenants_of_def put_rows_def intro!: tenant_step.unbound)
    qed (simp add: tenants_of_def)
    then show ?thesis by (simp add: eq)
  qed (simp_all add: same_tables_def tenants_of_def)
qed

end

end
