(* ===== verification/Tables.thy ===== *)
theory Tables
  imports Store "HOL-Library.AList"
begin

text \<open>
  A database that meets the laws of \<open>gorm_db\<close>: the two tables of \<open>stateSchema\<close> as
  association lists by primary key, with a script of faults. Each call takes the next
  entry of the script: none, or an error, a write then being lost or made without an
  acknowledgement. The store is interpreted on it, and its properties are applied to it.
\<close>

record tables =
  t_insts :: "(string \<times> InstanceRecord) list"
  t_binds :: "(string \<times> BindingRecord) list"
  t_faults :: "(ext \<times> bool) option list"

definition next_fault :: "tables \<Rightarrow> (ext \<times> bool) option \<times> tables" where
  "next_fault d = (case t_faults d of [] \<Rightarrow> (None, d) | x # xs \<Rightarrow> (x, d\<lparr>t_faults := xs\<rparr>))"

definition row_read :: "(tables \<Rightarrow> 'a) \<Rightarrow> tables \<Rightarrow> (ext + 'a) \<times> tables" where
  "row_read f d = (case next_fault d of
      (None, d') \<Rightarrow> (Inr (f d'), d')
    | (Some (e, made), d') \<Rightarrow> (Inl e, d'))"

definition row_write :: "(tables \<Rightarrow> tables) \<Rightarrow> tables \<Rightarrow> ext option \<times> tables" where
  "row_write f d = (case next_fault d of
      (None, d') \<Rightarrow> (None, f d')
    | (Some (e, made), d') \<Rightarrow> (Some e, if made then f d' else d'))"

fun as_found :: "ext + 'a option \<Rightarrow> 'a found" where
  "as_found (Inl e) = DbError e"
| "as_found (Inr None) = RecordNotFound"
| "as_found (Inr (Some r)) = Found r"

definition inst_rows :: "tables \<Rightarrow> string \<rightharpoonup> InstanceRecord" where
  "inst_rows d k = map_option (\<lambda>r. r\<lparr>ir_InstanceID := k\<rparr>) (map_of (t_insts d) k)"

definition bind_rows :: "tables \<Rightarrow> string \<rightharpoonup> BindingRecord" where
  "bind_rows d k = map_option (\<lambda>r. r\<lparr>br_BindingID := k\<rparr>) (map_of (t_binds d) k)"

definition all_binds :: "tables \<Rightarrow> BindingRecord list" where
  "all_binds d = map (\<lambda>(k, r). r\<lparr>br_BindingID := k\<rparr>) (AList.clearjunk (t_binds d))"

definition put_inst :: "InstanceRecord \<Rightarrow> tables \<Rightarrow> tables" where
  "put_inst i d = d\<lparr>t_insts := AList.update (ir_InstanceID i) i (t_insts d)\<rparr>"

definition put_bind :: "BindingRecord \<Rightarrow> tables \<Rightarrow> tables" where
  "put_bind b d = d\<lparr>t_binds := AList.update (br_BindingID b) b (t_binds d)\<rparr>"

definition drop_inst :: "string \<Rightarrow> tables \<Rightarrow> tables" where
  "drop_inst k d = d\<lparr>t_insts := AList.delete k (t_insts d)\<rparr>"

definition drop_bind :: "string \<Rightarrow> tables \<Rightarrow> tables" where
  "drop_bind k d = d\<lparr>t_binds := AList.delete k (t_binds d)\<rparr>"

definition set_bind :: "string \<Rightarrow> string \<Rightarrow> tables \<Rightarrow> tables" where
  "set_bind k c d = d\<lparr>t_binds := AList.map_entry k (\<lambda>b. b\<lparr>br_Credentials := c\<rparr>) (t_binds d)\<rparr>"

definition table_gorm :: "tables gorm" where
  "table_gorm = \<lparr>
     g_first_instance = (\<lambda>k d. map_prod as_found id (row_read (\<lambda>d. inst_rows d k) d)),
     g_update_instance = (\<lambda>k i d. if inst_rows d k = None then (None, d) else row_write (put_inst i) d),
     g_create_instance = (\<lambda>i d. if inst_rows d (ir_InstanceID i) = None then row_write (put_inst i) d
        else (Some ''UNIQUE constraint failed'', d)),
     g_delete_instance = (\<lambda>k. row_write (drop_inst k)),
     g_first_binding = (\<lambda>k d. map_prod as_found id (row_read (\<lambda>d. bind_rows d k) d)),
     g_update_binding = (\<lambda>k b d. if bind_rows d k = None then (None, d) else row_write (put_bind b) d),
     g_create_binding = (\<lambda>b d. if bind_rows d (br_BindingID b) = None then row_write (put_bind b) d
        else (Some ''UNIQUE constraint failed'', d)),
     g_delete_binding = (\<lambda>k. row_write (drop_bind k)),
     g_bindings_of = (\<lambda>k. row_read (\<lambda>d. filter (\<lambda>b. br_InstanceID b = k) (all_binds d))),
     g_all_bindings = row_read all_binds,
     g_set_credentials = (\<lambda>k c. row_write (set_bind k c)),
     g_exec = (\<lambda>ddl. row_write id),
     g_sql_db = Pair None,
     g_close = row_write id\<rparr>"

section \<open>The laws\<close>

lemma next_fault_rows: "next_fault d = (x, d') \<Longrightarrow> inst_rows d' = inst_rows d \<and> bind_rows d' = bind_rows d
    \<and> t_insts d' = t_insts d \<and> t_binds d' = t_binds d"
  by (auto simp: next_fault_def inst_rows_def bind_rows_def fun_eq_iff split: list.splits)

lemma row_read_cases:
  assumes "row_read f d = (x, d')" and "\<And>e. t_insts e = t_insts d \<Longrightarrow> t_binds e = t_binds d \<Longrightarrow> f e = f d"
  shows "inst_rows d' = inst_rows d \<and> bind_rows d' = bind_rows d \<and> (\<forall>v. x = Inr v \<longrightarrow> v = f d)"
proof -
  obtain y d1 where n: "next_fault d = (y, d1)" by fastforce
  note rows = next_fault_rows [OF n]
  have "f d1 = f d" using rows by (intro assms(2)) simp_all
  then show ?thesis using assms(1) n rows by (auto simp: row_read_def split: option.splits prod.splits)
qed

lemma row_write_cases:
  assumes "row_write f d = (e, d')"
  obtains d1 where "inst_rows d1 = inst_rows d" "bind_rows d1 = bind_rows d" "d' = f d1 \<or> (e \<noteq> None \<and> d' = d1)"
proof -
  obtain y d1 where n: "next_fault d = (y, d1)" by fastforce
  show thesis
    by (rule that [of d1]) (use assms n next_fault_rows [OF n] in
        \<open>auto simp: row_write_def split: option.splits prod.splits if_splits\<close>)
qed

lemma as_found_cases:
  "as_found x = Found r \<longleftrightarrow> x = Inr (Some r)" "as_found x = RecordNotFound \<longleftrightarrow> x = Inr None"
  by (cases x rule: as_found.cases; simp)+

lemma put_inst_rows [simp]:
  "inst_rows (put_inst i d) = (inst_rows d)(ir_InstanceID i \<mapsto> i)" "bind_rows (put_inst i d) = bind_rows d"
  by (auto simp: inst_rows_def bind_rows_def put_inst_def update_conv' fun_eq_iff)

lemma put_bind_rows [simp]:
  "bind_rows (put_bind b d) = (bind_rows d)(br_BindingID b \<mapsto> b)" "inst_rows (put_bind b d) = inst_rows d"
  by (auto simp: inst_rows_def bind_rows_def put_bind_def update_conv' fun_eq_iff)

lemma delete_rows [simp]:
  "inst_rows (drop_inst k d) = (inst_rows d)(k := None)" "bind_rows (drop_inst k d) = bind_rows d"
  "bind_rows (drop_bind k d) = (bind_rows d)(k := None)" "inst_rows (drop_bind k d) = inst_rows d"
  by (auto simp: inst_rows_def bind_rows_def drop_inst_def drop_bind_def delete_conv' fun_eq_iff)

lemma set_bind_rows:
  "bind_rows d k = Some b \<Longrightarrow> bind_rows (set_bind k c d) = (bind_rows d)(k \<mapsto> b\<lparr>br_Credentials := c\<rparr>)"
  "inst_rows (set_bind k c d) = inst_rows d"
  by (auto simp: set_bind_def bind_rows_def inst_rows_def map_of_map_entry fun_eq_iff split: option.splits)

lemma all_binds_rows: "set (all_binds d) = ran (bind_rows d)" "distinct (map br_BindingID (all_binds d))"
proof -
  have "map br_BindingID (all_binds d) = map fst (AList.clearjunk (t_binds d))"
    by (simp add: all_binds_def split_beta)
  then show "distinct (map br_BindingID (all_binds d))" by (simp add: distinct_clearjunk)
  have mem: "(k, r) \<in> set (AList.clearjunk (t_binds d)) \<longleftrightarrow> map_of (t_binds d) k = Some r" for k r
    by (metis distinct_clearjunk map_of_clearjunk map_of_eq_Some_iff)
  show "set (all_binds d) = ran (bind_rows d)"
  proof (intro set_eqI iffI)
    fix b assume "b \<in> set (all_binds d)"
    then obtain k r where "(k, r) \<in> set (AList.clearjunk (t_binds d))" "b = r\<lparr>br_BindingID := k\<rparr>"
      by (auto simp: all_binds_def)
    then have "bind_rows d k = Some b" by (simp add: mem bind_rows_def)
    then show "b \<in> ran (bind_rows d)" by (rule ranI)
  next
    fix b assume "b \<in> ran (bind_rows d)"
    then obtain k r where "map_of (t_binds d) k = Some r" "b = r\<lparr>br_BindingID := k\<rparr>"
      by (auto simp: ran_def bind_rows_def)
    then show "b \<in> set (all_binds d)" unfolding all_binds_def mem [symmetric] by force
  qed
qed

lemma table_gorm_db: "gorm_db table_gorm inst_rows bind_rows"
proof unfold_locales
  show "inst_rows d' = inst_rows d \<and> bind_rows d' = bind_rows d
      \<and> (\<forall>r. x = Found r \<longrightarrow> inst_rows d k = Some r) \<and> (x = RecordNotFound \<longrightarrow> inst_rows d k = None)"
    if "g_first_instance table_gorm k d = (x, d')" for k d x d'
  proof -
    note run = that
    obtain v where v: "row_read (\<lambda>d. inst_rows d k) d = (v, d')" "x = as_found v"
      using run by (auto simp: table_gorm_def map_prod_def split: prod.splits)
    from row_read_cases [OF v(1)] show ?thesis by (auto simp: v(2) as_found_cases inst_rows_def)
  qed
  show "inst_rows d' = inst_rows d \<and> bind_rows d' = bind_rows d
      \<and> (\<forall>r. y = Found r \<longrightarrow> bind_rows d k = Some r) \<and> (y = RecordNotFound \<longrightarrow> bind_rows d k = None)"
    if "g_first_binding table_gorm k d = (y, d')" for k d y d'
  proof -
    note run = that
    obtain v where v: "row_read (\<lambda>d. bind_rows d k) d = (v, d')" "y = as_found v"
      using run by (auto simp: table_gorm_def map_prod_def split: prod.splits)
    from row_read_cases [OF v(1)] show ?thesis by (auto simp: v(2) as_found_cases bind_rows_def)
  qed
  show "bind_rows d' = bind_rows d \<and> wrote (inst_rows d) ((inst_rows d)(k \<mapsto> i)) e (inst_rows d')"
    if "g_update_instance table_gorm k i d = (e, d')" "inst_rows d k \<noteq> None" "ir_InstanceID i = k" for k i d e d'
    using that by (auto simp: table_gorm_def wrote_def elim!: row_write_cases)
  show "bind_rows d' = bind_rows d \<and> wrote (inst_rows d) ((inst_rows d)(ir_InstanceID i \<mapsto> i)) e (inst_rows d')"
    if "g_create_instance table_gorm i d = (e, d')" "inst_rows d (ir_InstanceID i) = None" for i d e d'
    using that by (auto simp: table_gorm_def wrote_def elim!: row_write_cases)
  show "bind_rows d' = bind_rows d \<and> wrote (inst_rows d) ((inst_rows d)(k := None)) e (inst_rows d')"
    if "g_delete_instance table_gorm k d = (e, d')" for k d e d'
    using that by (auto simp: table_gorm_def wrote_def elim!: row_write_cases)
  show "inst_rows d' = inst_rows d \<and> wrote (bind_rows d) ((bind_rows d)(k \<mapsto> b)) e (bind_rows d')"
    if "g_update_binding table_gorm k b d = (e, d')" "bind_rows d k \<noteq> None" "br_BindingID b = k" for k b d e d'
    using that by (auto simp: table_gorm_def wrote_def elim!: row_write_cases)
  show "inst_rows d' = inst_rows d \<and> wrote (bind_rows d) ((bind_rows d)(br_BindingID b \<mapsto> b)) e (bind_rows d')"
    if "g_create_binding table_gorm b d = (e, d')" "bind_rows d (br_BindingID b) = None" for b d e d'
    using that by (auto simp: table_gorm_def wrote_def elim!: row_write_cases)
  show "inst_rows d' = inst_rows d \<and> wrote (bind_rows d) ((bind_rows d)(k := None)) e (bind_rows d')"
    if "g_delete_binding table_gorm k d = (e, d')" for k d e d'
    using that by (auto simp: table_gorm_def wrote_def elim!: row_write_cases)
  show "inst_rows d' = inst_rows d \<and> bind_rows d' = bind_rows d
      \<and> (\<forall>rs. z = Inr rs \<longrightarrow> set rs = {r \<in> ran (bind_rows d). br_InstanceID r = k})"
    if "g_bindings_of table_gorm k d = (z, d')" for k d z d'
  proof -
    have "row_read (\<lambda>d. filter (\<lambda>b. br_InstanceID b = k) (all_binds d)) d = (z, d')"
      using that by (simp add: table_gorm_def)
    from row_read_cases [OF this] show ?thesis
      using all_binds_rows(1) [of d] by (auto simp: all_binds_def)
  qed
  show "inst_rows d' = inst_rows d \<and> bind_rows d' = bind_rows d
      \<and> (\<forall>rs. z = Inr rs \<longrightarrow> set rs = ran (bind_rows d) \<and> distinct (map br_BindingID rs))"
    if "g_all_bindings table_gorm d = (z, d')" for d z d'
  proof -
    have "row_read all_binds d = (z, d')" using that by (simp add: table_gorm_def)
    from row_read_cases [OF this] show ?thesis using all_binds_rows [of d] by (auto simp: all_binds_def)
  qed
  show "inst_rows d' = inst_rows d \<and> wrote (bind_rows d) ((bind_rows d)(k \<mapsto> b\<lparr>br_Credentials := c\<rparr>)) e (bind_rows d')"
    if "g_set_credentials table_gorm k c d = (e, d')" "bind_rows d k = Some b" for k c d e d' b
    using that by (auto simp: table_gorm_def wrote_def set_bind_rows elim!: row_write_cases)
  show "br_BindingID b = k" if "bind_rows d k = Some b" for d k b
    using that by (auto simp: bind_rows_def)
qed

definition sql_store :: "encryptor \<Rightarrow> tables store" where
  "sql_store e = \<lparr>st_db = table_gorm, st_encryptor = e\<rparr>"

interpretation sql: stored "sql_store e" inst_rows bind_rows
  by (simp add: stored_def sql_store_def table_gorm_db)

section \<open>Without faults\<close>

lemma no_fault: "t_faults d = [] \<Longrightarrow> next_fault d = (None, d)"
  by (simp add: next_fault_def)

lemma no_fault_kept [simp]:
  "t_faults (put_inst i d) = t_faults d" "t_faults (put_bind b d) = t_faults d"
  "t_faults (drop_inst k d) = t_faults d" "t_faults (drop_bind k d) = t_faults d"
  "t_faults (set_bind k c d) = t_faults d"
  by (simp_all add: put_inst_def put_bind_def drop_inst_def drop_bind_def set_bind_def)

lemma sql_simps [simp]: "st_db (sql_store e) = table_gorm" "st_encryptor (sql_store e) = e"
  by (simp_all add: sql_store_def)

lemma table_calls:
  assumes "t_faults d = []"
  shows "g_first_instance table_gorm k d = (as_found (Inr (inst_rows d k)), d)"
    "g_first_binding table_gorm k d = (as_found (Inr (bind_rows d k)), d)"
    "g_update_instance table_gorm k i d = (None, if inst_rows d k = None then d else put_inst i d)"
    "inst_rows d (ir_InstanceID i) = None \<Longrightarrow> g_create_instance table_gorm i d = (None, put_inst i d)"
    "g_delete_instance table_gorm k d = (None, drop_inst k d)"
    "g_update_binding table_gorm k b d = (None, if bind_rows d k = None then d else put_bind b d)"
    "bind_rows d (br_BindingID b) = None \<Longrightarrow> g_create_binding table_gorm b d = (None, put_bind b d)"
    "g_delete_binding table_gorm k d = (None, drop_bind k d)"
    "g_bindings_of table_gorm k d = (Inr (filter (\<lambda>b. br_InstanceID b = k) (all_binds d)), d)"
    "g_all_bindings table_gorm d = (Inr (all_binds d), d)"
    "g_set_credentials table_gorm k c d = (None, set_bind k c d)"
    "g_exec table_gorm ddl d = (None, d)"
  using assms by (simp_all add: table_gorm_def row_read_def row_write_def no_fault)

lemma sql_calls:
  assumes "t_faults (w_store w) = []"
  shows "PutInstance (sql_store e) k i w = (Ok (), w\<lparr>w_store := put_inst (i\<lparr>ir_InstanceID := k\<rparr>) (w_store w)\<rparr>)"
    "GetInstance (sql_store e) k w = (Ok (inst_rows (w_store w) k), w)"
    "DeleteInstance (sql_store e) k w = (Ok (), w\<lparr>w_store := drop_inst k (w_store w)\<rparr>)"
    "DeleteBinding (sql_store e) k w = (Ok (), w\<lparr>w_store := drop_bind k (w_store w)\<rparr>)"
    "bind_rows (w_store w) k = None \<Longrightarrow> GetBinding (sql_store e) k w = (Ok None, w)"
    "bind_rows (w_store w) k = Some b \<Longrightarrow> binding_info (sql_store e) b = Ok v \<Longrightarrow>
       GetBinding (sql_store e) k w = (Ok (Some v), w)"
  using assms
  by (cases "inst_rows (w_store w) k";
      simp add: PutInstance_def GetInstance_def DeleteInstance_def DeleteBinding_def GetBinding_def Let_def
        seq_def on_db_def write_db_def table_calls)+

lemma sql_PutBinding:
  assumes "t_faults (w_store w) = []" and y: "Encrypt e (marshal_string_map creds) w = (Ok c, w1)"
  shows "PutBinding (sql_store e) k user iid ps creds w = (Ok (), w1\<lparr>w_store := put_bind
     \<lparr>br_BindingID = k, br_InstanceID = iid, br_Username = user, br_Params = ps,
      br_Credentials = base64_encode c\<rparr> (w_store w)\<rparr>)"
proof -
  have "w_store w1 = w_store w" using crypt.enc_frame [OF y] by simp
  then show ?thesis using assms
    by (cases "bind_rows (w_store w) k")
       (simp_all add: PutBinding_def Let_def seq_def on_err_def on_db_def write_db_def table_calls)
qed

lemma rotate_moves:
  assumes "reads (st_encryptor s) (br_Credentials x) = None" and "reads prev (br_Credentials x) = Some p"
    and "Encrypt (st_encryptor s) p w = (Ok c, w1)"
    and "g_set_credentials (st_db s) (br_BindingID x) (base64_encode c) (w_store w1) = (None, d)"
  shows "rotate_loop s prev n (x # rows) w = rotate_loop s prev (n + 1) rows (w1\<lparr>w_store := d\<rparr>)"
  using assms by (auto simp: reads_def split: option.splits sum.splits)

lemma decrypt_all_rows:
  "decrypt_all s rs = Ok infos \<Longrightarrow> list_all2 (\<lambda>b info. binding_info s b = Ok info) rs infos"
  by (induction rs arbitrary: infos) auto

lemma binding_info_reads:
  assumes "binding_info s b = Ok info"
  shows "bi_InstanceID info = br_InstanceID b \<and> bi_Username info = br_Username b \<and> bi_Params info = br_Params b
    \<and> (\<exists>p. reads (st_encryptor s) (br_Credentials b) = Some p \<and> unmarshal_string_map p = Some (bi_Credentials info))"
  using assms by (auto simp: binding_info_def decryptCredentials_def reads_def split: option.splits sum.splits)

section \<open>Properties of the store\<close>

text \<open>
  Claim C18. A stored binding reads back: after a successful \<open>PutBinding\<close>, insert or update,
  every successful \<open>GetBinding\<close> returns the instance, user, parameters and credentials that were put,
  through JSON, encryption and base64 and back, provided the credentials are valid UTF-8.
\<close>

theorem binding_reads_back:
  assumes "gorm_db (st_db s) insts binds" and "distinct (map fst creds)" and "list_all valid_entry creds"
    and "PutBinding s k user iid ps creds w = (Ok (), w1)" and "GetBinding s k w1 = (Ok v, w2)"
  shows "v = Some \<lparr>bi_InstanceID = iid, bi_Username = user, bi_Params = ps, bi_Credentials = map_of creds\<rparr>"
  using store_contract.put_get_binding [OF store_contract_of_gorm] assms by blast

text \<open>
  Claim C17. No binding is invisible and none is invented: when \<open>BindingsForInstance\<close> succeeds, the
  answer is, entry by entry and in the order of the query, the decrypted form of the rows
  found; those are all the stored rows of the instance and only they. Each entry carries the
  columns of its row and the credentials its ciphertext decrypts to, so a row that cannot be
  decoded, decrypted or parsed makes the call fail. Nothing is changed.
\<close>

theorem no_hidden_binding:
  assumes "gorm_db (st_db s) insts binds" and "BindingsForInstance s iid w = (Ok infos, w')"
  shows "\<exists>rs. g_bindings_of (st_db s) iid (w_store w) = (Inr rs, w_store w')
       \<and> set rs = {b. \<exists>k. binds (w_store w) k = Some b \<and> br_InstanceID b = iid}
       \<and> list_all2 (\<lambda>b info. bi_InstanceID info = iid \<and> bi_Username info = br_Username b
            \<and> bi_Params info = br_Params b
            \<and> (\<exists>p. reads (st_encryptor s) (br_Credentials b) = Some p
                 \<and> unmarshal_string_map p = Some (bi_Credentials info))) rs infos
       \<and> set infos = {info. \<exists>k b. binds (w_store w) k = Some b \<and> br_InstanceID b = iid \<and> binding_info s b = Ok info}
       \<and> same_tables insts binds w w'"
proof -
  obtain z d where z: "g_bindings_of (st_db s) iid (w_store w) = (z, d)" by fastforce
  with assms(2) obtain rs where rs: "z = Inr rs" and all: "decrypt_all s rs = Ok infos" and d: "w' = w\<lparr>w_store := d\<rparr>"
    by (cases z) (auto simp: BindingsForInstance_def seq_def on_db_def)
  note law = gorm_db.bindings_of [OF assms(1) z]
  have rows: "set rs = {b. \<exists>k. binds (w_store w) k = Some b \<and> br_InstanceID b = iid}"
    using law rs by (auto simp: ran_def)
  have infos: "list_all2 (\<lambda>b info. binding_info s b = Ok info) rs infos" by (rule decrypt_all_rows [OF all])
  then have "set infos = {info. \<exists>b\<in>set rs. binding_info s b = Ok info}"
    by (induction rule: list_all2_induct) auto
  then have "set infos = {info. \<exists>k b. binds (w_store w) k = Some b \<and> br_InstanceID b = iid \<and> binding_info s b = Ok info}"
    unfolding rows by blast
  moreover have "list_all2 (\<lambda>b info. bi_InstanceID info = iid \<and> bi_Username info = br_Username b
      \<and> bi_Params info = br_Params b \<and> (\<exists>p. reads (st_encryptor s) (br_Credentials b) = Some p
        \<and> unmarshal_string_map p = Some (bi_Credentials info))) rs infos"
    by (rule list.rel_mono_strong [OF infos]) (use rows in \<open>auto dest: binding_info_reads\<close>)
  ultimately show ?thesis using z rs rows law d by (auto simp: same_tables_def)
qed

text \<open>
  Claim C16. Key rotation loses nothing, however it ends: every row keeps its plaintext, and is either
  untouched or moved from the previous key to the current one, with no other column
  changed. When it succeeds, every row is readable under the current key, so the previous
  one can be retired, and the number returned is the number of rows that needed moving.
\<close>

theorem rotation_preserves:
  assumes "gorm_db (st_db s) insts binds" and "RotateBindings s prev w = (r, w')"
  shows "insts (w_store w') = insts (w_store w)
    \<and> rotated (st_encryptor s) prev (binds (w_store w)) (binds (w_store w')) \<and> r \<noteq> Panic
    \<and> (\<forall>m. r = Ok m \<longrightarrow>
         m = card {k. \<exists>b. binds (w_store w) k = Some b \<and> reads (st_encryptor s) (br_Credentials b) = None}
       \<and> (\<forall>k b. binds (w_store w') k = Some b \<longrightarrow> reads (st_encryptor s) (br_Credentials b) \<noteq> None))"
  using stored.rotate_outcome [OF stored.intro [OF assms(1)] assms(2)] by blast

text \<open>
  Claim C33. Rotation does not check the whole database first: when the first row needs moving and the
  second is readable under neither key, the first has been rewritten under the current
  key when the error comes.
\<close>

theorem rotation_stops_midway:
  assumes "gorm_db (st_db s) insts binds"
    and "g_all_bindings (st_db s) (w_store w) = (Inr (x # y # rows), d)"
    and "reads (st_encryptor s) (br_Credentials x) = None" and "reads prev (br_Credentials x) = Some p"
    and "reads (st_encryptor s) (br_Credentials y) = None" and "reads prev (br_Credentials y) = None"
    and "Encrypt (st_encryptor s) p (w\<lparr>w_store := d\<rparr>) = (Ok c, w1)"
    and "g_set_credentials (st_db s) (br_BindingID x) (base64_encode c) d = (None, d2)"
  shows "\<exists>e. RotateBindings s prev w = (Err (1, e), w1\<lparr>w_store := d2\<rparr>)
    \<and> binds d2 (br_BindingID x) = Some (x\<lparr>br_Credentials := base64_encode c\<rparr>)"
proof -
  have seen: "binds d = binds (w_store w)" "x \<in> ran (binds (w_store w))"
    using gorm_db.all_bindings [OF assms(1,2)] by auto
  then have row: "binds d (br_BindingID x) = Some x"
    using gorm_db.binding_key [OF assms(1)] by (auto simp: ran_def)
  have store: "w_store w1 = d" using crypt.enc_frame [OF assms(7)] by simp
  have "binds d2 (br_BindingID x) = Some (x\<lparr>br_Credentials := base64_encode c\<rparr>)"
    using gorm_db.set_credentials [OF assms(1,8) row] by (simp add: wrote_def)
  moreover have "\<exists>e. rotate_loop s prev 0 (x # y # rows) (w\<lparr>w_store := d\<rparr>) = (Err (1, e), w1\<lparr>w_store := d2\<rparr>)"
    using assms(3-8) store by (auto simp: reads_def split: option.splits sum.splits)
  ultimately show ?thesis using assms(2) by (auto simp: RotateBindings_def)
qed

text \<open>
  Opening the store succeeds exactly when the configured backend opens, both tables
  are created in order, and the SQLite file, when that is the backend, is restricted to its
  owner; the store then holds the given encryptor. A state DSN of another scheme is an error.
\<close>

lemma open_prepares:
  "OpenStore sql_open gorm_open chmod cfg encr w = (Ok s, w') \<longleftrightarrow>
     (\<exists>dialect g d. stateDialector sql_open cfg = Ok dialect \<and> gorm_open dialect = Inr g
        \<and> g_exec g (stateSchema ! 0) (w_store w) = (None, d)
        \<and> g_exec g (stateSchema ! 1) d = (None, w_store w') \<and> w' = w\<lparr>w_store := w_store w'\<rparr>
        \<and> (if StateDSN cfg = [] then dialect = SqliteFile (StatePath cfg) \<and> chmod (StatePath cfg) 384 = None else True)
        \<and> s = \<lparr>st_db = g, st_encryptor = encr\<rparr>)"
proof -
  obtain a b where schema: "stateSchema = [a, b]" by (simp add: stateSchema_def)
  have tables: "create_tables g [a, b] w = (Ok (), v) \<longleftrightarrow>
      (\<exists>d. g_exec g a (w_store w) = (None, d) \<and> g_exec g b d = (None, w_store v)
         \<and> v = w\<lparr>w_store := w_store v\<rparr>)" for g v
    by (auto split: prod.splits option.splits)
  have dial: "StateDSN cfg = [] \<Longrightarrow> stateDialector sql_open cfg = Ok dialect
      \<Longrightarrow> dialect = SqliteFile (StatePath cfg)" for dialect
    by (simp add: stateDialector_def)
  let ?tail = "\<lambda>g. case (if StateDSN cfg = [] then chmod (StatePath cfg) 384 else None) of
      Some e \<Rightarrow> fail (CannotRestrict e) | None \<Rightarrow> ret \<lparr>st_db = g, st_encryptor = encr\<rparr>"
  have last: "?tail g v = (Ok s, w') \<longleftrightarrow> (StateDSN cfg = [] \<longrightarrow> chmod (StatePath cfg) 384 = None)
      \<and> s = \<lparr>st_db = g, st_encryptor = encr\<rparr> \<and> v = w'" for g v
    by (auto split: option.splits)
  have body: "(case gorm_open dialect of Inl e \<Rightarrow> fail (CannotOpen e)
      | Inr g \<Rightarrow> seq (create_tables g [a, b]) (\<lambda>_. ?tail g)) w = (Ok s, w') \<longleftrightarrow>
      (\<exists>g. gorm_open dialect = Inr g \<and> create_tables g [a, b] w = (Ok (), w')
         \<and> (StateDSN cfg = [] \<longrightarrow> chmod (StatePath cfg) 384 = None) \<and> s = \<lparr>st_db = g, st_encryptor = encr\<rparr>)"
    for dialect
    by (cases "gorm_open dialect") (simp_all add: seq_eq_Ok last schema del: create_tables.simps)
  have "OpenStore sql_open gorm_open chmod cfg encr w = (Ok s, w') \<longleftrightarrow>
      (\<exists>dialect. stateDialector sql_open cfg = Ok dialect \<and> (case gorm_open dialect of Inl e \<Rightarrow> fail (CannotOpen e)
        | Inr g \<Rightarrow> seq (create_tables g [a, b]) (\<lambda>_. ?tail g)) w = (Ok s, w'))"
    unfolding OpenStore_def seq_eq_Ok lift_apply prod.inject schema by blast
  also have "\<dots> \<longleftrightarrow> (\<exists>dialect g d. stateDialector sql_open cfg = Ok dialect \<and> gorm_open dialect = Inr g
        \<and> g_exec g a (w_store w) = (None, d)
        \<and> g_exec g b d = (None, w_store w') \<and> w' = w\<lparr>w_store := w_store w'\<rparr>
        \<and> (StateDSN cfg = [] \<longrightarrow> dialect = SqliteFile (StatePath cfg) \<and> chmod (StatePath cfg) 384 = None)
        \<and> s = \<lparr>st_db = g, st_encryptor = encr\<rparr>)"
    unfolding body tables using dial by blast
  finally have all: "OpenStore sql_open gorm_open chmod cfg encr w = (Ok s, w') \<longleftrightarrow> \<dots>" .
  have imp: "(if c then q else True) \<longleftrightarrow> (c \<longrightarrow> q)" for c q by simp
  show ?thesis unfolding imp all schema by simp
qed

section \<open>The properties at concrete inputs\<close>

declare base64_encode.simps [simp del] Encrypt.simps [simp del]

definition sample_key :: key32 where
  "sample_key = copy_key (replicate 32 (CHR ''k''))"

definition tables_world :: "string \<Rightarrow> tables \<Rightarrow> tables world" where
  "tables_world pool d = \<lparr>w_hist = [], w_pool = pool, w_store = d\<rparr>"

definition sample_row :: "string \<Rightarrow> string \<Rightarrow> string \<times> BindingRecord" where
  "sample_row k c = (k, \<lparr>br_BindingID = k, br_InstanceID = ''i'', br_Username = ''u'', br_Params = \<lparr>bp_Name = []\<rparr>,
     br_Credentials = c\<rparr>)"

abbreviation empty_tables :: tables where
  "empty_tables \<equiv> \<lparr>t_insts = [], t_binds = [], t_faults = []\<rparr>"

lemma tables_world_simps [simp]:
  "w_store (tables_world pool d) = d" "w_pool (tables_world pool d) = pool" "w_hist (tables_world pool d) = []"
  by (simp_all add: tables_world_def)

lemma sample_gcm:
  assumes "w_pool w = replicate 12 (CHR ''n'')"
  shows "\<exists>c. Encrypt (GCMEncryptor sample_key) p w = (Ok c, w\<lparr>w_pool := []\<rparr>)"
  using assms by (simp add: nonce_size_def Let_def Encrypt.simps)

lemma gcm_short: "length s < 12 \<Longrightarrow> reads (GCMEncryptor k) (base64_encode s) = None"
  by (simp add: reads_def nonce_size_def)

lemma gcm_unread: "reads (GCMEncryptor k) (base64_encode ''{}'') = None"
  by (rule gcm_short) simp

lemma noop_reads: "reads NoopEncryptor (base64_encode p) = Some p"
  by (simp add: reads_def)

text \<open>A binding put into fault-free tables, and read back.\<close>

lemma sample_put_binding:
  assumes "w_pool w = replicate 12 (CHR ''n'')" and "t_faults (w_store w) = []"
  shows "\<exists>w1 b. PutBinding (sql_store (GCMEncryptor sample_key)) ''b'' ''u'' ''i'' \<lparr>bp_Name = []\<rparr>
      [(''password'', ''p'')] w = (Ok (), w1) \<and> t_faults (w_store w1) = []
    \<and> bind_rows (w_store w1) ''b'' = Some b \<and> br_InstanceID b = ''i''
    \<and> binding_info (sql_store (GCMEncryptor sample_key)) b = Ok (info_of b [(''password'', ''p'')])"
proof -
  let ?e = "GCMEncryptor sample_key" and ?creds = "[(''password'', ''p'')]"
  obtain c where c: "Encrypt ?e (marshal_string_map ?creds) w = (Ok c, w\<lparr>w_pool := []\<rparr>)"
    using sample_gcm [OF assms(1)] by blast
  have valid: "list_all valid_entry ?creds" by (simp add: valid_entry_def) code_simp
  show ?thesis
    using sql_PutBinding [OF assms(2) c] assms(2)
      binding_info_stored [of "sql_store ?e" ?creds w c, OF _ _ valid] c
    by simp
qed

theorem binding_reads_back_witness:
  "\<exists>w1 v w2. PutBinding (sql_store (GCMEncryptor sample_key)) ''b'' ''u'' ''i'' \<lparr>bp_Name = []\<rparr> [(''password'', ''p'')]
       (tables_world (replicate 12 (CHR ''n'')) empty_tables) = (Ok (), w1)
     \<and> GetBinding (sql_store (GCMEncryptor sample_key)) ''b'' w1 = (Ok v, w2)
     \<and> v = Some \<lparr>bi_InstanceID = ''i'', bi_Username = ''u'', bi_Params = \<lparr>bp_Name = []\<rparr>,
           bi_Credentials = map_of [(''password'', ''p'')]\<rparr>"
proof -
  let ?s = "sql_store (GCMEncryptor sample_key)"
  obtain w1 b where w1: "PutBinding ?s ''b'' ''u'' ''i'' \<lparr>bp_Name = []\<rparr> [(''password'', ''p'')]
      (tables_world (replicate 12 (CHR ''n'')) empty_tables) = (Ok (), w1)"
    and b: "t_faults (w_store w1) = []" "bind_rows (w_store w1) ''b'' = Some b"
      "binding_info ?s b = Ok (info_of b [(''password'', ''p'')])"
    using sample_put_binding [of "tables_world (replicate 12 (CHR ''n'')) empty_tables"] by auto
  note get = sql_calls(6) [OF b(1-3)]
  have valid: "list_all valid_entry [(''password'', ''p'')]" by (simp add: valid_entry_def) code_simp
  have "gorm_db (st_db ?s) inst_rows bind_rows" by (simp add: table_gorm_db)
  from binding_reads_back [OF this _ valid w1 get] w1 get show ?thesis by simp
qed

theorem no_hidden_binding_witness:
  "\<exists>w1 b info. BindingsForInstance (sql_store (GCMEncryptor sample_key)) ''i'' w1 = (Ok [info], w1)
     \<and> bind_rows (w_store w1) ''b'' = Some b \<and> bi_Username info = br_Username b
     \<and> {info} = {x. \<exists>k b. bind_rows (w_store w1) k = Some b \<and> br_InstanceID b = ''i''
          \<and> binding_info (sql_store (GCMEncryptor sample_key)) b = Ok x}"
proof -
  let ?s = "sql_store (GCMEncryptor sample_key)" and ?info = "\<lambda>b. info_of b [(''password'', ''p'')]"
  obtain w0 :: "tables world" and b where b: "bind_rows (w_store w0) ''b'' = Some b" "br_InstanceID b = ''i''"
      "binding_info ?s b = Ok (?info b)"
    using sample_put_binding [of "tables_world (replicate 12 (CHR ''n'')) empty_tables"] by auto
  define w1 where "w1 = tables_world [] (empty_tables\<lparr>t_binds := [(''b'', b)]\<rparr>)"
  have key: "b\<lparr>br_BindingID := ''b''\<rparr> = b" using b(1) by (auto simp: bind_rows_def)
  have rows: "all_binds (w_store w1) = [b]" "bind_rows (w_store w1) ''b'' = Some b"
    by (simp_all add: w1_def all_binds_def bind_rows_def key)
  have list: "BindingsForInstance ?s ''i'' w1 = (Ok [?info b], w1)"
    using b rows by (simp add: BindingsForInstance_def seq_def on_db_def table_calls w1_def)
  have "gorm_db (st_db ?s) inst_rows bind_rows" by (simp add: table_gorm_db)
  from no_hidden_binding [OF this list] have "set [?info b] = {x. \<exists>k b. bind_rows (w_store w1) k = Some b
      \<and> br_InstanceID b = ''i'' \<and> binding_info ?s b = Ok x}" by blast
  then have "{?info b} = {x. \<exists>k b. bind_rows (w_store w1) k = Some b
      \<and> br_InstanceID b = ''i'' \<and> binding_info ?s b = Ok x}" by simp
  moreover have "bi_Username (?info b) = br_Username b" by (simp add: info_of_def)
  ultimately show ?thesis using list rows(2) by blast
qed

text \<open>
  The retired key of the next two is the plaintext encryptor, which the method accepts, so
  that no cipher has to be evaluated.
\<close>

theorem rotation_preserves_witness:
  "\<exists>w'. RotateBindings (sql_store (GCMEncryptor sample_key)) NoopEncryptor
       (tables_world (replicate 12 (CHR ''n'')) (empty_tables\<lparr>t_binds := [sample_row ''x'' (base64_encode ''{}'')]\<rparr>))
       = (Ok 1, w')
     \<and> (\<forall>k b. bind_rows (w_store w') k = Some b \<longrightarrow> reads (GCMEncryptor sample_key) (br_Credentials b) \<noteq> None)"
proof -
  let ?s = "sql_store (GCMEncryptor sample_key)"
  let ?w = "tables_world (replicate 12 (CHR ''n'')) (empty_tables\<lparr>t_binds := [sample_row ''x'' (base64_encode ''{}'')]\<rparr>)"
  obtain c where c: "Encrypt (GCMEncryptor sample_key) ''{}'' ?w = (Ok c, ?w\<lparr>w_pool := []\<rparr>)"
    using sample_gcm [of ?w] by auto
  let ?x = "snd (sample_row ''x'' (base64_encode ''{}''))"
  have "all_binds (w_store ?w) = [?x]" by (simp add: all_binds_def sample_row_def)
  then have loop: "RotateBindings ?s NoopEncryptor ?w = rotate_loop ?s NoopEncryptor 0 [?x] ?w"
    by (simp add: RotateBindings_def table_calls tables_world_def)
  have x: "reads (st_encryptor ?s) (br_Credentials ?x) = None" "reads NoopEncryptor (br_Credentials ?x) = Some ''{}''"
    using gcm_unread noop_reads by (simp_all add: sample_row_def)
  have enc: "Encrypt (st_encryptor ?s) ''{}'' ?w = (Ok c, ?w\<lparr>w_pool := []\<rparr>)" using c by simp
  have set: "g_set_credentials (st_db ?s) (br_BindingID ?x) (base64_encode c) (w_store (?w\<lparr>w_pool := []\<rparr>))
      = (None, set_bind (br_BindingID ?x) (base64_encode c) (w_store ?w))" by (simp add: table_calls)
  have "\<exists>w'. rotate_loop ?s NoopEncryptor 0 [?x] ?w = (Ok 1, w')"
    unfolding rotate_moves [OF x enc set] by simp
  then obtain w' where run: "RotateBindings ?s NoopEncryptor ?w = (Ok 1, w')" unfolding loop by blast
  have "gorm_db (st_db ?s) inst_rows bind_rows" by (simp add: table_gorm_db)
  from rotation_preserves [OF this run] run show ?thesis by auto
qed

theorem rotation_stops_midway_witness:
  "\<exists>e w' b. RotateBindings (sql_store (GCMEncryptor sample_key)) NoopEncryptor
       (tables_world (replicate 12 (CHR ''n''))
         (empty_tables\<lparr>t_binds := [sample_row ''x'' (base64_encode ''{}''), sample_row ''y'' ''!'']\<rparr>)) = (Err (1, e), w')
     \<and> bind_rows (w_store w') ''x'' = Some b \<and> reads (GCMEncryptor sample_key) (br_Credentials b) = Some ''{}''"
proof -
  let ?s = "sql_store (GCMEncryptor sample_key)"
  let ?d = "empty_tables\<lparr>t_binds := [sample_row ''x'' (base64_encode ''{}''), sample_row ''y'' ''!'']\<rparr>"
  let ?w = "tables_world (replicate 12 (CHR ''n'')) ?d"
  let ?x = "snd (sample_row ''x'' (base64_encode ''{}''))" and ?y = "snd (sample_row ''y'' ''!'')"
  have gorm: "gorm_db (st_db ?s) inst_rows bind_rows" by (simp add: table_gorm_db)
  have "all_binds ?d = [?x, ?y]" by (simp add: all_binds_def sample_row_def)
  then have rows: "g_all_bindings (st_db ?s) (w_store ?w) = (Inr (?x # ?y # []), ?d)" by (simp add: table_calls)
  have bad: "base64_decode ''!'' = None" by code_simp
  obtain c where c: "Encrypt (st_encryptor ?s) ''{}'' (?w\<lparr>w_store := ?d\<rparr>) = (Ok c, ?w\<lparr>w_pool := []\<rparr>)"
    using sample_gcm [of ?w] by (auto simp: tables_world_def)
  have x: "reads (st_encryptor ?s) (br_Credentials ?x) = None" "reads NoopEncryptor (br_Credentials ?x) = Some ''{}''"
    using gcm_unread noop_reads by (simp_all add: sample_row_def)
  have y: "reads (st_encryptor ?s) (br_Credentials ?y) = None" "reads NoopEncryptor (br_Credentials ?y) = None"
    by (simp_all add: sample_row_def reads_def bad)
  have "g_set_credentials (st_db ?s) (br_BindingID ?x) (base64_encode c) ?d
      = (None, set_bind (br_BindingID ?x) (base64_encode c) ?d)" by (simp add: table_calls)
  from rotation_stops_midway [OF gorm rows x y c this] have
    "\<exists>e. RotateBindings ?s NoopEncryptor ?w
      = (Err (1, e), ?w\<lparr>w_pool := [], w_store := set_bind ''x'' (base64_encode c) ?d\<rparr>)
    \<and> bind_rows (set_bind ''x'' (base64_encode c) ?d) ''x'' = Some (?x\<lparr>br_Credentials := base64_encode c\<rparr>)"
    by (simp add: sample_row_def)
  moreover have "reads (GCMEncryptor sample_key) (base64_encode c) = Some ''{}''"
    using c Encrypt_reads by fastforce
  ultimately show ?thesis by auto
qed

end
