(* ===== verification/Catalog.thy ===== *)
theory Catalog
  imports Admin
begin

text \<open>
  The server's catalogs of databases, roles and tablespaces, as far as the broker's statements
  change them: what a \<open>CREATE\<close> that was accepted has made, and no accepted \<open>DROP\<close> has removed.
  An honest server does not deny such an object when \<open>Exists\<close> asks for it. The catalog server
  accepts every statement and answers from the catalogs; it shows that servers can be honest.
\<close>

section \<open>Objects\<close>

definition creating :: "(string \<times> string) list" where
  "creating = [(''CREATE ROLE '', ''pg_roles''), (''CREATE USER '', ''pg_roles''),
     (''CREATE DATABASE '', ''pg_database''), (''CREATE TABLESPACE '', ''pg_tablespace'')]"

definition dropping :: "(string \<times> string) list" where
  "dropping = [(''DROP ROLE IF EXISTS '', ''pg_roles''), (''DROP USER IF EXISTS '', ''pg_roles''),
     (''DROP DATABASE IF EXISTS '', ''pg_database''), (''DROP TABLESPACE IF EXISTS '', ''pg_tablespace'')]"

definition name_columns :: "(string \<times> string) list" where
  "name_columns = [(''pg_roles'', ''rolname''), (''pg_database'', ''datname''), (''pg_tablespace'', ''spcname'')]"

text \<open>The identifier a statement goes on with, between double quotes.\<close>

fun first_ident :: "string \<Rightarrow> string option" where
  "first_ident [] = None"
| "first_ident (c # cs) = (if c = CHR 0x22 then map_option fst (read_quoted (CHR 0x22) cs) else None)"

fun object_of :: "(string \<times> string) list \<Rightarrow> string \<Rightarrow> (string \<times> string) option" where
  "object_of [] stmt = None"
| "object_of ((p, t) # ks) stmt =
     (if has_prefix p stmt then map_option (Pair t) (first_ident (drop (length p) stmt)) else object_of ks stmt)"

definition after_stmt :: "string \<Rightarrow> (string \<times> string) list \<Rightarrow> (string \<times> string) list" where
  "after_stmt stmt os = (case object_of creating stmt of
      Some x \<Rightarrow> List.insert x os
    | None \<Rightarrow> (case object_of dropping stmt of Some x \<Rightarrow> removeAll x os | None \<Rightarrow> os))"

definition objects :: "(string \<times> string) list \<Rightarrow> (string \<times> string) list" where
  "objects acc = fold (\<lambda>(url, stmt). after_stmt stmt) acc []"

definition honest :: "server \<Rightarrow> bool" where
  "honest srv \<longleftrightarrow> (\<forall>h url t c n. (t, c) \<in> set name_columns \<longrightarrow>
     srv_query srv h url (catalog_query t c n) = NoRows \<longrightarrow> (t, n) \<notin> set (objects (concat (map accepted_event h))))"

definition catalog_server :: server where
  "catalog_server = \<lparr>srv_connect = \<lambda>h u. None, srv_exec = \<lambda>h u s. None,
     srv_query = \<lambda>h u q. if list_ex (\<lambda>(t, n). list_ex (\<lambda>(t', c). t' = t \<and> q = catalog_query t c n) name_columns)
         (objects (concat (map accepted_event h))) then Row 1 else NoRows\<rparr>"

lemma catalog_server_honest: "honest catalog_server"
  unfolding honest_def
proof (intro allI impI notI)
  fix h url t c n
  assume t: "(t, c) \<in> set name_columns" and "srv_query catalog_server h url (catalog_query t c n) = NoRows"
    and "(t, n) \<in> set (objects (concat (map accepted_event h)))"
  moreover from this have "list_ex (\<lambda>(t', n'). list_ex (\<lambda>(t'', c'). t'' = t' \<and> catalog_query t c n = catalog_query t' c' n')
      name_columns) (objects (concat (map accepted_event h)))"
    unfolding list_ex_iff by blast
  ultimately show False by (simp add: catalog_server_def)
qed

lemma quoteLiteral_inject: "quoteLiteral m = quoteLiteral n \<Longrightarrow> m = n"
  using read_quoted_doubled [of "[]" "CHR 0x27"] by (simp add: quoteLiteral_def) (metis fst_conv option.inject)

lemma catalog_query_inject:
  assumes "catalog_query t c m = catalog_query t' c' n" and "(t, c) \<in> set name_columns" and "(t', c') \<in> set name_columns"
  shows "t = t' \<and> m = n"
  using assms by (auto simp: catalog_query_def name_columns_def dest: quoteLiteral_inject)

lemma catalog_server_unseen:
  assumes "(t, n) \<notin> set (objects acc)" and "(t, c) \<in> set name_columns"
  shows "unseen catalog_server acc t c n"
proof -
  have "\<not> list_ex (\<lambda>(t', n'). list_ex (\<lambda>(t'', c'). t'' = t' \<and> catalog_query t c n = catalog_query t' c' n') name_columns)
      (objects acc)"
    using assms catalog_query_inject unfolding list_ex_iff by blast
  then show ?thesis by (simp add: unseen_def catalog_server_def)
qed

lemma catalog_server_obliging: "obliging catalog_server"
  by (simp add: obliging_def catalog_server_def)

section \<open>How statements change them\<close>

text \<open>The same on sets, so that a batch can be evaluated.\<close>

definition effect :: "string \<Rightarrow> (string \<times> string) set \<Rightarrow> (string \<times> string) set" where
  "effect s S = (case object_of creating s of Some x \<Rightarrow> insert x S
     | None \<Rightarrow> (case object_of dropping s of Some x \<Rightarrow> S - {x} | None \<Rightarrow> S))"

lemma set_after_stmt: "set (after_stmt s os) = effect s (set os)"
  by (auto simp: after_stmt_def effect_def split: option.splits)

lemma set_objects: "set (objects (acc @ tr)) = fold id (map (effect \<circ> snd) tr) (set (objects acc))"
proof -
  have "set (fold (\<lambda>(url, stmt). after_stmt stmt) tr os) = fold id (map (effect \<circ> snd) tr) (set os)" for os
    by (induction tr arbitrary: os) (auto simp: set_after_stmt)
  then show ?thesis by (simp add: objects_def)
qed

text \<open>An object stays when each statement sent keeps it.\<close>

lemma objects_kept:
  assumes "\<forall>f\<in>set (take k (map (effect \<circ> snd) tr)). \<forall>S. x \<in> S \<longrightarrow> x \<in> f S" and "x \<in> set (objects acc)"
  shows "x \<in> set (objects (acc @ take k tr))"
proof -
  have "\<forall>f\<in>set fs. \<forall>S. x \<in> S \<longrightarrow> x \<in> f S \<Longrightarrow> x \<in> S \<Longrightarrow> x \<in> fold id fs S" for fs S
    by (induction fs arbitrary: S) auto
  then show ?thesis using assms by (simp add: set_objects take_map)
qed

lemmas object_of_simps = creating_def dropping_def has_prefix_def quoteIdent_def read_quoted_doubled

text \<open>The batches, for variables that quote the names of a tenant and a user.\<close>

definition quotes_names :: "TemplateVars \<Rightarrow> names \<Rightarrow> bool" where
  "quotes_names v nms \<longleftrightarrow> tv_Database v = quoteIdent (n_Database nms) \<and> tv_GroupRole v = quoteIdent (n_GroupRole nms)
     \<and> tv_Tablespace v = quoteIdent (n_Tablespace nms)"

definition tenant_objects :: "names \<Rightarrow> (string \<times> string) set" where
  "tenant_objects nms = {(''pg_roles'', n_GroupRole nms), (''pg_tablespace'', n_Tablespace nms),
     (''pg_database'', n_Database nms)}"

text \<open>What each batch does to the objects, and that only its last drops remove any.\<close>

lemma effect_batches:
  assumes "quotes_names v nms"
  shows "map effect (provision_sql v) = [insert (''pg_roles'', n_GroupRole nms), id,
      insert (''pg_tablespace'', n_Tablespace nms), insert (''pg_database'', n_Database nms), id, id, id, id]"
    and "map effect (provision_tenant_sql v) = [id, id, id]"
    and "map effect (update_sql v) = [id, id, id, id]"
    and "map effect (deprovision_sql v) = [id, id, (\<lambda>S. S - {(''pg_database'', n_Database nms)}),
      (\<lambda>S. S - {(''pg_tablespace'', n_Tablespace nms)}), id, (\<lambda>S. S - {(''pg_roles'', n_GroupRole nms)})]"
  using assms read_quoted_doubled [of "[]" "CHR 0x22"]
  by (simp_all add: intended_defs quotes_names_def effect_def object_of_simps fun_eq_iff)

lemma effect_user_batches:
  assumes "tv_Username v = quoteIdent user"
  shows "map effect (bind_sql v) = [insert (''pg_roles'', user), id]"
    and "map effect (bind_tenant_sql v) = [id, id]"
    and "map effect (unbind_tenant_sql v) = [id, id]"
    and "map effect (unbind_sql v) = [id, (\<lambda>S. S - {(''pg_roles'', user)})]"
  using assms read_quoted_doubled [of "[]" "CHR 0x22"]
  by (simp_all add: intended_defs effect_def object_of_simps fun_eq_iff)

section \<open>How the operations change them\<close>

lemma trace_effects:
  "map (effect \<circ> snd) (provision_trace T a nms spec pw) = [insert (''pg_roles'', n_GroupRole nms), id,
      insert (''pg_tablespace'', n_Tablespace nms), insert (''pg_database'', n_Database nms), id, id, id, id, id, id, id]"
  "map (effect \<circ> snd) (deprovision_trace T a nms) = [id, id, (\<lambda>S. S - {(''pg_database'', n_Database nms)}),
      (\<lambda>S. S - {(''pg_tablespace'', n_Tablespace nms)}), id, (\<lambda>S. S - {(''pg_roles'', n_GroupRole nms)})]"
  "map (effect \<circ> snd) (update_trace T a nms spec) = [id, id, id, id]"
  "map (effect \<circ> snd) (bind_trace T a nms user pw) = [insert (''pg_roles'', user), id, id, id]"
  "map (effect \<circ> snd) (unbind_trace T a nms user) = [id, id, id, (\<lambda>S. S - {(''pg_roles'', user)})]"
proof -
  have v: "quotes_names (provision_vars a nms spec pw) nms" "quotes_names (buildVars a nms spec) nms" for spec
    by (simp_all add: quotes_names_def provision_vars_def buildVars_def)
  have u: "tv_Username (bind_vars a nms user pw) = quoteIdent user" "tv_Username (user_vars a nms user) = quoteIdent user"
    by (simp_all add: bind_vars_def user_vars_def)
  have c: "effect \<circ> snd \<circ> Pair url = effect" for url :: string by (simp add: fun_eq_iff)
  show "map (effect \<circ> snd) (provision_trace T a nms spec pw) = [insert (''pg_roles'', n_GroupRole nms), id,
      insert (''pg_tablespace'', n_Tablespace nms), insert (''pg_database'', n_Database nms), id, id, id, id, id, id, id]"
    "map (effect \<circ> snd) (deprovision_trace T a nms) = [id, id, (\<lambda>S. S - {(''pg_database'', n_Database nms)}),
      (\<lambda>S. S - {(''pg_tablespace'', n_Tablespace nms)}), id, (\<lambda>S. S - {(''pg_roles'', n_GroupRole nms)})]"
    "map (effect \<circ> snd) (update_trace T a nms spec) = [id, id, id, id]"
    "map (effect \<circ> snd) (bind_trace T a nms user pw) = [insert (''pg_roles'', user), id, id, id]"
    "map (effect \<circ> snd) (unbind_trace T a nms user) = [id, id, id, (\<lambda>S. S - {(''pg_roles'', user)})]"
    by (simp_all add: provision_trace_def deprovision_trace_def update_trace_def bind_trace_def unbind_trace_def c
        effect_batches [OF v(1)] effect_batches [OF v(2)] effect_user_batches [OF u(1)] effect_user_batches [OF u(2)])
qed

lemma objects_after:
  "set (objects (acc @ provision_trace T a nms spec pw)) = set (objects acc) \<union> tenant_objects nms"
  "set (objects (acc @ deprovision_trace T a nms)) = set (objects acc) - tenant_objects nms"
  "set (objects (acc @ update_trace T a nms spec)) = set (objects acc)"
  "set (objects (acc @ bind_trace T a nms user pw)) = insert (''pg_roles'', user) (set (objects acc))"
  "set (objects (acc @ unbind_trace T a nms user)) = set (objects acc) - {(''pg_roles'', user)}"
  unfolding set_objects trace_effects by (auto simp: tenant_objects_def)

text \<open>Creating and updating remove nothing, however far they get; removing spares all others.\<close>

lemma objects_kept_by:
  assumes "x \<in> set (objects acc)"
  shows "x \<in> set (objects (acc @ take k (provision_trace T a nms spec pw)))"
    and "x \<in> set (objects (acc @ take k (update_trace T a nms spec)))"
    and "x \<in> set (objects (acc @ take k (bind_trace T a nms user pw)))"
    and "x \<notin> tenant_objects nms \<Longrightarrow> x \<in> set (objects (acc @ take k (deprovision_trace T a nms)))"
    and "x \<noteq> (''pg_roles'', user) \<Longrightarrow> x \<in> set (objects (acc @ take k (unbind_trace T a nms user)))"
  by (intro objects_kept ballI; use assms in \<open>fastforce simp: trace_effects tenant_objects_def dest!: in_set_takeD\<close>)+

text \<open>The role is the last to go, so a removal that fails leaves it.\<close>

lemma role_goes_last:
  assumes "x \<in> set (objects acc)"
  shows "k < length (deprovision_trace T a nms) \<Longrightarrow> x = (''pg_roles'', n_GroupRole nms)
      \<Longrightarrow> x \<in> set (objects (acc @ take k (deprovision_trace T a nms)))"
    and "k < length (unbind_trace T a nms user) \<Longrightarrow> x = (''pg_roles'', user)
      \<Longrightarrow> x \<in> set (objects (acc @ take k (unbind_trace T a nms user)))"
proof -
  have short: "f \<in> set (butlast (map (effect \<circ> snd) tr))"
    if "f \<in> set (take k (map (effect \<circ> snd) tr))" "k < length tr" for f and tr :: "(string \<times> string) list"
  proof -
    have "set (take k (map (effect \<circ> snd) tr)) \<subseteq> set (take (length tr - 1) (map (effect \<circ> snd) tr))"
      using that(2) by (intro set_take_subset_set_take) simp
    then show ?thesis using that(1) by (auto simp: butlast_conv_take)
  qed
  show "x \<in> set (objects (acc @ take k (deprovision_trace T a nms)))"
    if k: "k < length (deprovision_trace T a nms)" and x: "x = (''pg_roles'', n_GroupRole nms)"
  proof (rule objects_kept [OF _ assms])
    have "\<forall>f\<in>set (butlast (map (effect \<circ> snd) (deprovision_trace T a nms))). \<forall>S. x \<in> S \<longrightarrow> x \<in> f S"
      using x by (simp add: trace_effects)
    then show "\<forall>f\<in>set (take k (map (effect \<circ> snd) (deprovision_trace T a nms))). \<forall>S. x \<in> S \<longrightarrow> x \<in> f S"
      using short k by blast
  qed
  show "x \<in> set (objects (acc @ take k (unbind_trace T a nms user)))"
    if k: "k < length (unbind_trace T a nms user)" and x: "x = (''pg_roles'', user)"
  proof (rule objects_kept [OF _ assms])
    have "\<forall>f\<in>set (butlast (map (effect \<circ> snd) (unbind_trace T a nms user))). \<forall>S. x \<in> S \<longrightarrow> x \<in> f S"
      using x by (simp add: trace_effects)
    then show "\<forall>f\<in>set (take k (map (effect \<circ> snd) (unbind_trace T a nms user))). \<forall>S. x \<in> S \<longrightarrow> x \<in> f S"
      using short k by blast
  qed
qed

lemma catalog_server_unseen_names:
  assumes "set (objects acc) \<inter> tenant_objects nms = {}"
  shows "unseen_names catalog_server acc nms"
  using assms by (auto simp: unseen_names_def tenant_objects_def name_columns_def intro!: catalog_server_unseen)

end
