(* ===== verification/Lifecycle.thy ===== *)
theory Lifecycle
  imports Tenants Tables Catalog
begin

text \<open>
  The properties of the broker as it is deployed: over the driver's implementation of the
  database interface, any server, and any state database that keeps the laws of GORM; then
  the same applied to a server that accepts everything and to the tables of \<open>Tables\<close>.
\<close>

section \<open>A deployed broker\<close>

definition deployed ::
    "config \<Rightarrow> server \<Rightarrow> 'd broker \<Rightarrow> ('d \<Rightarrow> string \<rightharpoonup> InstanceRecord) \<Rightarrow> ('d \<Rightarrow> string \<rightharpoonup> BindingRecord) \<Rightarrow> bool" where
  "deployed cfg srv b insts binds \<longleftrightarrow> broker_ok b \<and> bk_cfg b = cfg
     \<and> (\<exists>env. bk_admin b = NewAdmin cfg env (NewDB srv cfg)) \<and> gorm_db (st_db (bk_store b)) insts binds"

lemma deployed_parts: "deployed cfg srv b insts binds \<Longrightarrow> broker_parts b insts binds (connURL cfg)"
  by (auto simp: deployed_def broker_parts_def store_contract_of_gorm gauss.admin_contract_axioms)

lemma deployed_stored: "deployed cfg srv b insts binds \<Longrightarrow> stored (bk_store b) insts binds"
  by (simp add: deployed_def stored_def)

lemma deployed_ok: "deployed cfg srv b insts binds \<Longrightarrow> broker_ok b"
  by (simp add: deployed_def)

definition sql_broker :: "config \<Rightarrow> server \<Rightarrow> catalog_data \<Rightarrow> template_env \<Rightarrow> encryptor \<Rightarrow> validator \<Rightarrow> tables broker" where
  "sql_broker cfg srv data env e validate =
     NewBroker cfg data (NewAdmin cfg env (NewDB srv cfg)) (sql_store e) validate"

lemma sql_broker_simps [simp]:
  "bk_cfg (sql_broker cfg srv data env e v) = cfg" "bk_catalog (sql_broker cfg srv data env e v) = data"
  "bk_admin (sql_broker cfg srv data env e v) = NewAdmin cfg env (NewDB srv cfg)"
  "bk_store (sql_broker cfg srv data env e v) = sql_store e" "bk_validate (sql_broker cfg srv data env e v) = v"
  by (simp_all add: sql_broker_def NewBroker_def)

interpretation osb: broker_parts "sql_broker cfg srv data env e validate" inst_rows bind_rows "connURL cfg"
  by (simp add: broker_parts_def sql.store_contract_axioms gauss.admin_contract_axioms)

lemma sql_deployed:
  assumes "broker_ok (sql_broker cfg srv data env e v)"
  shows "deployed cfg srv (sql_broker cfg srv data env e v) inst_rows bind_rows"
  using assms by (auto simp: deployed_def table_gorm_db)

section \<open>Runs\<close>

text \<open>
  The broker serves requests in any order (the lock makes each one step) and the operating
  system supplies entropy between them.
\<close>

inductive broker_step :: "'d broker \<Rightarrow> 'd world \<Rightarrow> 'd world \<Rightarrow> bool" for b where
  served: "handle b rq w = (r, w') \<Longrightarrow> broker_step b w w'"
| entropy: "broker_step b w (w\<lparr>w_pool := pool\<rparr>)"

abbreviation broker_runs :: "'d broker \<Rightarrow> 'd world \<Rightarrow> 'd world \<Rightarrow> bool" where
  "broker_runs b \<equiv> (broker_step b)\<^sup>*\<^sup>*"

lemma broker_step_inv:
  assumes "deployed cfg srv b insts binds" and "broker_step b w w'" and "tenant_inv b (tenants_of insts binds w)"
  shows "tenant_inv b (tenants_of insts binds w')"
  using assms(2)
proof (cases rule: broker_step.cases)
  case (served rq r)
  from broker_parts.refines [OF deployed_parts [OF assms(1)] deployed_ok [OF assms(1)] assms(3) this]
  show ?thesis using assms(3) tenant_step_inv by metis
next
  case (entropy pool)
  then show ?thesis using assms(3) by (simp add: tenants_of_def)
qed

section \<open>What success leaves\<close>

lemma sent_errors:
  "seq (Broker_names b iid n) (\<lambda>nms. seq (pass (m nms)) (\<lambda>_. pass k)) w = (Err e, w') \<Longrightarrow> \<exists>x. e = PassThrough x"
  by (cases "NamesFor iid (NamePrefix (bk_cfg b)) n") (auto simp: seq_eq_Err pass_def on_err_eq_Err)

lemma same_tables_quiet:
  "same_tables insts binds w w' \<Longrightarrow> accepted w' = accepted w \<and> tenants_of insts binds w' = tenants_of insts binds w"
  by (simp add: same_tables_def accepted_def tenants_of_def)

lemma bind_success:
  assumes "deployed cfg srv b insts binds" and "Broker_Bind b iid bid d w = (Ok x, w')"
  shows "\<exists>spec i. bind_request b d spec \<and> insts (w_store w) iid = Some i
    \<and> (if b_AlreadyExists x
       then accepted w' = accepted w \<and> tenants_of insts binds w' = tenants_of insts binds w
          \<and> (\<exists>v e. binds (w_store w) bid = Some v \<and> binding_info (bk_store b) v = Ok e \<and> bi_InstanceID e = iid
               \<and> bi_Params e = spec \<and> b_Credentials x = bi_Credentials e)
       else binds (w_store w) bid = None \<and> (\<exists>nms user pw v.
            NamesFor iid (NamePrefix cfg) (ip_Name (ir_Params i)) = Some nms
          \<and> bound_row b iid bid spec nms user pw v
          \<and> b_Credentials x = map_of (credentials b (n_Database nms) user pw)
          \<and> accepted w' = accepted w @ bind_trace (connURL cfg) (bk_admin b) nms user pw
          \<and> tenants_of insts binds w' = (insts (w_store w), (binds (w_store w))(bid \<mapsto> v))))"
proof -
  note parts = deployed_parts [OF assms(1)] and ok = deployed_ok [OF assms(1)]
  have cfg: "bk_cfg b = cfg" using assms(1) by (simp add: deployed_def)
  from assms(2) show ?thesis
  proof (cases rule: broker_parts.bind_steps [OF parts, consumes 1])
    case (4 spec i v e)
    then show ?thesis using same_tables_quiet [OF 4(3)] by (auto split: if_splits)
  next
    case (5 spec i w1)
    have eq: "insts (w_store w1) = insts (w_store w)" "binds (w_store w1) = binds (w_store w)" "accepted w1 = accepted w"
      using 5(4) by (simp_all add: same_tables_def accepted_def)
    from 5(5) ok show ?thesis
    proof (cases rule: broker_parts.do_bind_steps [OF parts, consumes 2])
      case (1 nms user pw v)
      then show ?thesis using 5(1,2,3) by (auto simp: eq cfg tenants_of_def)
    qed auto
  qed auto
qed

lemma bind_leaves_row:
  assumes "deployed cfg srv b insts binds" and "Broker_Bind b iid bid d w = (Ok x, w1)"
  shows "\<exists>spec i v e. bind_request b d spec \<and> insts (w_store w1) iid = Some i \<and> binds (w_store w1) bid = Some v
    \<and> binding_info (bk_store b) v = Ok e \<and> bi_InstanceID e = iid \<and> bi_Params e = spec
    \<and> bi_Credentials e = b_Credentials x"
proof -
  have row: "bi_InstanceID (info_of v c) = br_InstanceID v" "bi_Params (info_of v c) = br_Params v"
    "bi_Credentials (info_of v c) = map_of c" for v c by (simp_all add: info_of_def)
  have bound: "bound_row b iid bid spec nms user pw v \<Longrightarrow> br_InstanceID v = iid \<and> br_Params v = spec
      \<and> binding_info (bk_store b) v = Ok (info_of v (credentials b (n_Database nms) user pw))" for spec nms user pw v
    unfolding bound_row_def by (metis BindingRecord.select_convs(2,4))
  show ?thesis
    using bind_success [OF assms] by (cases "b_AlreadyExists x") (auto simp: tenants_of_def row dest!: bound)
qed

lemma update_success:
  assumes "deployed cfg srv b insts binds" and "tenant_inv b (tenants_of insts binds w)"
    and "Broker_Update b iid d w = (Ok (), w')"
  shows "\<exists>i i' nms. update_request b d i i' \<and> insts (w_store w) iid = Some i
     \<and> NamesFor iid (NamePrefix cfg) (ip_Name (ir_Params i)) = Some nms
     \<and> accepted w' = accepted w @ update_trace (connURL cfg) (bk_admin b) nms (ir_Params i')
     \<and> tenants_of insts binds w' = ((insts (w_store w))(iid \<mapsto> i'), binds (w_store w))
     \<and> inst_ok b iid i' \<and> same_tenant i i'"
proof -
  note parts = deployed_parts [OF assms(1)] and ok = deployed_ok [OF assms(1)]
  have cfg: "bk_cfg b = cfg" using assms(1) by (simp add: deployed_def)
  from assms(3) show ?thesis
  proof (cases rule: broker_parts.update_steps [OF parts, consumes 1])
    case (5 i i' w1)
    have eq: "insts (w_store w1) = insts (w_store w)" "binds (w_store w1) = binds (w_store w)" "accepted w1 = accepted w"
      using 5(3) by (simp_all add: same_tables_def accepted_def)
    have "inst_ok b iid i" using assms(2) 5(2) by (simp add: tenant_inv_def tenants_of_def)
    note up = updated_ok [OF ok this 5(1)]
    have self: "i'\<lparr>ir_InstanceID := iid\<rparr> = i'" using up(1) by (simp add: inst_ok_def)
    have name: "ip_Name (ir_Params i') = ip_Name (ir_Params i)" using up(2) by (auto simp: same_tenant_def)
    from 5(4) ok up(3) show ?thesis
    proof (cases rule: broker_parts.do_update_steps [OF parts, consumes 3])
      case (2 nms)
      then show ?thesis using 5(1,2) up(1,2) self name by (auto simp: eq cfg tenants_of_def put_rows_def)
    qed auto
  qed auto
qed

section \<open>Properties\<close>

text \<open>
  Claim C1. The broker refines its abstract machine: on any server and any state database
  that keeps the laws of GORM, failures and lost acknowledgements included, a request
  either leaves both tables as they are or makes exactly one step of the life cycle:
  provision a free id, update the quotas of a known instance, remove an instance without
  bindings, add a binding to a known instance, remove a binding.
\<close>

theorem broker_refines:
  assumes "deployed cfg srv b insts binds" and "tenant_inv b (tenants_of insts binds w)"
    and "handle b rq w = (r, w')"
  shows "tenants_of insts binds w' = tenants_of insts binds w
    \<or> tenant_step b (tenants_of insts binds w) (tenants_of insts binds w')"
  using broker_parts.refines [OF deployed_parts deployed_ok] assms by blast

text \<open>
  Claim C2. In every world the broker reaches from an empty state database, by any requests in
  any order: each stored instance is of its service, on a plan of the catalog and within
  that plan, under names that exist; each stored binding belongs to a stored instance, has
  the user derived from its id, and credentials that decrypt and name that instance's
  database.
\<close>

theorem broker_invariant:
  assumes "deployed cfg srv b insts binds" and "tenants_of insts binds w = (Map.empty, Map.empty)"
    and "broker_runs b w w'"
  shows "tenant_inv b (tenants_of insts binds w')"
  using assms(3)
proof (induction rule: rtranclp_induct)
  case base
  then show ?case by (simp add: assms(2) tenant_inv_empty)
next
  case (step w1 w2)
  then show ?case using broker_step_inv [OF assms(1)] by blast
qed

text \<open>
  Claim C3. An error the platform is told about changes nothing: whenever a request is answered
  with a 400, a conflict, a not-found or a refused plan change, no statement has been
  accepted by the server and both tables are as before. Only an error passed through from
  the server or the state database (a 500) can leave something behind.
\<close>

theorem client_errors_change_nothing:
  assumes "deployed cfg srv b insts binds" and "handle b rq w = (Err e, w')" and "\<nexists>x. e = PassThrough x"
  shows "accepted w' = accepted w \<and> tenants_of insts binds w' = tenants_of insts binds w"
proof -
  note parts = deployed_parts [OF assms(1)] and ok = deployed_ok [OF assms(1)]
  note quiet = same_tables_quiet [of insts binds]
  have err: "respond f m w = (Err e, w') \<Longrightarrow> m w = (Err e, w')" for f :: "'x \<Rightarrow> response" and m
    by (auto simp: respond_def seq_eq_Err)
  show ?thesis
  proof (cases rq)
    case (ProvisionReq iid d)
    then have "Broker_Provision b iid d w = (Err e, w')" using assms(2) err by auto
    then show ?thesis
    proof (cases rule: broker_parts.provision_steps [OF parts, consumes 1])
      case (4 p spec w1)
      note clean = clean_spec_within [OF provision_request_within(2) [OF ok 4(1)]]
      from 4(4) ok clean show ?thesis
        by (cases rule: broker_parts.do_provision_steps [OF parts, consumes 3])
           (use assms(3) quiet [OF 4(3)] in \<open>auto simp: tenants_of_def\<close>)
    qed (use quiet assms(3) in \<open>auto simp: tenants_of_def\<close>)
  next
    case (UpdateReq iid d)
    then have "Broker_Update b iid d w = (Err e, w')" using assms(2) err by auto
    then show ?thesis
    proof (cases rule: broker_parts.update_steps [OF parts, consumes 1])
      case (5 i i' w1)
      from sent_errors [OF 5(4) [unfolded do_update_def]] assms(3) show ?thesis by blast
    qed (use quiet assms(3) in \<open>auto simp: tenants_of_def\<close>)
  next
    case (DeprovisionReq iid sid)
    then have "Broker_Deprovision b iid sid w = (Err e, w')" using assms(2) err by auto
    then show ?thesis
    proof (cases rule: broker_parts.deprovision_steps [OF parts, consumes 1])
      case (5 i w1)
      from sent_errors [OF 5(4) [unfolded do_deprovision_def]] assms(3) show ?thesis by blast
    qed (use quiet assms(3) in \<open>auto simp: tenants_of_def\<close>)
  next
    case (BindReq iid bid d)
    then have "Broker_Bind b iid bid d w = (Err e, w')" using assms(2) err by auto
    then show ?thesis
    proof (cases rule: broker_parts.bind_steps [OF parts, consumes 1])
      case (5 spec i w1)
      from 5(5) ok show ?thesis
        by (cases rule: broker_parts.do_bind_steps [OF parts, consumes 2])
           (use assms(3) quiet [OF 5(4)] in \<open>auto simp: tenants_of_def\<close>)
    qed (use quiet assms(3) in \<open>auto simp: tenants_of_def\<close>)
  next
    case (UnbindReq iid bid sid)
    then have "Broker_Unbind b iid bid sid w = (Err e, w')" using assms(2) err by auto
    then show ?thesis
    proof (cases rule: broker_parts.unbind_steps [OF parts, consumes 1])
      case (4 i v x w1)
      from sent_errors [OF 4(6) [unfolded do_unbind_def]] assms(3) show ?thesis by blast
    qed (use quiet assms(3) in \<open>auto simp: tenants_of_def\<close>)
  qed
qed

text \<open>
  Claim C7. What a successful provisioning means: the request passed the catalog's schema and
  resolved within the plan, and either the instance was already stored with the same plan and
  parameters and nothing was done, or its id was free, the server has accepted exactly the
  provisioning statements for its names, and the record is stored.
\<close>

theorem provision_answers:
  assumes "deployed cfg srv b insts binds" and "Broker_Provision b iid d w = (Ok repeated, w')"
  shows "\<exists>p spec. provision_request b d p spec \<and> within_plan p spec \<and> p \<in> set (Plans (bk_catalog b))
    \<and> (if repeated then accepted w' = accepted w \<and> tenants_of insts binds w' = tenants_of insts binds w
          \<and> (\<exists>i. insts (w_store w) iid = Some i \<and> ir_PlanID i = p_ID p \<and> ir_Params i = spec)
        else insts (w_store w) iid = None \<and> (\<exists>nms pw. NamesFor iid (NamePrefix cfg) (ip_Name spec) = Some nms
          \<and> accepted w' = accepted w @ provision_trace (connURL cfg) (bk_admin b) nms spec pw
          \<and> tenants_of insts binds w' = ((insts (w_store w))(iid \<mapsto> (new_instance b p spec nms)\<lparr>ir_InstanceID := iid\<rparr>),
              binds (w_store w))))"
proof -
  note parts = deployed_parts [OF assms(1)] and ok = deployed_ok [OF assms(1)]
  have cfg: "bk_cfg b = cfg" using assms(1) by (simp add: deployed_def)
  from assms(2) show ?thesis
  proof (cases rule: broker_parts.provision_steps [OF parts, consumes 1])
    case (3 p spec i)
    then show ?thesis
      using provision_request_within [OF ok 3(1)] same_tables_quiet [OF 3(3)] by (auto split: if_splits)
  next
    case (4 p spec w1)
    note within = provision_request_within [OF ok 4(1)]
    have eq: "insts (w_store w1) = insts (w_store w)" "binds (w_store w1) = binds (w_store w)" "accepted w1 = accepted w"
      using 4(3) by (simp_all add: same_tables_def accepted_def)
    from 4(4) ok clean_spec_within [OF within(2)] show ?thesis
    proof (cases rule: broker_parts.do_provision_steps [OF parts, consumes 3])
      case (1 nms pw)
      then show ?thesis using within 4(1,2) by (auto simp: eq cfg tenants_of_def)
    qed auto
  qed auto
qed

text \<open>
  Claim C5. Removing is guarded and complete. An instance with a stored binding is never
  deprovisioned: the request fails and nothing is sent. A successful deprovisioning has found
  the instance without bindings, had the whole removal batch accepted, and forgotten the
  record; a successful unbinding has done the same for a binding of the named instance.
\<close>

theorem removals_guarded:
  assumes "deployed cfg srv b insts binds" and "tenant_inv b (tenants_of insts binds w)"
  shows "(Broker_Deprovision b iid sid w = (r, w') \<longrightarrow>
      (if \<exists>v\<in>ran (binds (w_store w)). br_InstanceID v = iid
       then \<not> is_ok r \<and> accepted w' = accepted w \<and> tenants_of insts binds w' = tenants_of insts binds w
       else r = Ok () \<longrightarrow> (\<exists>i nms. insts (w_store w) iid = Some i
          \<and> NamesFor iid (NamePrefix cfg) (ip_Name (ir_Params i)) = Some nms
          \<and> accepted w' = accepted w @ deprovision_trace (connURL cfg) (bk_admin b) nms
          \<and> tenants_of insts binds w' = ((insts (w_store w))(iid := None), binds (w_store w)))))
    \<and> (Broker_Unbind b iid bid sid w = (Ok (), w') \<longrightarrow> (\<exists>i v nms. insts (w_store w) iid = Some i
          \<and> binds (w_store w) bid = Some v \<and> br_InstanceID v = iid
          \<and> NamesFor iid (NamePrefix cfg) (ip_Name (ir_Params i)) = Some nms
          \<and> accepted w' = accepted w @ unbind_trace (connURL cfg) (bk_admin b) nms (br_Username v)
          \<and> tenants_of insts binds w' = (insts (w_store w), (binds (w_store w))(bid := None))))"
proof (intro conjI impI)
  note parts = deployed_parts [OF assms(1)] and ok = deployed_ok [OF assms(1)]
  have cfg: "bk_cfg b = cfg" using assms(1) by (simp add: deployed_def)
  {
    assume run: "Broker_Deprovision b iid sid w = (r, w')"
    then show "if \<exists>v\<in>ran (binds (w_store w)). br_InstanceID v = iid
       then \<not> is_ok r \<and> accepted w' = accepted w \<and> tenants_of insts binds w' = tenants_of insts binds w
       else r = Ok () \<longrightarrow> (\<exists>i nms. insts (w_store w) iid = Some i
          \<and> NamesFor iid (NamePrefix cfg) (ip_Name (ir_Params i)) = Some nms
          \<and> accepted w' = accepted w @ deprovision_trace (connURL cfg) (bk_admin b) nms
          \<and> tenants_of insts binds w' = ((insts (w_store w))(iid := None), binds (w_store w)))"
    proof (cases rule: broker_parts.deprovision_steps [OF parts, consumes 1])
      case (5 i w1)
      have eq: "insts (w_store w1) = insts (w_store w)" "binds (w_store w1) = binds (w_store w)" "accepted w1 = accepted w"
        using 5(3) by (simp_all add: same_tables_def accepted_def)
      from 5(4) ok show ?thesis
      proof (cases rule: broker_parts.do_deprovision_steps [OF parts, consumes 2])
        case (2 nms)
        then show ?thesis using 5(1,2) by (auto simp: eq cfg tenants_of_def put_rows_def)
      qed (use 5(2) in auto)
    qed (use same_tables_quiet [of insts binds w w'] in auto)
  next
    assume run: "Broker_Unbind b iid bid sid w = (Ok (), w')"
    then show "\<exists>i v nms. insts (w_store w) iid = Some i
          \<and> binds (w_store w) bid = Some v \<and> br_InstanceID v = iid
          \<and> NamesFor iid (NamePrefix cfg) (ip_Name (ir_Params i)) = Some nms
          \<and> accepted w' = accepted w @ unbind_trace (connURL cfg) (bk_admin b) nms (br_Username v)
          \<and> tenants_of insts binds w' = (insts (w_store w), (binds (w_store w))(bid := None))"
    proof (cases rule: broker_parts.unbind_steps [OF parts, consumes 1])
      case (4 i v e w1)
      have eq: "insts (w_store w1) = insts (w_store w)" "binds (w_store w1) = binds (w_store w)" "accepted w1 = accepted w"
        using 4(5) by (simp_all add: same_tables_def accepted_def)
      have user: "bi_Username e = br_Username v" using 4(4) by (auto simp: binding_info_def)
      have "bind_ok b (insts (w_store w)) bid v" using assms(2) 4(2) by (simp add: tenant_inv_def tenants_of_def)
      from bind_ok_user [OF ok this] have "list_all name_char (bi_Username e)" by (simp add: user)
      from 4(6) ok this show ?thesis
      proof (cases rule: broker_parts.do_unbind_steps [OF parts, consumes 3])
        case (2 nms)
        then show ?thesis using 4(1,2,3) by (auto simp: eq cfg user tenants_of_def put_rows_def)
      qed auto
    qed auto
  }
qed

text \<open>
  Claim C6. What a successful binding answers: either the stored credentials of the identical
  binding, with nothing done, or fresh credentials whose user and password are the ones of the
  CREATE USER statement the server accepted, and which are stored so that they read back.
\<close>

theorem bind_delivers:
  assumes "deployed cfg srv b insts binds" and "Broker_Bind b iid bid d w = (Ok x, w')"
  shows "\<exists>spec i. bind_request b d spec \<and> insts (w_store w) iid = Some i
    \<and> (if b_AlreadyExists x
       then accepted w' = accepted w \<and> tenants_of insts binds w' = tenants_of insts binds w
          \<and> (\<exists>v e. binds (w_store w) bid = Some v \<and> binding_info (bk_store b) v = Ok e \<and> bi_InstanceID e = iid
               \<and> bi_Params e = spec \<and> b_Credentials x = bi_Credentials e)
       else binds (w_store w) bid = None \<and> (\<exists>nms user pw v.
            NamesFor iid (NamePrefix cfg) (ip_Name (ir_Params i)) = Some nms
          \<and> bound_row b iid bid spec nms user pw v
          \<and> b_Credentials x = map_of (credentials b (n_Database nms) user pw)
          \<and> accepted w' = accepted w @ bind_trace (connURL cfg) (bk_admin b) nms user pw
          \<and> tenants_of insts binds w' = (insts (w_store w), (binds (w_store w))(bid \<mapsto> v))))"
  by (rule bind_success [OF assms])

text \<open>
  Claim C11. Binding is idempotent: repeating a successful bind request, with nothing in between,
  answers with the same credentials as already existing, unless the state database fails to
  read the instance or then the binding, when it answers exactly that failure; it never
  creates a second user, and changes nothing.
\<close>

theorem bind_idempotent:
  assumes "deployed cfg srv b insts binds" and "Broker_Bind b iid bid d w = (Ok x, w1)"
    and "Broker_Bind b iid bid d w1 = (r, w2)"
  shows "r = (case instance_fault (bk_store b) iid (w_store w1) of Some e \<Rightarrow> Err (PassThrough e)
       | None \<Rightarrow> (case binding_fault (bk_store b) bid (w_store (after_instance (bk_store b) iid w1)) of
             Some e \<Rightarrow> Err (PassThrough e)
           | None \<Rightarrow> Ok (x\<lparr>b_AlreadyExists := True\<rparr>)))
    \<and> accepted w2 = accepted w1 \<and> tenants_of insts binds w2 = tenants_of insts binds w1"
proof -
  note db = deployed_stored [OF assms(1)]
  let ?w = "after_instance (bk_store b) iid w1"
  let ?w2 = "after_binding (bk_store b) bid ?w"
  obtain spec i v e where spec: "bind_request b d spec" and i: "insts (w_store w1) iid = Some i"
    and v: "binds (w_store w1) bid = Some v" and e: "binding_info (bk_store b) v = Ok e"
    and same: "bi_InstanceID e = iid" "bi_Params e = spec" "bi_Credentials e = b_Credentials x"
    using bind_leaves_row [OF assms(1,2)] by blast
  have mid: "same_tables insts binds w1 ?w" by (rule stored.after_instance_tables [OF db])
  then have fin: "same_tables insts binds w1 ?w2"
    using stored.after_binding_tables [OF db, of ?w bid] by (simp add: same_tables_def)
  have v': "binds (w_store ?w) bid = Some v" using mid v by (simp add: same_tables_def)
  have x: "\<lparr>b_AlreadyExists = True, b_Credentials = bi_Credentials e\<rparr> = x\<lparr>b_AlreadyExists := True\<rparr>"
    using same(3) by (cases x) simp
  obtain params where req: "bd_ServiceID d = s_ServiceID (Service (bk_catalog b))"
    "parseParams (bk_validate b) bindingSchema (bd_RawParameters d) = Ok params" "spec = binding_spec params"
    using spec by (auto simp: bind_request_def)
  note looks = stored.GetInstance_answer [OF db, of iid w1] stored.GetBinding_answer [OF db, of bid ?w]
  have "(r, w2) = (case instance_fault (bk_store b) iid (w_store w1) of Some e \<Rightarrow> (Err (PassThrough e), ?w)
       | None \<Rightarrow> (case binding_fault (bk_store b) bid (w_store ?w) of Some e \<Rightarrow> (Err (PassThrough e), ?w2)
           | None \<Rightarrow> (Ok (x\<lparr>b_AlreadyExists := True\<rparr>), ?w2)))"
    using assms(3) i v' e same(1,2) req
    by (cases "instance_fault (bk_store b) iid (w_store w1)"; cases "binding_fault (bk_store b) bid (w_store ?w)")
       (simp_all add: Broker_Bind_def seq_def check_service_apply pass_apply Let_def looks x)
  then show ?thesis using same_tables_quiet [OF mid] same_tables_quiet [OF fin]
    by (auto split: option.splits)
qed

text \<open>
  Claim C10. An update touches the two quotas and nothing else: it succeeds only on a stored
  instance, on its own plan, and leaves plan, names, compatibility and encoding as they were,
  the quotas within the plan, and the server with exactly the update batch.
\<close>

theorem update_only_quotas:
  assumes "deployed cfg srv b insts binds" and "tenant_inv b (tenants_of insts binds w)"
    and "Broker_Update b iid d w = (Ok (), w')"
  shows "\<exists>i i' p nms. insts (w_store w) iid = Some i \<and> (ud_PlanID d = [] \<or> ud_PlanID d = ir_PlanID i)
     \<and> same_tenant i i' \<and> p \<in> set (Plans (bk_catalog b)) \<and> p_ID p = ir_PlanID i \<and> within_plan p (ir_Params i')
     \<and> NamesFor iid (NamePrefix cfg) (ip_Name (ir_Params i)) = Some nms
     \<and> accepted w' = accepted w @ update_trace (connURL cfg) (bk_admin b) nms (ir_Params i')
     \<and> tenants_of insts binds w' = ((insts (w_store w))(iid \<mapsto> i'), binds (w_store w))"
proof -
  obtain i i' nms where up: "update_request b d i i'" "insts (w_store w) iid = Some i"
      "NamesFor iid (NamePrefix cfg) (ip_Name (ir_Params i)) = Some nms"
      "accepted w' = accepted w @ update_trace (connURL cfg) (bk_admin b) nms (ir_Params i')"
      "tenants_of insts binds w' = ((insts (w_store w))(iid \<mapsto> i'), binds (w_store w))"
      "inst_ok b iid i'" "same_tenant i i'"
    using update_success [OF assms] by blast
  then have "ir_PlanID i' = ir_PlanID i" by (auto simp: same_tenant_def)
  then show ?thesis using up by (auto simp: update_request_def inst_ok_def)
qed

text \<open>
  Claim C29. A successful update that names only one quota resets the other: the connection limit
  becomes the plan's maximum when the request does not mention it, whatever was stored, and
  likewise the storage cap.
\<close>

theorem update_resets_other_quota:
  assumes "deployed cfg srv b insts binds" and "tenant_inv b (tenants_of insts binds w)"
    and "Broker_Update b iid d w = (Ok (), w')" and "rawParameters (ud_RawParameters d) = Ok params"
  shows "\<exists>i p i'. insts (w_store w) iid = Some i
     \<and> List.find (\<lambda>p. p_ID p = ir_PlanID i) (Plans (bk_catalog b)) = Some p \<and> insts (w_store w') iid = Some i'
     \<and> (params ''max_connections'' = None \<longrightarrow> ip_MaxConnections (ir_Params i') = p_MaxConnections p)
     \<and> (params ''storage_gb'' = None \<longrightarrow> ip_StorageGB (ir_Params i') = p_StorageGB p)"
proof -
  obtain i i' where up: "update_request b d i i'" "insts (w_store w) iid = Some i"
      "tenants_of insts binds w' = ((insts (w_store w))(iid \<mapsto> i'), binds (w_store w))"
    using update_success [OF assms(1-3)] by blast
  then obtain p requested where p: "List.find (\<lambda>p. p_ID p = ir_PlanID i) (Plans (bk_catalog b)) = Some p"
    and rq: "ResolveInstanceParams p params = Ok requested"
    and i': "i' = i\<lparr>ir_Params := (ir_Params i)\<lparr>ip_MaxConnections := ip_MaxConnections requested,
                                            ip_StorageGB := ip_StorageGB requested\<rparr>\<rparr>"
    using assms(4) by (auto simp: update_request_def parseParams_Ok)
  have "p \<in> set (Plans (bk_catalog b))" using find_Some_iff_mem [OF p] by simp
  then have "exact_quotas p" using deployed_ok [OF assms(1)] by (auto simp: broker_ok_def list_all_iff)
  from rq [unfolded ResolveInstanceParams_Ok [OF this]]
  have "params ''max_connections'' = None \<Longrightarrow> ip_MaxConnections requested = p_MaxConnections p"
    "params ''storage_gb'' = None \<Longrightarrow> ip_StorageGB requested = p_StorageGB p"
    by (auto simp: quota_of_def)
  then show ?thesis using up p by (auto simp: i' tenants_of_def)
qed

section \<open>On a server that accepts the statements\<close>

lemma provision_request_unique:
  "provision_request b d p spec \<Longrightarrow> provision_request b d q sp \<Longrightarrow> q = p \<and> sp = spec"
  by (auto simp: provision_request_def)

lemma accepted_store: "accepted (w\<lparr>w_store := d\<rparr>) = accepted w"
  by (simp add: accepted_def)

lemma obliging_teardown:
  assumes "a = NewAdmin cfg env (NewDB srv cfg)" and "obliging srv" and "admin_ready a" and "clean_names nms"
  shows "succeeds (Admin_Deprovision a nms)" and "list_all name_char user \<Longrightarrow> succeeds (Admin_Unbind a nms user)"
  using assms by (simp_all add: Deprovision_batch Unbind_batch obliging_Exec succeeds_seq)

text \<open>Provisioning, up to the write that records it.\<close>

lemma accepted_provision:
  assumes B: "B = sql_broker cfg srv data env e v" and srv: "obliging srv" and ok: "broker_ok B" and rq: "provision_request B d p spec"
    and pw: "randomPassword (w_pool w) = Some (pw, pool)"
    and get: "GetInstance (sql_store e) iid w0 = (Ok None, w)"
    and absent: "\<And>nms. NamesFor iid (NamePrefix cfg) (ip_Name spec) = Some nms \<Longrightarrow> unseen_names srv (accepted w) nms"
  shows "\<exists>nms w1. NamesFor iid (NamePrefix cfg) (ip_Name spec) = Some nms
    \<and> accepted w1 = accepted w @ provision_trace (connURL cfg) (bk_admin B) nms spec pw
    \<and> w_store w1 = w_store w \<and> w_pool w1 = pool
    \<and> Broker_Provision B iid d w0 = seq (pass (PutInstance (sql_store e) iid (new_instance B p spec nms))) (\<lambda>_. ret False) w1"
proof -
  have prefix: "namePrefixPattern (NamePrefix cfg)" and ready: "admin_ready (bk_admin B)"
    using ok by (simp_all add: broker_ok_def B)
  obtain nms where nms: "NamesFor iid (NamePrefix cfg) (ip_Name spec) = Some nms"
    using names_of_prefix(1) [OF prefix] by blast
  have clean: "clean_names nms" using names_of_prefix(2) [OF prefix] nms by blast
  note spec = clean_spec_within [OF provision_request_within(2) [OF ok rq]]
  have a: "bk_admin B = NewAdmin cfg env (NewDB srv cfg)" by (simp add: B)
  obtain w1 where adm: "Admin_Provision (bk_admin B) nms spec w = (Ok (), w1)"
    using obliging_provision [OF a srv absent [OF nms] ready clean spec pw] by blast
  have out: "w_store w1 = w_store w" "w_pool w1 = pool"
    "accepted w1 = accepted w @ provision_trace (connURL cfg) (bk_admin B) nms spec pw"
    using gauss.provision_outcome [OF ready [unfolded a] clean spec adm [unfolded a]] pw by (auto simp: a)
  obtain r w' where run: "Broker_Provision B iid d w0 = (r, w')" by fastforce
  then show ?thesis
  proof (cases rule: provision_checks)
    case (reject x)
    then show ?thesis using rq by blast
  next
    case (go q sp)
    then have "q = p" "sp = spec" using provision_request_unique [OF rq] by auto
    then have "do_provision B iid p spec w = (r, w')"
      using go(2) get by (simp add: seq_def [of "pass _"] pass_apply B)
    then have "seq (pass (PutInstance (sql_store e) iid (new_instance B p spec nms))) (\<lambda>_. ret False) w1 = (r, w')"
      using nms by (simp add: do_provision_def seq_def [of "Broker_names _ _ _"] seq_on_err adm [unfolded a] B)
    then have eq: "Broker_Provision B iid d w0
        = seq (pass (PutInstance (sql_store e) iid (new_instance B p spec nms))) (\<lambda>_. ret False) w1" using run by simp
    show ?thesis by (intro exI [of _ nms] exI [of _ w1] conjI nms out eq)
  qed
qed

lemma accepted_bind:
  assumes B: "B = sql_broker cfg srv data env e v" and srv: "obliging srv" and ok: "broker_ok B" and rq: "bind_request B d spec"
    and faults: "t_faults (w_store w) = []" and inst: "inst_rows (w_store w) iid = Some i"
    and free: "bind_rows (w_store w) bid = None"
    and pw: "randomPassword (w_pool w) = Some (pw, pool)" and room: "nonce_size \<le> length pool"
    and absent: "\<And>user. UserFor bid (NamePrefix cfg) (bp_Name spec) = Some user \<Longrightarrow>
      unseen srv (accepted w) ''pg_roles'' ''rolname'' user"
  shows "\<exists>x w1 nms user row. Broker_Bind B iid bid d w = (Ok x, w1) \<and> \<not> b_AlreadyExists x
    \<and> bound_row B iid bid spec nms user pw row \<and> w_store w1 = put_bind row (w_store w)
    \<and> accepted w1 = accepted w @ bind_trace (connURL cfg) (bk_admin B) nms user pw"
proof -
  have prefix: "namePrefixPattern (NamePrefix cfg)" and ready: "admin_ready (bk_admin B)"
    using ok by (simp_all add: broker_ok_def B)
  obtain nms where nms: "NamesFor iid (NamePrefix cfg) (ip_Name (ir_Params i)) = Some nms"
    using names_of_prefix(1) [OF prefix] by blast
  obtain user where user: "UserFor bid (NamePrefix cfg) (bp_Name spec) = Some user"
    using names_of_prefix(3) [OF prefix] by blast
  have clean: "clean_names nms" using names_of_prefix(2) [OF prefix] nms by blast
  have cuser: "list_all name_char user" using names_of_prefix(4) [OF prefix] user by blast
  have a: "bk_admin B = NewAdmin cfg env (NewDB srv cfg)" by (simp add: B)
  obtain x w1 where adm: "Admin_Bind (bk_admin B) nms user w = (Ok x, w1)"
    using obliging_bind [OF a srv absent [OF user] ready clean cuser pw] by blast
  have out: "w_store w1 = w_store w" "w_pool w1 = pool" "x = pw"
      "accepted w1 = accepted w @ bind_trace (connURL cfg) (bk_admin B) nms user pw"
    using gauss.bind_outcome [OF ready [unfolded a] clean cuser adm [unfolded a]] pw by (auto simp: a)
  let ?creds = "credentials B (n_Database nms) user pw"
  obtain c w2 where enc: "Encrypt e (marshal_string_map ?creds) w1 = (Ok c, w2)"
    using room out by (cases e) (auto simp: Encrypt.simps Let_def)
  define row where "row = \<lparr>br_BindingID = bid, br_InstanceID = iid, br_Username = user, br_Params = spec,
    br_Credentials = base64_encode c\<rparr>"
  have faults1: "t_faults (w_store w1) = []" using faults out by simp
  note put = sql_PutBinding [OF faults1 enc, of bid user iid spec, folded row_def]
  have "list_all is_ascii pw"
    using clean_password [of pw] randomPassword_cases [OF pw] by (auto simp: clean_text_def list_all_iff)
  then have valid: "distinct (map fst ?creds)" "list_all valid_entry ?creds"
    using credentials_valid [OF ok] name_char_list_ascii cuser clean by (simp_all add: clean_names_def)
  have info: "binding_info (sql_store e) row = Ok (info_of row ?creds)"
    using binding_info_stored [of "sql_store e" ?creds w1 c w2 row] enc valid by (simp add: row_def)
  then have row: "bound_row B iid bid spec nms user pw row" using user by (simp add: bound_row_def row_def B)
  obtain params where params: "parseParams (bk_validate B) bindingSchema (bd_RawParameters d) = Ok params"
      "spec = binding_spec params" and sid: "bd_ServiceID d = s_ServiceID (Service (bk_catalog B))"
    using rq by (auto simp: bind_request_def)
  have "Broker_Bind B iid bid d w = do_bind B iid bid i spec w"
    unfolding Broker_Bind_def check_service_then(1) [OF sid]
    using params inst free faults
    by (simp add: seq_def [of "pass (GetInstance _ _)"] seq_def [of "pass (GetBinding _ _)"] seq_def [of "invalidInput _"]
        pass_apply sql_calls B do_bind_def Let_def)
  also have "\<dots> = (Ok \<lparr>b_AlreadyExists = False, b_Credentials = map_of ?creds\<rparr>, w2\<lparr>w_store := put_bind row (w_store w1)\<rparr>)"
    using nms user put adm [unfolded a]
    by (simp add: do_bind_def seq_def [of "Broker_names _ _ _"] seq_def [of "Broker_user _ _ _"] seq_on_err Let_def
        seq_def [of "pass _"] pass_apply B out(3))
  finally show ?thesis using row out Encrypt_frame [OF enc]
    by (intro exI conjI) (assumption | simp add: accepted_def)+
qed

lemma accepted_unbind:
  assumes B: "B = sql_broker cfg srv data env e v" and srv: "obliging srv" and ok: "broker_ok B"
    and faults: "t_faults (w_store w) = []" and inst: "inst_rows (w_store w) iid = Some i"
    and row: "bind_rows (w_store w) bid = Some row" and bound: "bound_row B iid bid spec nms user pw row"
  shows "\<exists>w1 n. Broker_Unbind B iid bid (s_ServiceID (Service data)) w = (Ok (), w1)
    \<and> w_store w1 = drop_bind bid (w_store w)
    \<and> accepted w1 = accepted w @ unbind_trace (connURL cfg) (bk_admin B) n user"
proof -
  have prefix: "namePrefixPattern (NamePrefix cfg)" and ready: "admin_ready (bk_admin B)"
    using ok by (simp_all add: broker_ok_def B)
  obtain n where n: "NamesFor iid (NamePrefix cfg) (ip_Name (ir_Params i)) = Some n"
    using names_of_prefix(1) [OF prefix] by blast
  have clean: "clean_names n" using names_of_prefix(2) [OF prefix] n by blast
  obtain info where info: "binding_info (sql_store e) row = Ok info" "bi_InstanceID info = iid" "bi_Username info = user"
    using bound unfolding bound_row_def by (auto simp: B info_of_def) (metis BindingRecord.select_convs)
  have "UserFor bid (NamePrefix cfg) (bp_Name spec) = Some user" using bound by (simp add: bound_row_def B)
  then have cuser: "list_all name_char user" using names_of_prefix(4) [OF prefix] by blast
  have a: "bk_admin B = NewAdmin cfg env (NewDB srv cfg)" by (simp add: B)
  obtain w1 where adm: "Admin_Unbind (bk_admin B) n user w = (Ok (), w1)"
    using succeedsD [OF obliging_teardown(2) [OF a srv ready clean cuser]] by (metis unit.exhaust)
  have out: "w_store w1 = w_store w"
      "accepted w1 = accepted w @ unbind_trace (connURL cfg) (bk_admin B) n user"
    using runsD [OF gauss.unbind_runs [OF ready [unfolded a] clean cuser] adm [unfolded a]] by (simp_all add: a)
  have "Broker_Unbind B iid bid (s_ServiceID (Service data)) w = do_unbind B iid bid i info w"
    using inst row info faults
    by (simp add: Broker_Unbind_def check_service_then(1) B seq_def [of "pass (GetInstance _ _)"]
        seq_def [of "pass (GetBinding _ _)"] seq_def [of "require _ _"] pass_apply sql_calls do_unbind_def)
  also have "\<dots> = (Ok (), w1\<lparr>w_store := drop_bind bid (w_store w1)\<rparr>)"
    using n adm [unfolded a] info faults out
    by (simp add: do_unbind_def seq_def [of "Broker_names _ _ _"] seq_def [of "pass (Admin_Unbind _ _ _)"]
        pass_apply B sql_calls)
  finally show ?thesis using out n by (auto simp: accepted_store)
qed

lemma accepted_removal:
  assumes B: "B = sql_broker cfg srv data env e v" and srv: "obliging srv" and ok: "broker_ok B"
    and get: "GetInstance (sql_store e) iid w0 = (Ok (Some i), wi)"
    and list: "BindingsForInstance (sql_store e) iid wi = (Ok [], w)"
  shows "\<exists>w1 nms. NamesFor iid (NamePrefix cfg) (ip_Name (ir_Params i)) = Some nms
    \<and> accepted w1 = accepted w @ deprovision_trace (connURL cfg) (bk_admin B) nms
    \<and> w_store w1 = w_store w \<and> w_pool w1 = w_pool w
    \<and> Broker_Deprovision B iid (s_ServiceID (Service data)) w0 = pass (DeleteInstance (sql_store e) iid) w1"
proof -
  have prefix: "namePrefixPattern (NamePrefix cfg)" and ready: "admin_ready (bk_admin B)"
    using ok by (simp_all add: broker_ok_def B)
  obtain n where n: "NamesFor iid (NamePrefix cfg) (ip_Name (ir_Params i)) = Some n"
    using names_of_prefix(1) [OF prefix] by blast
  have clean: "clean_names n" using names_of_prefix(2) [OF prefix] n by blast
  have a: "bk_admin B = NewAdmin cfg env (NewDB srv cfg)" by (simp add: B)
  obtain w1 where adm: "Admin_Deprovision (bk_admin B) n w = (Ok (), w1)"
    using succeedsD [OF obliging_teardown(1) [OF a srv ready clean]] by (metis unit.exhaust)
  have out: "w_store w1 = w_store w" "w_pool w1 = w_pool w"
      "accepted w1 = accepted w @ deprovision_trace (connURL cfg) (bk_admin B) n"
    using runsD [OF gauss.deprovision_runs [OF ready [unfolded a] clean] adm [unfolded a]] by (simp_all add: a)
  have "Broker_Deprovision B iid (s_ServiceID (Service data)) w0 = do_deprovision B iid i w"
    using get list
    by (simp add: Broker_Deprovision_def check_service_then(1) B seq_def [of "pass (GetInstance _ _)"]
        seq_def [of "pass (BindingsForInstance _ _)"] seq_def [of "require _ _"] pass_apply do_deprovision_def)
  also have "\<dots> = pass (DeleteInstance (sql_store e) iid) w1"
    using n adm [unfolded a]
    by (simp add: do_deprovision_def seq_def [of "Broker_names _ _ _"] seq_def [of "pass (Admin_Deprovision _ _)"]
        pass_apply [of "Admin_Deprovision _ _"] B)
  finally show ?thesis using n out by blast
qed

lemma no_bindings_listed:
  assumes "\<forall>r\<in>ran (bind_rows d). br_InstanceID r \<noteq> iid"
  shows "filter (\<lambda>b. br_InstanceID b = iid) (all_binds d) = []"
  using assms all_binds_rows(1) [of d] by (simp add: filter_empty_conv)

lemma accepted_deprovision:
  assumes B: "B = sql_broker cfg srv data env e v" and srv: "obliging srv" and ok: "broker_ok B"
    and faults: "t_faults (w_store w) = []" and inst: "inst_rows (w_store w) iid = Some i"
    and none: "\<forall>r\<in>ran (bind_rows (w_store w)). br_InstanceID r \<noteq> iid"
  shows "\<exists>w1 nms. Broker_Deprovision B iid (s_ServiceID (Service data)) w = (Ok (), w1)
    \<and> w_store w1 = drop_inst iid (w_store w)
    \<and> NamesFor iid (NamePrefix cfg) (ip_Name (ir_Params i)) = Some nms
    \<and> accepted w1 = accepted w @ deprovision_trace (connURL cfg) (bk_admin B) nms"
proof -
  have get: "GetInstance (sql_store e) iid w = (Ok (Some i), w)" using faults inst by (simp add: sql_calls)
  have list: "BindingsForInstance (sql_store e) iid w = (Ok [], w)"
    using faults no_bindings_listed [OF none] by (simp add: BindingsForInstance_def seq_def on_db_def table_calls)
  from accepted_removal [OF B srv ok get list] obtain w1 nms
    where w1: "NamesFor iid (NamePrefix cfg) (ip_Name (ir_Params i)) = Some nms"
      "accepted w1 = accepted w @ deprovision_trace (connURL cfg) (bk_admin B) nms" "w_store w1 = w_store w"
      "Broker_Deprovision B iid (s_ServiceID (Service data)) w = pass (DeleteInstance (sql_store e) iid) w1" by blast
  have "t_faults (w_store w1) = []" using faults w1(3) by simp
  from sql_calls(3) [OF this] w1 show ?thesis by (auto simp: pass_apply accepted_store)
qed

text \<open>With a script of faults, reads take the next entry and writes may fail.\<close>

lemma rows_faults:
  "inst_rows (d\<lparr>t_faults := fs\<rparr>) = inst_rows d" "bind_rows (d\<lparr>t_faults := fs\<rparr>) = bind_rows d"
  "all_binds (d\<lparr>t_faults := fs\<rparr>) = all_binds d"
  by (simp_all add: inst_rows_def bind_rows_def all_binds_def fun_eq_iff)

lemma read_faults:
  assumes "t_faults (w_store w) = None # fs"
  shows "GetInstance (sql_store e) iid w = (Ok (inst_rows (w_store w) iid), w\<lparr>w_store := (w_store w)\<lparr>t_faults := fs\<rparr>\<rparr>)"
    and "\<forall>r\<in>ran (bind_rows (w_store w)). br_InstanceID r \<noteq> iid \<Longrightarrow>
      BindingsForInstance (sql_store e) iid w = (Ok [], w\<lparr>w_store := (w_store w)\<lparr>t_faults := fs\<rparr>\<rparr>)"
  using assms no_bindings_listed [of "w_store w" iid]
  by (cases "inst_rows (w_store w) iid";
      simp add: GetInstance_def BindingsForInstance_def seq_def on_db_def table_gorm_def row_read_def next_fault_def rows_faults)+

lemma delete_fault:
  "t_faults (w_store w) = Some (x, False) # fs \<Longrightarrow>
    DeleteInstance (sql_store e) iid w = (Err (External x), w\<lparr>w_store := (w_store w)\<lparr>t_faults := fs\<rparr>\<rparr>)"
  by (simp add: DeleteInstance_def write_db_def seq_def on_db_def table_gorm_def row_write_def next_fault_def)

lemma accepted_update:
  assumes B: "B = sql_broker cfg srv data env e v" and srv: "obliging srv" and ok: "broker_ok B"
    and faults: "t_faults (w_store w) = []" and inst: "inst_rows (w_store w) iid = Some i"
    and iok: "inst_ok B iid i" and rq: "update_request B d i i'"
  shows "\<exists>w1. Broker_Update B iid d w = (Ok (), w1)"
proof -
  have prefix: "namePrefixPattern (NamePrefix cfg)" and ready: "admin_ready (bk_admin B)"
    using ok by (simp_all add: broker_ok_def B)
  obtain n where n: "NamesFor iid (NamePrefix cfg) (ip_Name (ir_Params i')) = Some n"
    using names_of_prefix(1) [OF prefix] by blast
  have clean: "clean_names n" using names_of_prefix(2) [OF prefix] n by blast
  have a: "bk_admin B = NewAdmin cfg env (NewDB srv cfg)" by (simp add: B)
  note spec = updated_ok(3) [OF ok iok rq]
  have "succeeds (Admin_Update (bk_admin B) n (ir_Params i'))"
    unfolding Update_batch [OF ready clean spec] using obliging_Exec [OF srv] by (simp add: a)
  then obtain w1 where adm: "Admin_Update (bk_admin B) n (ir_Params i') w = (Ok (), w1)"
    using succeedsD by (metis unit.exhaust)
  have out: "w_store w1 = w_store w"
    using gauss.update_runs [OF ready [unfolded a] clean spec] adm [unfolded a] runsD by blast
  have fin: "do_update B iid i' w = (Ok (), w1\<lparr>w_store := put_inst (i'\<lparr>ir_InstanceID := iid\<rparr>) (w_store w1)\<rparr>)"
    using n adm [unfolded a] faults out
    by (simp add: do_update_def seq_def [of "Broker_names _ _ _"] seq_def [of "pass (Admin_Update _ _ _)"]
        pass_apply B sql_calls)
  have sid: "ud_ServiceID d = s_ServiceID (Service (bk_catalog B))" using rq by (simp add: update_request_def)
  obtain r w' where run: "Broker_Update B iid d w = (r, w')" by fastforce
  have get: "seq (pass (GetInstance (bk_store B) iid)) f w = f (Some i) w" for f :: "_ \<Rightarrow> (tables, unit) handler"
    using inst faults by (simp add: seq_def pass_apply sql_calls B)
  from run [unfolded Broker_Update_def check_service_then(1) [OF sid] get option.case] sid show ?thesis
  proof (cases rule: update_checks [consumes 2])
    case (go i'')
    then have "i'' = i'" using rq by (auto simp: update_request_def)
    then show ?thesis using run go fin by simp
  qed (use rq in blast)
qed

text \<open>
  Claim C8. The whole life cycle completes: on a server that accepts the statements and answers
  from its catalogs, where the names are free, and a state database without faults, with
  entropy for two passwords and a nonce, a valid provisioning, a valid binding, the unbinding
  and the deprovisioning all succeed in this order. They leave both tables and the server's
  databases, roles and tablespaces as they were.
\<close>

theorem lifecycle_completes:
  assumes B: "B = sql_broker cfg catalog_server data env e validate" and "broker_ok B"
    and "t_faults (w_store w) = []" and "inst_rows (w_store w) iid = None" and "bind_rows (w_store w) bid = None"
    and "\<forall>r\<in>ran (bind_rows (w_store w)). br_InstanceID r \<noteq> iid"
    and "provision_request B pd p spec" and "bind_request B bd bspec"
    and "randomPassword (w_pool w) = Some (pw, pool)" and "randomPassword pool = Some (pw', pool')"
    and "nonce_size \<le> length pool'"
    and "NamesFor iid (NamePrefix cfg) (ip_Name spec) = Some nms" and "UserFor bid (NamePrefix cfg) (bp_Name bspec) = Some user"
    and free: "set (objects (accepted w)) \<inter> insert (''pg_roles'', user) (tenant_objects nms) = {}"
  shows "\<exists>w1 w2 w3 w4 x. Broker_Provision B iid pd w = (Ok False, w1) \<and> Broker_Bind B iid bid bd w1 = (Ok x, w2)
     \<and> \<not> b_AlreadyExists x
     \<and> Broker_Unbind B iid bid (s_ServiceID (Service data)) w2 = (Ok (), w3)
     \<and> Broker_Deprovision B iid (s_ServiceID (Service data)) w3 = (Ok (), w4)
     \<and> tenants_of inst_rows bind_rows w4 = tenants_of inst_rows bind_rows w
     \<and> set (objects (accepted w4)) = set (objects (accepted w))"
proof -
  note srv = catalog_server_obliging
  have "GetInstance (sql_store e) iid w = (Ok None, w)" using assms(3,4) by (simp add: sql_calls)
  moreover have "unseen_names catalog_server (accepted w) n"
    if "NamesFor iid (NamePrefix cfg) (ip_Name spec) = Some n" for n
    using that assms(12) free by (intro catalog_server_unseen_names) auto
  ultimately obtain v
    where v: "w_store v = w_store w" "w_pool v = pool"
      and acc0: "accepted v = accepted w @ provision_trace (connURL cfg) (bk_admin B) nms spec pw"
      and p: "Broker_Provision B iid pd w
        = seq (pass (PutInstance (sql_store e) iid (new_instance B p spec nms))) (\<lambda>_. ret False) v"
    using accepted_provision [OF B srv assms(2,7,9)] assms(12) by fastforce
  define i where "i = (new_instance B p spec nms)\<lparr>ir_InstanceID := iid\<rparr>"
  define w1 where "w1 = v\<lparr>w_store := put_inst i (w_store w)\<rparr>"
  have p: "Broker_Provision B iid pd w = (Ok False, w1)"
    using p assms(3) v by (simp add: seq_def pass_apply sql_calls w1_def i_def)
  have key: "ir_InstanceID i = iid" by (simp add: i_def)
  have s1: "t_faults (w_store w1) = []" "inst_rows (w_store w1) = (inst_rows (w_store w))(iid \<mapsto> i)"
    "bind_rows (w_store w1) = bind_rows (w_store w)" "w_pool w1 = pool"
    using assms(3) v by (simp_all add: w1_def key)
  have acc1: "set (objects (accepted w1)) = set (objects (accepted w)) \<union> tenant_objects nms"
    using acc0 by (simp add: w1_def accepted_def objects_after)
  have "(''pg_roles'', user) \<notin> tenant_objects nms"
    using user_apart [OF assms(13,12)] by (simp add: tenant_objects_def)
  then have absent: "unseen catalog_server (accepted w1) ''pg_roles'' ''rolname'' u"
    if "UserFor bid (NamePrefix cfg) (bp_Name bspec) = Some u" for u
    using that assms(13) free acc1 by (intro catalog_server_unseen) (auto simp: name_columns_def)
  have "inst_rows (w_store w1) iid = Some i" "bind_rows (w_store w1) bid = None"
    "randomPassword (w_pool w1) = Some (pw', pool')" using s1 assms(5,10) by simp_all
  from accepted_bind [OF B srv assms(2,8) s1(1) this assms(11) absent] obtain x w2 n u row
    where b: "Broker_Bind B iid bid bd w1 = (Ok x, w2)" "\<not> b_AlreadyExists x"
      and row0: "bound_row B iid bid bspec n u pw' row" and w2: "w_store w2 = put_bind row (w_store w1)"
      and acc: "accepted w2 = accepted w1 @ bind_trace (connURL cfg) (bk_admin B) n u pw'" by blast
  have "u = user" using bound_row_user [OF row0] assms(13) by (simp add: B)
  then have row: "bound_row B iid bid bspec n user pw' row"
    and acc2: "accepted w2 = accepted w1 @ bind_trace (connURL cfg) (bk_admin B) n user pw'" using row0 acc by simp_all
  have rk: "br_BindingID row = bid" using row unfolding bound_row_def by (metis BindingRecord.select_convs(1))
  have s2: "t_faults (w_store w2) = []" "inst_rows (w_store w2) iid = Some i" "bind_rows (w_store w2) bid = Some row"
    using s1 w2 rk by simp_all
  from accepted_unbind [OF B srv assms(2) s2 row] obtain w3 n'
    where u: "Broker_Unbind B iid bid (s_ServiceID (Service data)) w2 = (Ok (), w3)"
      and w3: "w_store w3 = drop_bind bid (w_store w2)"
      and acc3: "accepted w3 = accepted w2 @ unbind_trace (connURL cfg) (bk_admin B) n' user" by blast
  have binds3: "bind_rows (w_store w3) = bind_rows (w_store w)" using w3 w2 s1 rk assms(5) by (simp add: fun_upd_idem)
  have s3: "t_faults (w_store w3) = []" "inst_rows (w_store w3) iid = Some i" using s2 w3 by simp_all
  have "\<forall>r\<in>ran (bind_rows (w_store w3)). br_InstanceID r \<noteq> iid" using assms(6) binds3 by simp
  from accepted_deprovision [OF B srv assms(2) s3 this] obtain w4 m
    where d: "Broker_Deprovision B iid (s_ServiceID (Service data)) w3 = (Ok (), w4)"
      and w4: "w_store w4 = drop_inst iid (w_store w3)"
      and m: "NamesFor iid (NamePrefix cfg) (ip_Name (ir_Params i)) = Some m"
      and acc4: "accepted w4 = accepted w3 @ deprovision_trace (connURL cfg) (bk_admin B) m" by blast
  have "m = nms" using m assms(12) by (simp add: i_def new_instance_def)
  then have "set (objects (accepted w4)) = set (objects (accepted w))"
    unfolding acc4 acc3 acc2 objects_after acc1 using free by blast
  have "inst_rows (w_store w4) = inst_rows (w_store w)" using w4 w3 w2 s1 assms(4) by (simp add: fun_upd_idem)
  then have "tenants_of inst_rows bind_rows w4 = tenants_of inst_rows bind_rows w"
    using w4 binds3 by (simp add: tenants_of_def)
  then show ?thesis using p b u d \<open>set (objects (accepted w4)) = _\<close> by blast
qed

text \<open>
  Claim C31. A tenant can be created and forgotten: when the provisioning statements have all been
  accepted and the write of the record then fails, the request is answered with the
  database's error, nothing is rolled back on the server, and no record is kept.
\<close>

theorem unrecorded_tenant:
  assumes B: "B = sql_broker cfg catalog_server data env e validate" and "broker_ok B"
    and "t_faults (w_store w) = [None, None, Some (x, False)]" and "inst_rows (w_store w) iid = None"
    and "provision_request B d p spec" and "randomPassword (w_pool w) = Some (pw, pool)"
    and "NamesFor iid (NamePrefix cfg) (ip_Name spec) = Some nms"
    and free: "set (objects (accepted w)) \<inter> tenant_objects nms = {}"
  shows "\<exists>w'. Broker_Provision B iid d w = (Err (PassThrough (External x)), w')
     \<and> accepted w' = accepted w @ provision_trace (connURL cfg) (bk_admin B) nms spec pw
     \<and> tenant_objects nms \<subseteq> set (objects (accepted w'))
     \<and> tenants_of inst_rows bind_rows w' = tenants_of inst_rows bind_rows w"
proof -
  let ?w = "w\<lparr>w_store := (w_store w)\<lparr>t_faults := [None, Some (x, False)]\<rparr>\<rparr>"
  note rows = rows_faults
  have get: "GetInstance (sql_store e) iid w = (Ok None, ?w)" using read_faults(1) [OF assms(3)] assms(4) by simp
  have pool: "randomPassword (w_pool ?w) = Some (pw, pool)" using assms(6) by simp
  have "unseen_names catalog_server (accepted ?w) n"
    if "NamesFor iid (NamePrefix cfg) (ip_Name spec) = Some n" for n
    using that assms(7) free by (intro catalog_server_unseen_names) (auto simp: accepted_def)
  then obtain w1
    where acc: "accepted w1 = accepted ?w @ provision_trace (connURL cfg) (bk_admin B) nms spec pw"
      and s: "w_store w1 = w_store ?w"
      and run: "Broker_Provision B iid d w
        = seq (pass (PutInstance (sql_store e) iid (new_instance B p spec nms))) (\<lambda>_. ret False) w1"
    using accepted_provision [OF B catalog_server_obliging assms(2,5) pool get] assms(7) by fastforce
  have "PutInstance (sql_store e) iid (new_instance B p spec nms) w1
      = (Err (External x), w1\<lparr>w_store := (w_store w)\<lparr>t_faults := []\<rparr>\<rparr>)"
    using assms(4) s
    by (simp add: PutInstance_def Let_def seq_def on_db_def write_db_def table_gorm_def row_read_def row_write_def
        next_fault_def rows)
  then have "Broker_Provision B iid d w = (Err (PassThrough (External x)), w1\<lparr>w_store := (w_store w)\<lparr>t_faults := []\<rparr>\<rparr>)"
    using run by (simp add: seq_def pass_apply)
  then show ?thesis using acc by (auto simp: tenants_of_def rows accepted_def objects_after)
qed

section \<open>The properties at concrete inputs\<close>

lemma rand_int_append: "rand_int mx p = Some (n, q) \<Longrightarrow> rand_int mx (p @ r) = Some (n, q @ r)"
  by (induction mx p rule: rand_int.induct) (auto simp: Let_def split: if_splits)

lemma draw_chars_append: "draw_chars k p = Some (cs, q) \<Longrightarrow> draw_chars k (p @ r) = Some (cs, q @ r)"
  by (induction k arbitrary: p cs) (auto simp: rand_int_append split: option.splits prod.splits)

lemma randomPassword_append:
  assumes "draw_chars 28 p = Some (pw, q)" and "has_all_classes pw"
  shows "randomPassword (p @ r) = Some (pw, q @ r)"
  using assms by (simp add: randomPassword.simps [of "p @ r"] draw_chars_append)

definition sample_catalog :: catalog_data where
  "sample_catalog = \<lparr>Service = \<lparr>s_ServiceID = ''svc'', s_Name = ''opengauss'', s_DisplayName = [], s_Description = ''db'',
     s_Provider = [], s_DocsURL = [], s_SupportURL = [], s_Tags = []\<rparr>, Plans = [sample_plan]\<rparr>"

definition sample_broker :: "tables broker" where
  "sample_broker = sql_broker sample_cfg catalog_server sample_catalog no_overrides NoopEncryptor (\<lambda>schema raw. Valid)"

definition sample_details :: ProvisionDetails where
  "sample_details = \<lparr>pd_ServiceID = ''svc'', pd_PlanID = p_ID sample_plan, pd_RawParameters = []\<rparr>"

definition sample_defaults :: InstanceParams where
  "sample_defaults = \<lparr>ip_Name = [], ip_Compatibility = ''PG'', ip_Encoding = ''UTF8'', ip_MaxConnections = 20, ip_StorageGB = 5\<rparr>"

definition sample_bind :: BindDetails where
  "sample_bind = \<lparr>bd_ServiceID = ''svc'', bd_RawParameters = []\<rparr>"

definition sample_start :: "tables world" where
  "sample_start = tables_world (sample_pool @ sample_pool @ replicate 12 (CHR ''n'')) empty_tables"

lemma sample_broker_simps [simp]:
  "bk_cfg sample_broker = sample_cfg" "bk_catalog sample_broker = sample_catalog"
  "bk_store sample_broker = sql_store NoopEncryptor" "bk_validate sample_broker = (\<lambda>schema raw. Valid)"
  "bk_admin sample_broker = NewAdmin sample_cfg no_overrides (NewDB catalog_server sample_cfg)"
  by (simp_all add: sample_broker_def)

lemma sample_broker_ok: "broker_ok sample_broker"
proof -
  have "namePrefixPattern ''gdb''" "list_all is_ascii ''db''" "list_all is_ascii ''disable''" by code_simp+
  then show ?thesis
    by (simp add: broker_ok_def sample_ready sample_catalog_def sample_plan_exact) (simp add: sample_cfg_def)
qed

lemma sample_deployed: "deployed sample_cfg catalog_server sample_broker inst_rows bind_rows"
  using sql_deployed sample_broker_ok unfolding sample_broker_def by blast

lemma sample_request: "provision_request sample_broker sample_details sample_plan sample_defaults"
proof -
  have "ResolveInstanceParams sample_plan Map.empty = Ok sample_defaults"
    by (simp add: ResolveInstanceParams_defaults sample_defaults_def) (simp add: sample_plan_def)
  then show ?thesis
    by (simp add: provision_request_def sample_details_def sample_catalog_def parseParams_def ValidateParameters_def
        rawParameters_def)
qed

lemma sample_bind_request: "bind_request sample_broker sample_bind \<lparr>bp_Name = []\<rparr>"
  by (simp add: bind_request_def sample_bind_def sample_catalog_def parseParams_def ValidateParameters_def
      rawParameters_def binding_spec_def)

lemma sample_start_facts:
  "t_faults (w_store sample_start) = []" "inst_rows (w_store sample_start) = Map.empty"
  "bind_rows (w_store sample_start) = Map.empty" "accepted sample_start = []"
  by (simp_all add: sample_start_def inst_rows_def bind_rows_def fun_eq_iff accepted_def)

lemma sample_passwords:
  "randomPassword (sample_pool @ r) = Some (''aA0!'' @ replicate 24 CHR ''a'', r)"
  using randomPassword_append [OF sample_pool_draws] by (simp add: has_all_classes_def class_codes)

lemma sample_provisioned:
  "\<exists>w1 nms. Broker_Provision sample_broker ''i'' sample_details sample_start = (Ok False, w1)
    \<and> w_store w1 = put_inst ((new_instance sample_broker sample_plan sample_defaults nms)\<lparr>ir_InstanceID := ''i''\<rparr>)
         (w_store sample_start)
    \<and> w_pool w1 = sample_pool @ replicate 12 (CHR ''n'') \<and> NamesFor ''i'' ''gdb'' [] = Some nms
    \<and> set (objects (accepted w1)) = tenant_objects nms"
proof -
  have get: "GetInstance (sql_store NoopEncryptor) ''i'' sample_start = (Ok None, sample_start)"
    using sample_start_facts by (simp add: sql_calls)
  have pw: "randomPassword (w_pool sample_start)
      = Some (''aA0!'' @ replicate 24 CHR ''a'', sample_pool @ replicate 12 (CHR ''n''))"
    using sample_passwords by (simp add: sample_start_def)
  have absent: "unseen_names catalog_server (accepted sample_start) n" for n
    by (rule catalog_server_unseen_names) (simp add: sample_start_facts objects_def)
  from accepted_provision [OF sample_broker_def catalog_server_obliging sample_broker_ok sample_request pw get absent] obtain nms v
    where v: "w_store v = w_store sample_start" "w_pool v = sample_pool @ replicate 12 (CHR ''n'')"
      and nms: "NamesFor ''i'' ''gdb'' [] = Some nms"
      and acc: "accepted v = accepted sample_start @ provision_trace (connURL sample_cfg) (bk_admin sample_broker) nms
        sample_defaults (''aA0!'' @ replicate 24 CHR ''a'')"
      and p: "Broker_Provision sample_broker ''i'' sample_details sample_start = seq (pass (PutInstance
        (sql_store NoopEncryptor) ''i'' (new_instance sample_broker sample_plan sample_defaults nms))) (\<lambda>_. ret False) v"
    by (auto simp: sample_defaults_def sample_cfg_def)
  have faults: "t_faults (w_store v) = []" using v sample_start_facts by simp
  have "set (objects (accepted v)) = tenant_objects nms"
    unfolding acc objects_after sample_start_facts by (simp add: objects_def)
  then show ?thesis using v nms by (auto simp: p seq_def pass_apply sql_calls(1) [OF faults] accepted_store)
qed

text \<open>The same tenant, bound; and a stored tenant with a smaller connection limit than its plan's.\<close>

lemma sample_bound:
  "\<exists>w1 w2 x nms user pw row. Broker_Provision sample_broker ''i'' sample_details sample_start = (Ok False, w1)
    \<and> Broker_Bind sample_broker ''i'' ''b'' sample_bind w1 = (Ok x, w2) \<and> \<not> b_AlreadyExists x
    \<and> bound_row sample_broker ''i'' ''b'' \<lparr>bp_Name = []\<rparr> nms user pw row
    \<and> bind_rows (w_store w2) ''b'' = Some row \<and> t_faults (w_store w2) = []
    \<and> inst_rows (w_store w2) ''i'' \<noteq> None"
proof -
  obtain w1 nms where p: "Broker_Provision sample_broker ''i'' sample_details sample_start = (Ok False, w1)"
    and s: "w_store w1 = put_inst ((new_instance sample_broker sample_plan sample_defaults nms)\<lparr>ir_InstanceID := ''i''\<rparr>)
         (w_store sample_start)"
    and pool: "w_pool w1 = sample_pool @ replicate 12 (CHR ''n'')"
    and nms: "NamesFor ''i'' ''gdb'' [] = Some nms" and objs: "set (objects (accepted w1)) = tenant_objects nms"
    using sample_provisioned by blast
  have "unseen catalog_server (accepted w1) ''pg_roles'' ''rolname'' u" if "UserFor ''b'' ''gdb'' [] = Some u" for u
    using user_apart [OF that nms] objs by (intro catalog_server_unseen) (auto simp: tenant_objects_def name_columns_def)
  then have absent: "unseen catalog_server (accepted w1) ''pg_roles'' ''rolname'' u"
    if "UserFor ''b'' (NamePrefix sample_cfg) (bp_Name \<lparr>bp_Name = []\<rparr>) = Some u" for u
    using that by (simp add: sample_cfg_def)
  have "t_faults (w_store w1) = []" "bind_rows (w_store w1) ''b'' = None"
    "inst_rows (w_store w1) ''i'' = Some ((new_instance sample_broker sample_plan sample_defaults nms)\<lparr>ir_InstanceID := ''i''\<rparr>)"
    using s sample_start_facts by simp_all
  moreover have "randomPassword (w_pool w1) = Some (''aA0!'' @ replicate 24 CHR ''a'', replicate 12 (CHR ''n''))"
    using pool sample_passwords by simp
  moreover have "nonce_size \<le> length (replicate 12 (CHR ''n''))" by (simp add: nonce_size_def)
  ultimately obtain x w2 n user row where b: "Broker_Bind sample_broker ''i'' ''b'' sample_bind w1 = (Ok x, w2)"
      "\<not> b_AlreadyExists x" "bound_row sample_broker ''i'' ''b'' \<lparr>bp_Name = []\<rparr> n user (''aA0!'' @ replicate 24 CHR ''a'') row"
      "w_store w2 = put_bind row (w_store w1)"
    using accepted_bind [OF sample_broker_def catalog_server_obliging sample_broker_ok sample_bind_request _ _ _ _ _ absent]
    by blast
  have "br_BindingID row = ''b''" using b(3) unfolding bound_row_def by (metis BindingRecord.select_convs(1))
  then have "bind_rows (w_store w2) ''b'' = Some row" "t_faults (w_store w2) = []" "inst_rows (w_store w2) ''i'' \<noteq> None"
    using b(4) s sample_start_facts by simp_all
  then show ?thesis using p b(1-3) by blast
qed

definition sample_small :: "names \<Rightarrow> InstanceRecord" where
  "sample_small nms = (new_instance sample_broker sample_plan (sample_defaults\<lparr>ip_MaxConnections := 7\<rparr>) nms)\<lparr>ir_InstanceID := ''i''\<rparr>"

definition sample_stored :: "names \<Rightarrow> tables world" where
  "sample_stored nms = tables_world [] (put_inst (sample_small nms) empty_tables)"

definition sample_update :: UpdateDetails where
  "sample_update = \<lparr>ud_ServiceID = ''svc'', ud_PlanID = [], ud_RawParameters = sample_raw CHR ''3''\<rparr>"

lemma sample_stored_facts:
  "inst_rows (w_store (sample_stored nms)) = [''i'' \<mapsto> sample_small nms]"
  "bind_rows (w_store (sample_stored nms)) = Map.empty" "t_faults (w_store (sample_stored nms)) = []"
  by (simp_all add: sample_stored_def) (simp_all add: inst_rows_def bind_rows_def sample_small_def fun_eq_iff)

lemma sample_updated:
  assumes nms: "NamesFor ''i'' ''gdb'' [] = Some nms"
  shows "tenant_inv sample_broker (tenants_of inst_rows bind_rows (sample_stored nms))"
    and "\<exists>w'. Broker_Update sample_broker ''i'' sample_update (sample_stored nms) = (Ok (), w')"
proof -
  have prefix: "NamePrefix sample_cfg = ''gdb''" by (simp add: sample_cfg_def)
  have within: "within_plan sample_plan (sample_defaults\<lparr>ip_MaxConnections := 7\<rparr>)"
    by (simp add: within_plan_def sample_defaults_def sample_plan_def compatibilities_def encodings_def)
  have ok: "inst_ok sample_broker ''i'' (sample_small nms)"
    using new_instance_ok [of sample_plan sample_broker _ "''i''" nms, OF _ within] nms
    by (simp add: sample_catalog_def sample_small_def prefix sample_defaults_def)
  then show inv: "tenant_inv sample_broker (tenants_of inst_rows bind_rows (sample_stored nms))"
    by (simp add: tenant_inv_def tenants_of_def sample_stored_facts)
  have q: "quota_of [''storage_gb'' \<mapsto> JNum 3] ''storage_gb'' 5 3"
    using of_int_numeral [of "num.Bit1 num.One", where 'a = rat] by (auto simp: quota_of_def)
  have res: "ResolveInstanceParams sample_plan [''storage_gb'' \<mapsto> JNum 3] = Ok (sample_defaults\<lparr>ip_StorageGB := 3\<rparr>)"
    using q by (subst ResolveInstanceParams_Ok [OF sample_plan_exact])
      (simp add: quota_of_def sample_plan_def sample_defaults_def compatibilities_def encodings_def)
  define i' where "i' = (sample_small nms)\<lparr>ir_Params := (ir_Params (sample_small nms))\<lparr>ip_MaxConnections := 20, ip_StorageGB := 3\<rparr>\<rparr>"
  have up: "update_request sample_broker sample_update (sample_small nms) i'"
    using res sample_raw_params
    by (simp add: update_request_def sample_update_def sample_catalog_def parseParams_def ValidateParameters_def
        sample_small_def new_instance_def i'_def sample_defaults_def)
  show "\<exists>w'. Broker_Update sample_broker ''i'' sample_update (sample_stored nms) = (Ok (), w')"
    using accepted_update [OF sample_broker_def catalog_server_obliging sample_broker_ok _ _ ok up] sample_stored_facts by simp
qed

lemma sample_names_exist: "\<exists>nms. NamesFor ''i'' ''gdb'' [] = Some nms"
  by (rule NamesFor_returns) simp

theorem broker_refines_witness:
  "\<exists>w1. handle sample_broker (ProvisionReq ''i'' sample_details) sample_start = (Ok (Provisioned False), w1)
     \<and> tenant_step sample_broker (Map.empty, Map.empty) (tenants_of inst_rows bind_rows w1)"
proof -
  obtain w1 nms where p: "Broker_Provision sample_broker ''i'' sample_details sample_start = (Ok False, w1)"
    and s: "w_store w1 = put_inst ((new_instance sample_broker sample_plan sample_defaults nms)\<lparr>ir_InstanceID := ''i''\<rparr>)
         (w_store sample_start)" using sample_provisioned by blast
  have run: "handle sample_broker (ProvisionReq ''i'' sample_details) sample_start = (Ok (Provisioned False), w1)"
    using p by (simp add: respond_eq)
  have start: "tenants_of inst_rows bind_rows sample_start = (Map.empty, Map.empty)"
    by (simp add: tenants_of_def sample_start_facts)
  have "tenant_inv sample_broker (tenants_of inst_rows bind_rows sample_start)"
    unfolding start by (rule tenant_inv_empty)
  moreover have "tenants_of inst_rows bind_rows w1 \<noteq> tenants_of inst_rows bind_rows sample_start"
    unfolding start by (simp add: tenants_of_def s)
  ultimately show ?thesis using broker_refines [OF sample_deployed _ run] run start by auto
qed

theorem broker_invariant_witness:
  "\<exists>w1 i. broker_runs sample_broker sample_start w1 \<and> inst_rows (w_store w1) ''i'' = Some i
     \<and> inst_ok sample_broker ''i'' i"
proof -
  obtain w1 nms where p: "Broker_Provision sample_broker ''i'' sample_details sample_start = (Ok False, w1)"
    and s: "w_store w1 = put_inst ((new_instance sample_broker sample_plan sample_defaults nms)\<lparr>ir_InstanceID := ''i''\<rparr>)
         (w_store sample_start)" using sample_provisioned by blast
  have "handle sample_broker (ProvisionReq ''i'' sample_details) sample_start = (Ok (Provisioned False), w1)"
    using p by (simp add: respond_eq)
  then have run: "broker_runs sample_broker sample_start w1"
    using broker_step.served by (metis r_into_rtranclp)
  have "tenants_of inst_rows bind_rows sample_start = (Map.empty, Map.empty)"
    by (simp add: tenants_of_def sample_start_facts)
  from broker_invariant [OF sample_deployed this run] run s show ?thesis
    by (auto simp: tenant_inv_def tenants_of_def)
qed

theorem client_errors_change_nothing_witness:
  "\<exists>w1. handle sample_broker (DeprovisionReq ''i'' ''svc'') sample_start = (Err ErrInstanceNotFound, w1)
     \<and> accepted w1 = [] \<and> tenants_of inst_rows bind_rows w1 = (Map.empty, Map.empty)"
proof -
  have run: "handle sample_broker (DeprovisionReq ''i'' ''svc'') sample_start = (Err ErrInstanceNotFound, sample_start)"
    using sample_start_facts
    by (simp add: respond_eq Broker_Deprovision_def sample_catalog_def check_service_apply seq_def pass_apply sql_calls)
  from client_errors_change_nothing [OF sample_deployed run] run show ?thesis
    by (simp add: tenants_of_def sample_start_facts)
qed

theorem provision_answers_witness:
  "\<exists>w1 nms pw. Broker_Provision sample_broker ''i'' sample_details sample_start = (Ok False, w1)
     \<and> accepted w1 = provision_trace (connURL sample_cfg) (bk_admin sample_broker) nms sample_defaults pw"
proof -
  obtain w1 where run: "Broker_Provision sample_broker ''i'' sample_details sample_start = (Ok False, w1)"
    using sample_provisioned by blast
  from provision_answers [OF sample_deployed run] obtain p spec nms pw
    where "provision_request sample_broker sample_details p spec"
      and "accepted w1 = accepted sample_start @ provision_trace (connURL sample_cfg) (bk_admin sample_broker) nms spec pw"
    by (auto simp: tenants_of_def)
  then show ?thesis using run provision_request_unique [OF sample_request] sample_start_facts by auto
qed

theorem removals_guarded_witness:
  "\<exists>nms w1 n. Broker_Deprovision sample_broker ''i'' ''svc'' (sample_stored nms) = (Ok (), w1)
     \<and> accepted w1 = deprovision_trace (connURL sample_cfg) (bk_admin sample_broker) n
     \<and> tenants_of inst_rows bind_rows w1 = (Map.empty, Map.empty)"
proof -
  obtain nms where nms: "NamesFor ''i'' ''gdb'' [] = Some nms" using sample_names_exist by blast
  note facts = sample_stored_facts [of nms]
  have "\<exists>w1. Broker_Deprovision sample_broker ''i'' (s_ServiceID (Service sample_catalog)) (sample_stored nms) = (Ok (), w1)"
    using accepted_deprovision [OF sample_broker_def catalog_server_obliging sample_broker_ok, of "sample_stored nms" "''i''" "sample_small nms"] facts
    by auto
  then obtain w1 where run: "Broker_Deprovision sample_broker ''i'' ''svc'' (sample_stored nms) = (Ok (), w1)"
    by (auto simp: sample_catalog_def)
  have acc: "accepted (sample_stored nms) = []" by (simp add: sample_stored_def accepted_def)
  have none: "\<not> (\<exists>v\<in>ran (bind_rows (w_store (sample_stored nms))). br_InstanceID v = ''i'')" using facts by simp
  from removals_guarded [OF sample_deployed sample_updated(1) [OF nms], of "''i''" "''svc''" "Ok ()" w1] run none
  obtain n where "accepted w1 = accepted (sample_stored nms) @ deprovision_trace (connURL sample_cfg) (bk_admin sample_broker) n"
    "tenants_of inst_rows bind_rows w1 = ((inst_rows (w_store (sample_stored nms)))(''i'' := None), bind_rows (w_store (sample_stored nms)))"
    by metis
  then have "accepted w1 = deprovision_trace (connURL sample_cfg) (bk_admin sample_broker) n"
    "tenants_of inst_rows bind_rows w1 = (Map.empty, Map.empty)" using acc facts by simp_all
  then show ?thesis using run by blast
qed

theorem bind_delivers_witness:
  "\<exists>w1 w2 x nms user pw v. Broker_Bind sample_broker ''i'' ''b'' sample_bind w1 = (Ok x, w2)
     \<and> bound_row sample_broker ''i'' ''b'' \<lparr>bp_Name = []\<rparr> nms user pw v
     \<and> b_Credentials x = map_of (credentials sample_broker (n_Database nms) user pw)
     \<and> bind_rows (w_store w2) ''b'' = Some v"
proof -
  obtain w1 w2 x where run: "Broker_Bind sample_broker ''i'' ''b'' sample_bind w1 = (Ok x, w2)" "\<not> b_AlreadyExists x"
    using sample_bound by blast
  have unique: "bind_request sample_broker sample_bind spec \<Longrightarrow> spec = \<lparr>bp_Name = []\<rparr>" for spec
    using sample_bind_request by (auto simp: bind_request_def)
  from bind_delivers [OF sample_deployed run(1)] run(2) obtain spec nms user pw v
    where "bind_request sample_broker sample_bind spec" and row: "bound_row sample_broker ''i'' ''b'' spec nms user pw v"
      and creds: "b_Credentials x = map_of (credentials sample_broker (n_Database nms) user pw)"
      and "tenants_of inst_rows bind_rows w2 = (inst_rows (w_store w1), (bind_rows (w_store w1))(''b'' \<mapsto> v))"
    by (simp only: if_False) blast
  then have "spec = \<lparr>bp_Name = []\<rparr>" "bind_rows (w_store w2) ''b'' = Some v"
    using unique by (auto simp: tenants_of_def)
  then show ?thesis using run(1) row creds by blast
qed

lemma no_faults_read:
  assumes "t_faults d = []"
  shows "instance_fault (sql_store e) k d = None" and "binding_fault (sql_store e) k d = None"
    and "w_store w = d \<Longrightarrow> w_store (after_instance (sql_store e) k w) = d"
  using assms by (cases "inst_rows d k"; cases "bind_rows d k";
    simp add: instance_fault_def binding_fault_def after_instance_def table_calls)+

theorem bind_idempotent_witness:
  "\<exists>w1 w2 x w3. Broker_Bind sample_broker ''i'' ''b'' sample_bind w1 = (Ok x, w2) \<and> \<not> b_AlreadyExists x
     \<and> Broker_Bind sample_broker ''i'' ''b'' sample_bind w2 = (Ok (x\<lparr>b_AlreadyExists := True\<rparr>), w3)
     \<and> accepted w3 = accepted w2"
proof -
  obtain w1 w2 x where run: "Broker_Bind sample_broker ''i'' ''b'' sample_bind w1 = (Ok x, w2)" "\<not> b_AlreadyExists x"
    and calm: "t_faults (w_store w2) = []"
    using sample_bound by blast
  obtain r w3 where again: "Broker_Bind sample_broker ''i'' ''b'' sample_bind w2 = (r, w3)" by fastforce
  have sql: "bk_store sample_broker = sql_store NoopEncryptor" by simp
  have "instance_fault (bk_store sample_broker) ''i'' (w_store w2) = None"
    "binding_fault (bk_store sample_broker) ''b'' (w_store (after_instance (bk_store sample_broker) ''i'' w2)) = None"
    unfolding sql by (simp_all add: no_faults_read [OF calm])
  with bind_idempotent [OF sample_deployed run(1) again] have "r = Ok (x\<lparr>b_AlreadyExists := True\<rparr>)"
    "accepted w3 = accepted w2" by simp_all
  then show ?thesis using run again by blast
qed

theorem update_only_quotas_witness:
  "\<exists>nms w1 i'. Broker_Update sample_broker ''i'' sample_update (sample_stored nms) = (Ok (), w1)
     \<and> same_tenant (sample_small nms) i' \<and> inst_rows (w_store w1) ''i'' = Some i'"
proof -
  obtain nms where nms: "NamesFor ''i'' ''gdb'' [] = Some nms" using sample_names_exist by blast
  obtain w1 where run: "Broker_Update sample_broker ''i'' sample_update (sample_stored nms) = (Ok (), w1)"
    using sample_updated(2) [OF nms] by blast
  from update_only_quotas [OF sample_deployed sample_updated(1) [OF nms] run] obtain i i'
    where "inst_rows (w_store (sample_stored nms)) ''i'' = Some i" "same_tenant i i'"
      "tenants_of inst_rows bind_rows w1 = ((inst_rows (w_store (sample_stored nms)))(''i'' \<mapsto> i'), bind_rows (w_store (sample_stored nms)))"
    by blast
  then have "same_tenant (sample_small nms) i'" "inst_rows (w_store w1) ''i'' = Some i'"
    using sample_stored_facts(1) [of nms] by (simp_all add: tenants_of_def)
  then show ?thesis using run by blast
qed

theorem update_resets_other_quota_witness:
  "\<exists>nms w1 i'. Broker_Update sample_broker ''i'' sample_update (sample_stored nms) = (Ok (), w1)
     \<and> ip_MaxConnections (ir_Params (sample_small nms)) = 7
     \<and> inst_rows (w_store w1) ''i'' = Some i' \<and> ip_MaxConnections (ir_Params i') = 20"
proof -
  obtain nms where nms: "NamesFor ''i'' ''gdb'' [] = Some nms" using sample_names_exist by blast
  obtain w1 where run: "Broker_Update sample_broker ''i'' sample_update (sample_stored nms) = (Ok (), w1)"
    using sample_updated(2) [OF nms] by blast
  have raw: "rawParameters (ud_RawParameters sample_update) = Ok [''storage_gb'' \<mapsto> JNum 3]"
    using sample_raw_params by (simp add: sample_update_def)
  have small: "ip_MaxConnections (ir_Params (sample_small nms)) = 7" "ir_PlanID (sample_small nms) = p_ID sample_plan"
    by (simp_all add: sample_small_def new_instance_def)
  have found: "List.find (\<lambda>p. p_ID p = ir_PlanID (sample_small nms)) (Plans (bk_catalog sample_broker)) = Some sample_plan"
    using small by (simp add: sample_catalog_def)
  have other: "[''storage_gb'' \<mapsto> JNum 3] ''max_connections'' = None" by simp
  from update_resets_other_quota [OF sample_deployed sample_updated(1) [OF nms] run raw] obtain i p i'
    where "inst_rows (w_store (sample_stored nms)) ''i'' = Some i" and "inst_rows (w_store w1) ''i'' = Some i'"
      and "List.find (\<lambda>p. p_ID p = ir_PlanID i) (Plans (bk_catalog sample_broker)) = Some p"
      and "ip_MaxConnections (ir_Params i') = p_MaxConnections p" using other by blast
  then have "inst_rows (w_store w1) ''i'' = Some i'" "ip_MaxConnections (ir_Params i') = p_MaxConnections sample_plan"
    using sample_stored_facts(1) [of nms] found by simp_all
  moreover have "p_MaxConnections sample_plan = 20" by (simp add: sample_plan_def)
  ultimately show ?thesis using run small(1) by auto
qed

theorem lifecycle_completes_witness:
  "\<exists>w1 w2 w3 w4 x. Broker_Provision sample_broker ''i'' sample_details sample_start = (Ok False, w1)
     \<and> Broker_Bind sample_broker ''i'' ''b'' sample_bind w1 = (Ok x, w2)
     \<and> Broker_Unbind sample_broker ''i'' ''b'' ''svc'' w2 = (Ok (), w3)
     \<and> Broker_Deprovision sample_broker ''i'' ''svc'' w3 = (Ok (), w4) \<and> objects (accepted w4) = []"
proof -
  have pw: "randomPassword (w_pool sample_start)
      = Some (''aA0!'' @ replicate 24 CHR ''a'', sample_pool @ replicate 12 (CHR ''n''))"
    using sample_passwords by (simp add: sample_start_def)
  have room: "nonce_size \<le> length (replicate 12 (CHR ''n''))" by (simp add: nonce_size_def)
  have svc: "s_ServiceID (Service sample_catalog) = ''svc''" by (simp add: sample_catalog_def)
  obtain nms where nms: "NamesFor ''i'' (NamePrefix sample_cfg) (ip_Name sample_defaults) = Some nms"
    using sample_names_exist by (auto simp: sample_cfg_def sample_defaults_def)
  obtain user where user: "UserFor ''b'' (NamePrefix sample_cfg) (bp_Name \<lparr>bp_Name = []\<rparr>) = Some user"
    using UserFor_returns [of "''gdb''"] by (auto simp: sample_cfg_def)
  have free: "set (objects (accepted sample_start)) = {}" by (simp add: sample_start_facts objects_def)
  show ?thesis
    using lifecycle_completes [OF sample_broker_def sample_broker_ok _ _ _ _ sample_request sample_bind_request pw
        sample_passwords room nms user] sample_start_facts free
    by (auto simp: svc)
qed

theorem unrecorded_tenant_witness:
  "\<exists>w w' nms pw. Broker_Provision sample_broker ''i'' sample_details w = (Err (PassThrough (External ''disk full'')), w')
     \<and> accepted w = [] \<and> accepted w' = provision_trace (connURL sample_cfg) (bk_admin sample_broker) nms sample_defaults pw
     \<and> inst_rows (w_store w') ''i'' = None"
proof -
  let ?w = "tables_world (sample_pool @ []) (empty_tables\<lparr>t_faults := [None, None, Some (''disk full'', False)]\<rparr>)"
  have none: "inst_rows (w_store ?w) ''i'' = None" "accepted ?w = []" by (simp_all add: inst_rows_def accepted_def)
  have faults: "t_faults (w_store ?w) = [None, None, Some (''disk full'', False)]" by simp
  have pw: "randomPassword (w_pool ?w) = Some (''aA0!'' @ replicate 24 CHR ''a'', [])"
    using sample_passwords [of "[]"] by simp
  obtain nms where nms: "NamesFor ''i'' (NamePrefix sample_cfg) (ip_Name sample_defaults) = Some nms"
    using sample_names_exist by (auto simp: sample_cfg_def sample_defaults_def)
  have "set (objects (accepted ?w)) \<inter> tenant_objects nms = {}" unfolding none(2) by (simp add: objects_def)
  from unrecorded_tenant [OF sample_broker_def sample_broker_ok faults none(1) sample_request pw nms this] obtain w'
    where run: "Broker_Provision sample_broker ''i'' sample_details ?w = (Err (PassThrough (External ''disk full'')), w')"
      and acc: "accepted w' = accepted ?w @ provision_trace (connURL sample_cfg) (bk_admin sample_broker) nms sample_defaults
        (''aA0!'' @ replicate 24 CHR ''a'')"
      and "tenants_of inst_rows bind_rows w' = tenants_of inst_rows bind_rows ?w" by blast
  then have "inst_rows (w_store w') ''i'' = None" using none(1) unfolding tenants_of_def prod.inject by metis
  moreover have "accepted w' = provision_trace (connURL sample_cfg) (bk_admin sample_broker) nms sample_defaults
        (''aA0!'' @ replicate 24 CHR ''a'')" unfolding acc none(2) by simp
  ultimately show ?thesis using run none(2) by blast
qed

end
