(* ===== verification/Startup.thy ===== *)
theory Startup
  imports Lifecycle
begin

text \<open>
  \<open>main.go\<close>: the wiring. Starting up is the sequence of fallible steps before the server
  listens, each of which ends the process with its message when it fails; the health probe
  is one use of the database interface. What follows the start is in \<open>Serving\<close>.
\<close>

section \<open>Starting\<close>

text \<open>The fatal messages of \<open>must\<close>, with the error they log.\<close>

datatype fatal =
    InvalidConfiguration config_err
  | InvalidCatalogFile catalog_err
  | InvalidEncryptionKey key_err
  | CannotOpenState open_err
  | InvalidPreviousKey key_err
  | CannotRotate nat err

definition must :: "('e \<Rightarrow> fatal) \<Rightarrow> ('s, 'e, 'a) act \<Rightarrow> ('s, fatal, 'a) act" where
  "must msg m = on_err msg m"

text \<open>What is outside the program: the environment, the files, the drivers, the schema library.\<close>

record 'd outside =
  o_getenv :: "string \<Rightarrow> string"
  o_read_file :: "string \<Rightarrow> string + string"
  o_toml :: "string \<Rightarrow> string + catalog_data"
  o_sql_open :: "string \<Rightarrow> ext option"
  o_gorm_open :: "dialector \<Rightarrow> ext + 'd gorm"
  o_chmod :: "string \<Rightarrow> nat \<Rightarrow> ext option"
  o_templates :: template_env
  o_server :: server
  o_validate :: validator

record 'd running =
  run_db :: "'d db"
  run_address :: string
  run_broker :: "'d broker"

definition rotate_keys :: "config \<Rightarrow> 'd store \<Rightarrow> ('d world, fatal, unit) act" where
  "rotate_keys cfg store =
     (if EncryptionKeyPrevious cfg \<noteq> [] then
        seq (must InvalidPreviousKey (lift (NewPreviousKeyDecryptor (EncryptionKeyPrevious cfg)))) (\<lambda>previous.
        seq (must (\<lambda>(n, e). CannotRotate n e) (RotateBindings store previous)) (\<lambda>rotated.
        ret ()))
      else ret ())"

definition start_up :: "'d outside \<Rightarrow> ('d world, fatal, 'd running) act" where
  "start_up env =
     seq (must InvalidConfiguration (lift (LoadConfig (o_getenv env)))) (\<lambda>cfg.
     seq (must InvalidCatalogFile (lift (LoadCatalog (o_read_file env) (o_toml env) (PlansFile cfg)))) (\<lambda>data.
     seq (must InvalidEncryptionKey (lift (NewEncryptor (EncryptionKey cfg)))) (\<lambda>encr.
     seq (must CannotOpenState (OpenStore (o_sql_open env) (o_gorm_open env) (o_chmod env) cfg encr)) (\<lambda>store.
     seq (rotate_keys cfg store) (\<lambda>_.
     let db = NewDB (o_server env) cfg in
     ret \<lparr>run_db = db,
          run_address = HTTPHost cfg @ '':'' @ int_text (HTTPPort cfg),
          run_broker = NewBroker cfg data (NewAdmin cfg (o_templates env) db) store (o_validate env)\<rparr>)))))"

section \<open>The health probe\<close>

datatype health = HealthOk | Unreachable err

definition healthz :: "'d db \<Rightarrow> ('d world, 'e, nat \<times> health) act" where
  "healthz db w = (case db_Ping db w of
      (Err e, w') \<Rightarrow> (Ok (503, Unreachable e), w')
    | (Ok u, w') \<Rightarrow> (Ok (200, HealthOk), w')
    | (Panic, w') \<Rightarrow> (Panic, w'))"

section \<open>What a start establishes\<close>

text \<open>Every database that can be opened keeps the laws of GORM.\<close>

definition opens_gorm ::
    "'d outside \<Rightarrow> ('d \<Rightarrow> string \<rightharpoonup> InstanceRecord) \<Rightarrow> ('d \<Rightarrow> string \<rightharpoonup> BindingRecord) \<Rightarrow> bool" where
  "opens_gorm env insts binds \<longleftrightarrow> (\<forall>dialect g. o_gorm_open env dialect = Inr g \<longrightarrow> gorm_db g insts binds)"

lemma must_Ok [simp]: "must msg m w = (Ok x, w') \<longleftrightarrow> m w = (Ok x, w')"
  by (simp add: must_def)

lemma start_up_steps:
  assumes "start_up env w = (Ok run, w')"
  obtains cfg data encr store w1 where "LoadConfig (o_getenv env) = Ok cfg"
    and "LoadCatalog (o_read_file env) (o_toml env) (PlansFile cfg) = Ok data"
    and "NewEncryptor (EncryptionKey cfg) = Ok encr"
    and "OpenStore (o_sql_open env) (o_gorm_open env) (o_chmod env) cfg encr w = (Ok store, w1)"
    and "rotate_keys cfg store w1 = (Ok (), w')"
    and "run = \<lparr>run_db = NewDB (o_server env) cfg, run_address = HTTPHost cfg @ '':'' @ int_text (HTTPPort cfg),
           run_broker = NewBroker cfg data (NewAdmin cfg (o_templates env) (NewDB (o_server env) cfg)) store (o_validate env)\<rparr>"
  using assms by (auto simp: start_up_def seq_eq_Ok Let_def)

lemma OpenStore_store:
  assumes "OpenStore sql_open gorm_open chmod cfg encr w = (Ok s, w')"
  shows "st_encryptor s = encr" and "\<exists>dialect. gorm_open dialect = Inr (st_db s)" and "w_hist w' = w_hist w"
proof -
  have tables: "create_tables g ddls v = (x, v') \<Longrightarrow> w_hist v' = w_hist v" for g ddls v x v'
    by (induction g ddls v rule: create_tables.induct) (auto split: prod.splits option.splits)
  obtain dialect where "(case gorm_open dialect of Inl e \<Rightarrow> fail (CannotOpen e)
     | Inr g \<Rightarrow> seq (create_tables g stateSchema) (\<lambda>_.
         case (if StateDSN cfg = [] then chmod (StatePath cfg) 384 else None) of
           Some e \<Rightarrow> fail (CannotRestrict e) | None \<Rightarrow> ret \<lparr>st_db = g, st_encryptor = encr\<rparr>)) w = (Ok s, w')"
    using assms by (auto simp: OpenStore_def seq_eq_Ok)
  then obtain g where g: "gorm_open dialect = Inr g" "s = \<lparr>st_db = g, st_encryptor = encr\<rparr>"
    and c: "create_tables g stateSchema w = (Ok (), w')"
    by (auto simp: seq_eq_Ok split: sum.splits option.splits if_splits)
  show "st_encryptor s = encr" "\<exists>dialect. gorm_open dialect = Inr (st_db s)" "w_hist w' = w_hist w"
    using g tables [OF c] by auto
qed

lemma rotate_keys_done:
  assumes "rotate_keys cfg store w = (Ok (), w')" and "gorm_db (st_db store) insts binds"
  shows "w_hist w' = w_hist w"
    and "EncryptionKeyPrevious cfg \<noteq> [] \<Longrightarrow> binds (w_store w') k = Some b \<Longrightarrow>
           reads (st_encryptor store) (br_Credentials b) \<noteq> None"
proof -
  consider (idle) "EncryptionKeyPrevious cfg = []" "w' = w"
    | (rotated) prev m where "RotateBindings store prev w = (Ok m, w')"
    using assms(1) by (auto simp: rotate_keys_def seq_eq_Ok split: if_splits)
  then have "w_hist w' = w_hist w \<and> (EncryptionKeyPrevious cfg \<noteq> [] \<longrightarrow> binds (w_store w') k = Some b \<longrightarrow>
           reads (st_encryptor store) (br_Credentials b) \<noteq> None)"
  proof cases
    case rotated
    from stored.rotate_outcome [OF stored.intro [OF assms(2)] this] show ?thesis by simp
  qed simp
  then show "w_hist w' = w_hist w" "EncryptionKeyPrevious cfg \<noteq> [] \<Longrightarrow> binds (w_store w') k = Some b \<Longrightarrow>
           reads (st_encryptor store) (br_Credentials b) \<noteq> None" by blast+
qed

text \<open>
  With the embedded templates, an admin user that is a plain word, ASCII connection settings and
  quotas that float64 represents, the broker a start hands over is a deployed one.
\<close>

definition sound_settings :: "'d outside \<Rightarrow> 'd broker \<Rightarrow> bool" where
  "sound_settings env b \<longleftrightarrow> (TemplateDir (bk_cfg b) = []
       \<or> (\<forall>rel. te_read (o_templates env) (TemplateDir (bk_cfg b)) rel = NotExist))
     \<and> clean_text (DBUser (bk_cfg b)) \<and> list_all exact_quotas (Plans (bk_catalog b))
     \<and> list_all is_ascii (DBHost (bk_cfg b)) \<and> list_all is_ascii (DBSSLMode (bk_cfg b))"

lemma started_deployed:
  assumes "start_up env w = (Ok run, w')"
    and "opens_gorm env insts binds"
    and "sound_settings env (run_broker run)"
  shows "deployed (bk_cfg (run_broker run)) (o_server env) (run_broker run) insts binds"
proof -
  from assms(1) obtain cfg data encr store w1 where cfg: "LoadConfig (o_getenv env) = Ok cfg"
    and store: "OpenStore (o_sql_open env) (o_gorm_open env) (o_chmod env) cfg encr w = (Ok store, w1)"
    and run: "run = \<lparr>run_db = NewDB (o_server env) cfg, run_address = HTTPHost cfg @ '':'' @ int_text (HTTPPort cfg),
           run_broker = NewBroker cfg data (NewAdmin cfg (o_templates env) (NewDB (o_server env) cfg)) store (o_validate env)\<rparr>"
    by (rule start_up_steps)
  have "gorm_db (st_db store) insts binds" using OpenStore_store(2) [OF store] assms(2) unfolding opens_gorm_def by blast
  moreover have "config_ok cfg" by (rule LoadConfig_config_ok [OF cfg])
  ultimately show ?thesis
    using assms(3)
    by (auto simp: run NewBroker_def deployed_def broker_ok_def sound_settings_def admin_ready_def config_ok_def)
qed

section \<open>Properties\<close>

text \<open>
  Claim C21. The broker starts only when everything is in order: a validated configuration, a
  well-formed catalog, the encryptor of the configured key, an open store, and, when a retired
  key is configured, every stored credential readable under the current key. No statement
  has been sent to the server by then.
\<close>

theorem start_up_establishes:
  assumes "start_up env w = (Ok run, w')"
    and "opens_gorm env insts binds"
  shows "\<exists>cfg. LoadConfig (o_getenv env) = Ok cfg \<and> bk_cfg (run_broker run) = cfg \<and> config_ok cfg
    \<and> catalog_ok (bk_catalog (run_broker run))
    \<and> NewEncryptor (EncryptionKey cfg) = Ok (st_encryptor (bk_store (run_broker run)))
    \<and> gorm_db (st_db (bk_store (run_broker run))) insts binds
    \<and> (EncryptionKeyPrevious cfg = [] \<or> (\<nexists>k b. binds (w_store w') k = Some b
          \<and> reads (st_encryptor (bk_store (run_broker run))) (br_Credentials b) = None))
    \<and> accepted w' = accepted w"
proof -
  from assms(1) obtain cfg data encr store w1 where cfg: "LoadConfig (o_getenv env) = Ok cfg"
    and data: "LoadCatalog (o_read_file env) (o_toml env) (PlansFile cfg) = Ok data"
    and encr: "NewEncryptor (EncryptionKey cfg) = Ok encr"
    and store: "OpenStore (o_sql_open env) (o_gorm_open env) (o_chmod env) cfg encr w = (Ok store, w1)"
    and rot: "rotate_keys cfg store w1 = (Ok (), w')"
    and run: "run = \<lparr>run_db = NewDB (o_server env) cfg, run_address = HTTPHost cfg @ '':'' @ int_text (HTTPPort cfg),
           run_broker = NewBroker cfg data (NewAdmin cfg (o_templates env) (NewDB (o_server env) cfg)) store (o_validate env)\<rparr>"
    by (rule start_up_steps)
  note opened = OpenStore_store [OF store]
  have db: "gorm_db (st_db store) insts binds" using opened(2) assms(2) unfolding opens_gorm_def by blast
  have "catalog_ok data"
    using data by (auto simp: LoadCatalog_def catalog_ok_def validateService_ok validatePlans_ok split: sum.splits)
  then show ?thesis
    using LoadConfig_config_ok [OF cfg] rotate_keys_done [OF rot db] db opened(1,3) encr
    by (auto simp: cfg run NewBroker_def accepted_def)
qed

text \<open>
  Claim C35. The health probe tells the truth and leaves nothing behind: it answers 200 exactly when
  the admin database can be reached and answers the query, 503 otherwise; no statement is
  executed, the connection is closed and the state database is not touched.
\<close>

theorem health_iff_reachable:
  "\<exists>code body w'. healthz (NewDB srv cfg) w = (Ok (code, body), w')
     \<and> (code = 200 \<longleftrightarrow> srv_connect srv (w_hist w) (connURL cfg []) = None
          \<and> (\<exists>one. srv_query srv (w_hist w @ [Connected (connURL cfg [])]) (connURL cfg []) ''SELECT 1'' = Row one))
     \<and> (code = 200 \<longleftrightarrow> body = HealthOk) \<and> code \<in> {200, 503}
     \<and> accepted w' = accepted w \<and> open_conns w' = open_conns w \<and> w_store w' = w_store w"
proof -
  obtain r w' where p: "Ping srv cfg w = (r, w')" by fastforce
  note frame = Ping_outcome [OF p]
  have ok: "r = Ok () \<longleftrightarrow> srv_connect srv (w_hist w) (connURL cfg []) = None
      \<and> (\<exists>one. srv_query srv (w_hist w @ [Connected (connURL cfg [])]) (connURL cfg []) ''SELECT 1'' = Row one)"
    using p by (auto simp: Ping_def Let_def with_conn_def seq_def query_row_def log_event_def
        split: option.splits prod.splits query_result.splits)
  show ?thesis
    using frame ok p by (cases r) (auto simp: healthz_def NewDB_def)
qed

section \<open>A start at concrete inputs\<close>

definition sample_service :: catalog_data where
  "sample_service = sample_catalog\<lparr>Service := (Service sample_catalog)\<lparr>s_ServiceID := p_ID sample_plan\<rparr>\<rparr>"

definition sample_outside :: "tables outside" where
  "sample_outside = \<lparr>o_getenv = sample_env, o_read_file = (\<lambda>path. Inr []), o_toml = (\<lambda>raw. Inr sample_service),
     o_sql_open = (\<lambda>dsn. None), o_gorm_open = (\<lambda>dialect. Inr table_gorm), o_chmod = (\<lambda>path mode. None),
     o_templates = no_overrides, o_server = accepting, o_validate = (\<lambda>schema raw. Valid)\<rparr>"

lemma sample_service_loads: "LoadCatalog (\<lambda>path. Inr []) (\<lambda>raw. Inr sample_service) path = Ok sample_service"
proof -
  have "uuidPattern (p_ID sample_plan)" "p_ID sample_plan \<noteq> []" by code_simp+
  then show ?thesis
    by (simp add: LoadCatalog_def validateService_ok validatePlans_ok sample_service_def sample_catalog_def service_ok_def
        plan_ok_def) (simp add: sample_plan_def)
qed

lemma sample_config:
  "\<exists>cfg. LoadConfig sample_env = Ok cfg \<and> StateDSN cfg = [] \<and> EncryptionKey cfg = [] \<and> EncryptionKeyPrevious cfg = []
     \<and> TemplateDir cfg = [] \<and> DBUser cfg = ''gaussdb'' \<and> DBHost cfg = ''localhost'' \<and> DBSSLMode cfg = ''disable''"
  by (simp add: LoadConfig_def sample_env_def envInt_def env_str_def Let_def trim_def
      locationPrefixPattern_def namePrefixPattern_def is_alnum_def name_char_def class_codes)

text \<open>
  The name of the admin user is not validated, although it is spliced into the templates: a
  semicolon in it is accepted, and ends the statement inside the quoted identifier.
\<close>

lemma admin_user_splits:
  "\<exists>cfg. LoadConfig (sample_env(''GAUSSDB_ADMIN_USER'' := ''a;b'')) = Ok cfg \<and> DBUser cfg = ''a;b''
     \<and> splitSQL (''GRANT g TO '' @ quoteIdent (DBUser cfg) @ '';'' @ [newline])
         = [''GRANT g TO '' @ [CHR 0x22] @ ''a'', ''b'' @ [CHR 0x22]]"
proof -
  have "splitSQL (''GRANT g TO '' @ quoteIdent ''a;b'' @ '';'' @ [newline])
      = [''GRANT g TO '' @ [CHR 0x22] @ ''a'', ''b'' @ [CHR 0x22]]" by code_simp
  moreover have "\<exists>cfg. LoadConfig (sample_env(''GAUSSDB_ADMIN_USER'' := ''a;b'')) = Ok cfg \<and> DBUser cfg = ''a;b''"
    by (simp add: LoadConfig_def sample_env_def envInt_def env_str_def Let_def trim_def
      locationPrefixPattern_def namePrefixPattern_def is_alnum_def name_char_def class_codes)
  ultimately show ?thesis by metis
qed

text \<open>The sample start on any server, with any database that executes as the tables do.\<close>

definition sample_with :: "server \<Rightarrow> tables gorm \<Rightarrow> tables outside" where
  "sample_with srv g = sample_outside\<lparr>o_server := srv, o_gorm_open := (\<lambda>dialect. Inr g)\<rparr>"

lemma sample_with_starts:
  assumes "g_exec g = g_exec table_gorm"
  shows "\<exists>run. start_up (sample_with srv g) sample_start = (Ok run, sample_start)
     \<and> sound_settings (sample_with srv g) (run_broker run)
     \<and> bk_catalog (run_broker run) = sample_service \<and> bk_store (run_broker run) = \<lparr>st_db = g, st_encryptor = NoopEncryptor\<rparr>"
proof -
  obtain cfg where cfg: "LoadConfig sample_env = Ok cfg" "StateDSN cfg = []" "EncryptionKey cfg = []"
      "EncryptionKeyPrevious cfg = []" "TemplateDir cfg = []" "DBUser cfg = ''gaussdb''" "DBHost cfg = ''localhost''"
      "DBSSLMode cfg = ''disable''" using sample_config by blast
  have id: "sample_start\<lparr>w_store := w_store sample_start\<rparr> = sample_start" by simp
  have tables: "create_tables g ddls sample_start = (Ok (), sample_start)" for ddls
    by (induction ddls) (simp_all add: assms table_calls(12) [OF sample_start_facts(1)])
  let ?store = "\<lparr>st_db = g, st_encryptor = NoopEncryptor\<rparr>"
  have store: "OpenStore (\<lambda>dsn. None) (\<lambda>dialect. Inr g) (\<lambda>path mode. None) cfg NoopEncryptor sample_start
      = (Ok ?store, sample_start)"
    by (simp add: OpenStore_def stateDialector_def cfg seq_def tables)
  have clean: "clean_text ''gaussdb''" "list_all is_ascii ''localhost''" "list_all is_ascii ''disable''" by code_simp+
  let ?db = "NewDB srv cfg"
  let ?run = "\<lparr>run_db = ?db, run_address = HTTPHost cfg @ '':'' @ int_text (HTTPPort cfg),
     run_broker = NewBroker cfg sample_service (NewAdmin cfg no_overrides ?db) ?store (\<lambda>schema raw. Valid)\<rparr>"
  have rot: "rotate_keys cfg ?store = ret ()" using cfg by (simp add: rotate_keys_def)
  have start: "start_up (sample_with srv g) sample_start = (Ok ?run, sample_start)"
    using cfg store
    by (simp add: start_up_def sample_with_def sample_outside_def seq_def must_def on_err_def sample_service_loads
        NewEncryptor_def rot Let_def)
  have "sound_settings (sample_with srv g) (run_broker ?run)"
    using cfg clean sample_plan_exact
    by (simp add: sound_settings_def NewBroker_def sample_service_def sample_catalog_def)
  then show ?thesis using start by (auto simp: NewBroker_def)
qed

lemma sample_starts:
  "\<exists>run. start_up sample_outside sample_start = (Ok run, sample_start) \<and> sound_settings sample_outside (run_broker run)
     \<and> bk_catalog (run_broker run) = sample_service \<and> st_encryptor (bk_store (run_broker run)) = NoopEncryptor"
proof -
  have "sample_with accepting table_gorm = sample_outside" by (simp add: sample_with_def sample_outside_def)
  then show ?thesis using sample_with_starts [of table_gorm accepting] by auto
qed

lemma sample_gorm: "opens_gorm sample_outside inst_rows bind_rows"
  using table_gorm_db by (simp add: opens_gorm_def sample_outside_def)

theorem start_up_establishes_witness:
  "\<exists>run. start_up sample_outside sample_start = (Ok run, sample_start) \<and> catalog_ok (bk_catalog (run_broker run))
     \<and> gorm_db (st_db (bk_store (run_broker run))) inst_rows bind_rows"
proof -
  obtain run where run: "start_up sample_outside sample_start = (Ok run, sample_start)" using sample_starts by blast
  from start_up_establishes [OF run sample_gorm] run show ?thesis by blast
qed

end
