(* ===== verification/Answers.thy ===== *)
theory Answers
  imports Lifecycle
begin

text \<open>
  What the platform is told. The reading requests of \<open>broker.go\<close> answer from the stored rows
  and change nothing; a mutating request ends in a response or an error of its own kind, and
  panics only when a password is needed and the entropy is used up.
\<close>

section \<open>The reading requests\<close>

datatype query =
    CatalogQuery
  | InstanceQuery string
  | BindingQuery string string
  | LastOperationQuery string
  | LastBindingOperationQuery string string

datatype answer =
    ServicesAre "service list"
  | InstanceIs GetInstanceDetailsSpec
  | BindingIs GetBindingSpec
  | OperationIs LastOperation

fun ask :: "'d broker \<Rightarrow> query \<Rightarrow> ('d, answer) handler" where
  "ask b CatalogQuery = seq (Broker_Services b) (\<lambda>x. ret (ServicesAre x))"
| "ask b (InstanceQuery iid) = seq (Broker_GetInstance b iid) (\<lambda>x. ret (InstanceIs x))"
| "ask b (BindingQuery iid bid) = seq (Broker_GetBinding b iid bid) (\<lambda>x. ret (BindingIs x))"
| "ask b (LastOperationQuery iid) = seq (Broker_LastOperation b iid) (\<lambda>x. ret (OperationIs x))"
| "ask b (LastBindingOperationQuery iid bid) = seq (Broker_LastBindingOperation b iid bid) (\<lambda>x. ret (OperationIs x))"

text \<open>What the rows say, without any state: the answer, or that there is no such record.\<close>

fun told :: "'d broker \<Rightarrow> (string \<rightharpoonup> InstanceRecord) \<Rightarrow> (string \<rightharpoonup> BindingInfo) \<Rightarrow> query \<Rightarrow> api_err + answer" where
  "told b I E CatalogQuery = Inr (ServicesAre (Catalog (bk_catalog b)))"
| "told b I E (InstanceQuery iid) = (case I iid of None \<Rightarrow> Inl ErrInstanceNotFound
     | Some i \<Rightarrow> Inr (InstanceIs \<lparr>gi_ServiceID = ir_ServiceID i, gi_PlanID = ir_PlanID i, gi_Parameters = ir_Params i\<rparr>))"
| "told b I E (BindingQuery iid bid) = (case E bid of None \<Rightarrow> Inl ErrBindingNotFound
     | Some e \<Rightarrow> Inr (BindingIs \<lparr>gb_Credentials = bi_Credentials e, gb_Parameters = bi_Params e\<rparr>))"
| "told b I E (LastOperationQuery iid) = (case I iid of None \<Rightarrow> Inl ErrInstanceNotFound
     | Some i \<Rightarrow> Inr (OperationIs \<lparr>lo_State = Succeeded, lo_Description = ''synchronous operation''\<rparr>))"
| "told b I E (LastBindingOperationQuery iid bid) = (case E bid of None \<Rightarrow> Inl ErrBindingNotFound
     | Some e \<Rightarrow> Inr (OperationIs \<lparr>lo_State = Succeeded, lo_Description = ''synchronous operation''\<rparr>))"

text \<open>The bindings as they decrypt.\<close>

definition decrypted :: "'d store \<Rightarrow> (string \<rightharpoonup> BindingRecord) \<Rightarrow> string \<rightharpoonup> BindingInfo" where
  "decrypted s B k = Option.bind (B k) (\<lambda>v. case binding_info s v of Ok e \<Rightarrow> Some e | _ \<Rightarrow> None)"

lemma decrypted_Some: "decrypted s B k = Some e \<longleftrightarrow> (\<exists>v. B k = Some v \<and> binding_info s v = Ok e)"
proof -
  have "(case r of Ok e \<Rightarrow> Some e | _ \<Rightarrow> None) = Some e \<longleftrightarrow> r = Ok e" for r :: "(err, BindingInfo) go"
    by (cases r) auto
  then show ?thesis by (simp add: decrypted_def bind_eq_Some_conv)
qed

text \<open>
  The error of the state database that a query meets, and the world after its read.
\<close>

fun query_fault :: "'d broker \<Rightarrow> query \<Rightarrow> 'd \<Rightarrow> err option" where
  "query_fault b CatalogQuery d = None"
| "query_fault b (InstanceQuery iid) d = instance_fault (bk_store b) iid d"
| "query_fault b (BindingQuery iid bid) d = binding_fault (bk_store b) bid d"
| "query_fault b (LastOperationQuery iid) d = instance_fault (bk_store b) iid d"
| "query_fault b (LastBindingOperationQuery iid bid) d = binding_fault (bk_store b) bid d"

fun after_query :: "'d broker \<Rightarrow> query \<Rightarrow> 'd world \<Rightarrow> 'd world" where
  "after_query b CatalogQuery w = w"
| "after_query b (InstanceQuery iid) w = after_instance (bk_store b) iid w"
| "after_query b (BindingQuery iid bid) w = after_binding (bk_store b) bid w"
| "after_query b (LastOperationQuery iid) w = after_instance (bk_store b) iid w"
| "after_query b (LastBindingOperationQuery iid bid) w = after_binding (bk_store b) bid w"

lemma after_query_tables:
  "stored (bk_store b) insts binds \<Longrightarrow> same_tables insts binds w (after_query b q w)"
  by (cases q) (simp_all add: stored.after_instance_tables stored.after_binding_tables same_tables_def [of insts binds w w])

text \<open>Whatever the rows hold, a query ends in the world after its one read.\<close>

lemma ask_outcome:
  assumes "stored (bk_store b) insts binds" and "ask b q w = (r, w')"
  shows "w' = after_query b q w" and "same_tables insts binds w w'"
proof -
  show w': "w' = after_query b q w"
    using assms(2)
    by (cases q)
       (auto simp: seq_def pass_apply Broker_Services_def Broker_GetInstance_def Broker_GetBinding_def
         Broker_LastOperation_def Broker_LastBindingOperation_def synchronous_def
         stored.GetInstance_answer [OF assms(1)] stored.GetBinding_answer [OF assms(1)] split: option.splits go.splits prod.splits)
  show "same_tables insts binds w w'" unfolding w' by (rule after_query_tables [OF assms(1)])
qed

text \<open>Over rows that all decrypt, it answers what they say, or the error met.\<close>

lemma ask_answers:
  assumes "stored (bk_store b) insts binds" and "ask b q w = (r, w')"
    and "\<And>k v. binds (w_store w) k = Some v \<Longrightarrow> \<exists>e. binding_info (bk_store b) v = Ok e"
  shows "r = (case query_fault b q (w_store w) of Some e \<Rightarrow> Err (PassThrough e)
    | None \<Rightarrow> go_of_sum (told b (insts (w_store w)) (decrypted (bk_store b) (binds (w_store w))) q))"
proof -
  have binding: "(case binds (w_store w) k of None \<Rightarrow> Ok None
      | Some v \<Rightarrow> bind_go (binding_info (bk_store b) v) (\<lambda>e. Ok (Some e)))
    = Ok (decrypted (bk_store b) (binds (w_store w)) k)" for k
  proof (cases "binds (w_store w) k")
    case (Some v)
    then show ?thesis using assms(3) [OF Some] by (auto simp: decrypted_def)
  qed (simp add: decrypted_def)
  note answer = stored.GetInstance_answer [OF assms(1)] stored.GetBinding_answer [OF assms(1), of _ w, unfolded binding]
  have "fst (ask b q w) = (case query_fault b q (w_store w) of Some e \<Rightarrow> Err (PassThrough e)
    | None \<Rightarrow> go_of_sum (told b (insts (w_store w)) (decrypted (bk_store b) (binds (w_store w))) q))"
    by (cases q; cases "query_fault b q (w_store w)")
       (auto simp: seq_def pass_apply Broker_Services_def Broker_GetInstance_def Broker_GetBinding_def
         Broker_LastOperation_def Broker_LastBindingOperation_def synchronous_def answer split: option.splits)
  then show ?thesis using assms(2) by simp
qed

text \<open>The instance a binding is asked about plays no part, unlike in \<open>Unbind\<close>.\<close>

lemma binding_query_any_instance:
  "ask b (BindingQuery iid bid) = ask b (BindingQuery iid' bid)"
  "ask b (LastBindingOperationQuery iid bid) = ask b (LastBindingOperationQuery iid' bid)"
  by (simp_all add: Broker_GetBinding_def Broker_LastBindingOperation_def)

section \<open>The kinds of answers\<close>

fun own_response :: "request \<Rightarrow> response \<Rightarrow> bool" where
  "own_response (ProvisionReq iid d) x \<longleftrightarrow> (\<exists>known. x = Provisioned known)"
| "own_response (UpdateReq iid d) x \<longleftrightarrow> x = Updated"
| "own_response (DeprovisionReq iid sid) x \<longleftrightarrow> x = Deprovisioned"
| "own_response (BindReq iid bid d) x \<longleftrightarrow> (\<exists>creds. x = Bound creds)"
| "own_response (UnbindReq iid bid sid) x \<longleftrightarrow> x = Unbound"

fun own_errors :: "request \<Rightarrow> api_err set" where
  "own_errors (ProvisionReq iid d) = {ErrInstanceAlreadyExists}"
| "own_errors (UpdateReq iid d) = {ErrInstanceNotFound, ErrPlanChangeNotSupported}"
| "own_errors (DeprovisionReq iid sid) = {ErrInstanceNotFound}"
| "own_errors (BindReq iid bid d) = {ErrInstanceNotFound, ErrBindingAlreadyExists}"
| "own_errors (UnbindReq iid bid sid) = {ErrBindingNotFound}"

fun draws :: "request \<Rightarrow> bool" where
  "draws (ProvisionReq iid d) = True"
| "draws (BindReq iid bid d) = True"
| "draws rq = False"

definition answers :: "request \<Rightarrow> (api_err, response) go \<Rightarrow> bool" where
  "answers rq r \<longleftrightarrow> (case r of Ok x \<Rightarrow> own_response rq x
      | Err e \<Rightarrow> e \<in> own_errors rq \<or> (\<exists>m. e = BadRequest m) \<or> (\<exists>x. e = PassThrough x) | Panic \<Rightarrow> draws rq)"

section \<open>Properties\<close>

text \<open>
  Claim C13. The reading requests report the tables: each answers exactly what the stored row
  says, or that there is none; only when the state database fails does it answer otherwise,
  and then with that failure. It changes nothing and sends nothing. The credentials reported
  for a binding name the database of the instance it belongs to, whatever instance the
  request names.
\<close>

theorem reads_report_tables:
  assumes "deployed cfg srv b insts binds" and "tenant_inv b (tenants_of insts binds w)" and "ask b q w = (r, w')"
  shows "tenants_of insts binds w' = tenants_of insts binds w \<and> accepted w' = accepted w
    \<and> r = (case query_fault b q (w_store w) of Some e \<Rightarrow> Err (PassThrough e)
         | None \<Rightarrow> go_of_sum (told b (insts (w_store w)) (decrypted (bk_store b) (binds (w_store w))) q))
    \<and> (\<forall>iid bid x. q = BindingQuery iid bid \<longrightarrow> r = Ok (BindingIs x) \<longrightarrow> (\<exists>v i. binds (w_store w) bid = Some v
         \<and> insts (w_store w) (br_InstanceID v) = Some i \<and> gb_Credentials x ''database'' = Some (ir_Database i)
         \<and> gb_Credentials x ''username'' = Some (br_Username v) \<and> gb_Parameters x = br_Params v)
         \<and> (\<forall>iid'. ask b (BindingQuery iid' bid) w = (Ok (BindingIs x), w')))"
proof -
  note db = deployed_stored [OF assms(1)]
  let ?B = "decrypted (bk_store b) (binds (w_store w))"
  have ok: "bind_ok b (insts (w_store w)) k v" if "binds (w_store w) k = Some v" for k v
    using that assms(2) by (simp add: tenant_inv_def tenants_of_def)
  have out: "r = (case query_fault b q (w_store w) of Some e \<Rightarrow> Err (PassThrough e)
      | None \<Rightarrow> go_of_sum (told b (insts (w_store w)) ?B q))"
    by (rule ask_answers [OF db assms(3)]) (use ok in \<open>auto simp: bind_ok_def bound_row_def\<close>)
  have any: "\<forall>iid'. ask b (BindingQuery iid' bid) w = (Ok (BindingIs x), w')"
    if "q = BindingQuery iid bid" "r = Ok (BindingIs x)" for iid bid x
    using assms(3) that binding_query_any_instance(1) by metis
  have "\<exists>v i. binds (w_store w) bid = Some v \<and> insts (w_store w) (br_InstanceID v) = Some i
      \<and> gb_Credentials x ''database'' = Some (ir_Database i)
      \<and> gb_Credentials x ''username'' = Some (br_Username v) \<and> gb_Parameters x = br_Params v"
    if q: "q = BindingQuery iid bid" "r = Ok (BindingIs x)" for iid bid x
  proof -
    have "go_of_sum (told b (insts (w_store w)) ?B q) = Ok (BindingIs x)"
      using q(2) out by (simp split: option.splits)
    then have "told b (insts (w_store w)) ?B (BindingQuery iid bid) = Inr (BindingIs x)"
      using q(1) by (simp only: go_of_sum_eq_Ok)
    then obtain e where e: "?B bid = Some e" "gb_Credentials x = bi_Credentials e" "gb_Parameters x = bi_Params e"
      by (auto split: option.splits)
    then obtain v where v: "binds (w_store w) bid = Some v" "binding_info (bk_store b) v = Ok e"
      by (auto simp: decrypted_Some)
    from ok [OF v(1)] obtain i nms pw where i: "insts (w_store w) (br_InstanceID v) = Some i"
      and nms: "NamesFor (br_InstanceID v) (NamePrefix (bk_cfg b)) (ip_Name (ir_Params i)) = Some nms"
      and row: "binding_info (bk_store b) v = Ok (info_of v (credentials b (n_Database nms) (br_Username v) pw))"
      unfolding bind_ok_def bound_row_def by blast
    have "inst_ok b (br_InstanceID v) i" using assms(2) i by (simp add: tenant_inv_def tenants_of_def)
    then have "ir_Database i = n_Database nms" using nms by (auto simp: inst_ok_def)
    moreover have e': "e = info_of v (credentials b (n_Database nms) (br_Username v) pw)" using v(2) row by simp
    ultimately have "gb_Credentials x ''database'' = Some (ir_Database i)"
      "gb_Credentials x ''username'' = Some (br_Username v)" "gb_Parameters x = br_Params v"
      using e(2,3) by (simp_all add: info_of_def credentials_def Let_def)
    then show ?thesis using v(1) i by blast
  qed
  then show ?thesis using out same_tables_quiet [OF ask_outcome(2) [OF db assms(3)]] any by blast
qed

text \<open>
  Claim C12. Every request is answered in its own kind: with its response, an error the API defines
  for it, a 400, or an error passed through. Only a provisioning or a binding can panic, and
  only when the entropy is used up, with nothing sent and nothing changed.
\<close>

theorem requests_answered:
  assumes "deployed cfg srv b insts binds" and "tenant_inv b (tenants_of insts binds w)"
    and "handle b rq w = (r, w')"
  shows "answers rq r \<and> (r = Panic \<longrightarrow> randomPassword (w_pool w) = None
    \<and> accepted w' = accepted w \<and> tenants_of insts binds w' = tenants_of insts binds w)"
proof -
  note parts = deployed_parts [OF assms(1)] and ok = deployed_ok [OF assms(1)]
  note quiet = same_tables_quiet [of insts binds]
  have pool: "same_tables insts binds w v \<Longrightarrow> w_pool v = w_pool w" for v by (simp add: same_tables_def)
  have respond: "\<exists>x. m w = (x, w') \<and> r = (case x of Ok a \<Rightarrow> Ok (f a) | Err e \<Rightarrow> Err e | Panic \<Rightarrow> Panic)"
    if "respond f m w = (r, w')" for f :: "'x \<Rightarrow> response" and m using that by (simp add: respond_eq)
  show ?thesis
  proof (cases rq)
    case (ProvisionReq iid d)
    then obtain x where x: "Broker_Provision b iid d w = (x, w')"
      "r = (case x of Ok a \<Rightarrow> Ok (Provisioned a) | Err e \<Rightarrow> Err e | Panic \<Rightarrow> Panic)" using assms(3) respond by auto
    from x(1) show ?thesis
    proof (cases rule: broker_parts.provision_steps [OF parts, consumes 1])
      case (4 p spec w1)
      note clean = clean_spec_within [OF provision_request_within(2) [OF ok 4(1)]]
      from 4(4) ok clean show ?thesis
        by (cases rule: broker_parts.do_provision_steps [OF parts, consumes 3])
           (use x(2) ProvisionReq quiet [OF 4(3)] pool [OF 4(3)] in \<open>auto simp: answers_def tenants_of_def\<close>)
    qed (use x(2) ProvisionReq in \<open>auto simp: answers_def\<close>)
  next
    case (UpdateReq iid d)
    then obtain x where x: "Broker_Update b iid d w = (x, w')"
      "r = (case x of Ok a \<Rightarrow> Ok Updated | Err e \<Rightarrow> Err e | Panic \<Rightarrow> Panic)" using assms(3) respond by auto
    from x(1) show ?thesis
    proof (cases rule: broker_parts.update_steps [OF parts, consumes 1])
      case (5 i i' w1)
      have "inst_ok b iid i" using assms(2) 5(2) by (simp add: tenant_inv_def tenants_of_def)
      from 5(4) ok updated_ok(3) [OF ok this 5(1)] show ?thesis
        by (cases rule: broker_parts.do_update_steps [OF parts, consumes 3])
           (use x(2) UpdateReq in \<open>auto simp: answers_def\<close>)
    qed (use x(2) UpdateReq in \<open>auto simp: answers_def\<close>)
  next
    case (DeprovisionReq iid sid)
    then obtain x where x: "Broker_Deprovision b iid sid w = (x, w')"
      "r = (case x of Ok a \<Rightarrow> Ok Deprovisioned | Err e \<Rightarrow> Err e | Panic \<Rightarrow> Panic)" using assms(3) respond by auto
    from x(1) show ?thesis
    proof (cases rule: broker_parts.deprovision_steps [OF parts, consumes 1])
      case (5 i w1)
      from 5(4) ok show ?thesis
        by (cases rule: broker_parts.do_deprovision_steps [OF parts, consumes 2])
           (use x(2) DeprovisionReq in \<open>auto simp: answers_def\<close>)
    qed (use x(2) DeprovisionReq in \<open>auto simp: answers_def\<close>)
  next
    case (BindReq iid bid d)
    then obtain x where x: "Broker_Bind b iid bid d w = (x, w')"
      "r = (case x of Ok a \<Rightarrow> Ok (Bound a) | Err e \<Rightarrow> Err e | Panic \<Rightarrow> Panic)" using assms(3) respond by auto
    from x(1) show ?thesis
    proof (cases rule: broker_parts.bind_steps [OF parts, consumes 1])
      case (5 spec i w1)
      from 5(5) ok show ?thesis
        by (cases rule: broker_parts.do_bind_steps [OF parts, consumes 2])
           (use x(2) BindReq quiet [OF 5(4)] pool [OF 5(4)] in \<open>auto simp: answers_def tenants_of_def\<close>)
    qed (use x(2) BindReq in \<open>auto simp: answers_def\<close>)
  next
    case (UnbindReq iid bid sid)
    then obtain x where x: "Broker_Unbind b iid bid sid w = (x, w')"
      "r = (case x of Ok a \<Rightarrow> Ok Unbound | Err e \<Rightarrow> Err e | Panic \<Rightarrow> Panic)" using assms(3) respond by auto
    from x(1) show ?thesis
    proof (cases rule: broker_parts.unbind_steps [OF parts, consumes 1])
      case (4 i v e w1)
      have "bind_ok b (insts (w_store w)) bid v" using assms(2) 4(2) by (simp add: tenant_inv_def tenants_of_def)
      moreover have "bi_Username e = br_Username v" using 4(4) by (auto simp: binding_info_def)
      ultimately have "list_all name_char (bi_Username e)" using bind_ok_user [OF ok] by simp
      from 4(6) ok this show ?thesis
        by (cases rule: broker_parts.do_unbind_steps [OF parts, consumes 3])
           (use x(2) UnbindReq in \<open>auto simp: answers_def\<close>)
    qed (use x(2) UnbindReq in \<open>auto simp: answers_def\<close>)
  qed
qed

section \<open>The properties at concrete inputs\<close>

theorem reads_report_tables_witness:
  "\<exists>w x i. ask sample_broker (BindingQuery ''i'' ''b'') w = (Ok (BindingIs x), w)
     \<and> inst_rows (w_store w) ''i'' = Some i \<and> gb_Credentials x ''database'' = Some (ir_Database i)"
proof -
  obtain w1 w2 x nms user pw row where p: "Broker_Provision sample_broker ''i'' sample_details sample_start = (Ok False, w1)"
    and b: "Broker_Bind sample_broker ''i'' ''b'' sample_bind w1 = (Ok x, w2)"
    and row: "bound_row sample_broker ''i'' ''b'' \<lparr>bp_Name = []\<rparr> nms user pw row"
    and w2: "bind_rows (w_store w2) ''b'' = Some row" "t_faults (w_store w2) = []"
    using sample_bound by blast
  have "handle sample_broker (ProvisionReq ''i'' sample_details) sample_start = (Ok (Provisioned False), w1)"
    "handle sample_broker (BindReq ''i'' ''b'' sample_bind) w1 = (Ok (Bound x), w2)"
    using p b by (simp_all add: respond_eq)
  moreover have "tenant_inv sample_broker (tenants_of inst_rows bind_rows sample_start)"
    using tenant_inv_empty by (simp add: tenants_of_def sample_start_facts)
  ultimately have inv: "tenant_inv sample_broker (tenants_of inst_rows bind_rows w2)"
    using broker_step_inv [OF sample_deployed broker_step.served] by blast
  have info: "binding_info (sql_store NoopEncryptor) row = Ok (info_of row (credentials sample_broker (n_Database nms) user pw))"
    using row by (simp add: bound_row_def)
  have iid: "br_InstanceID row = ''i''" using row unfolding bound_row_def by (metis BindingRecord.select_convs(2))
  define a where "a = \<lparr>gb_Credentials = bi_Credentials (info_of row (credentials sample_broker (n_Database nms) user pw)),
    gb_Parameters = bi_Params (info_of row (credentials sample_broker (n_Database nms) user pw))\<rparr>"
  have run: "ask sample_broker (BindingQuery ''i'' ''b'') w2 = (Ok (BindingIs a), w2)"
    using sql_calls(6) [OF w2(2,1) info] by (simp add: Broker_GetBinding_def seq_def pass_apply a_def)
  from reads_report_tables [OF sample_deployed inv run] obtain v i where "bind_rows (w_store w2) ''b'' = Some v"
    "inst_rows (w_store w2) (br_InstanceID v) = Some i" "gb_Credentials a ''database'' = Some (ir_Database i)" by blast
  then show ?thesis using w2(1) iid run by (intro exI [of _ w2] exI [of _ a] exI [of _ i]) simp
qed

theorem requests_answered_witness:
  "\<exists>w1. handle sample_broker (ProvisionReq ''i'' sample_details) sample_start = (Ok (Provisioned False), w1)
     \<and> answers (ProvisionReq ''i'' sample_details) (Ok (Provisioned False))"
proof -
  obtain w1 where "Broker_Provision sample_broker ''i'' sample_details sample_start = (Ok False, w1)"
    using sample_provisioned by blast
  then have run: "handle sample_broker (ProvisionReq ''i'' sample_details) sample_start = (Ok (Provisioned False), w1)"
    by (simp add: respond_eq)
  have "tenant_inv sample_broker (tenants_of inst_rows bind_rows sample_start)"
    using tenant_inv_empty by (simp add: tenants_of_def sample_start_facts)
  from requests_answered [OF sample_deployed this run] run show ?thesis by blast
qed

end
