(* ===== verification/Serving.thy ===== *)
theory Serving
  imports Startup Answers
begin

text \<open>
  \<open>main.go\<close> once the broker is up: the routes of \<open>newHandler\<close>, and the end of \<open>main\<close>, which
  serves until a signal stops it or the listener fails. \<open>brokerapi.New\<close> is a parameter that
  turns an HTTP request into a call of the broker or refuses it; rendering the answer is left
  to it as well.
\<close>

section \<open>Routes\<close>

text \<open>A request, as far as the routing and the authentication read it; the path is as sent, escaped.\<close>

record http =
  h_method :: string
  h_path :: string
  h_auth :: "(string \<times> string) option"
  h_body :: string

text \<open>
  \<open>http.ServeMux\<close>: an unclean path is redirected, except for CONNECT; then the pattern
  \<open>/healthz\<close> takes the path of that one segment, and \<open>/\<close> everything else.
\<close>

fun climb :: "string \<Rightarrow> string list \<Rightarrow> string list" where
  "climb seg up = (if seg = [] \<or> seg = ''.'' then up else if seg = ''..'' then tl up else seg # up)"

definition clean_path :: "string \<Rightarrow> string" where
  "clean_path p = (if p = [] then ''/'' else
     let segs = split_on (\<lambda>c. c = CHR ''/'') p;
         clean = CHR ''/'' # join ''/'' (rev (fold climb segs []))
     in if last p = CHR ''/'' \<and> clean \<noteq> ''/'' then clean @ ''/'' else clean)"

definition path_unescape :: "string \<Rightarrow> string" where
  "path_unescape seg = (case url_unescape Path seg of Some t \<Rightarrow> t | None \<Rightarrow> seg)"

datatype route = ToProbe | ToApi | RedirectTo string | NoRoute

fun matched :: "string \<Rightarrow> route" where
  "matched [] = NoRoute"
| "matched (c # seg) = (if CHR ''/'' \<notin> set seg \<and> path_unescape seg = ''healthz'' then ToProbe else ToApi)"

definition route :: "http \<Rightarrow> route" where
  "route r = (if h_method r = ''CONNECT'' then matched (h_path r)
     else if clean_path (h_path r) \<noteq> h_path r then RedirectTo (clean_path (h_path r))
     else matched (h_path r))"

text \<open>What brokerapi makes of a request, given the catalog and the credentials it was created with.\<close>

datatype api_call = Refuse nat | Change request | Ask query

type_synonym api = "service list \<Rightarrow> string \<times> string \<Rightarrow> http \<Rightarrow> api_call"

datatype reply =
    NotFound
  | Moved string
  | ProbeReply nat health
  | Crashed
  | Refused nat
  | Changed "(api_err, response) go"
  | Told "(api_err, answer) go"

definition newHandler :: "config \<Rightarrow> 'd broker \<Rightarrow> 'd db \<Rightarrow> api \<Rightarrow> http \<Rightarrow> 'd world \<Rightarrow> reply \<times> 'd world" where
  "newHandler cfg broker db api r w = (case route r of
      NoRoute \<Rightarrow> (NotFound, w)
    | RedirectTo p \<Rightarrow> (Moved p, w)
    | ToProbe \<Rightarrow> (case (healthz db :: ('d world, err, nat \<times> health) act) w of
          (Ok (code, body), w') \<Rightarrow> (ProbeReply code body, w')
        | (_, w') \<Rightarrow> (Crashed, w'))
    | ToApi \<Rightarrow> (case api (Catalog (bk_catalog broker)) (BrokerUsername cfg, BrokerPassword cfg) r of
          Refuse code \<Rightarrow> (Refused code, w)
        | Change rq \<Rightarrow> (case handle broker rq w of (x, w') \<Rightarrow> (Changed x, w'))
        | Ask q \<Rightarrow> (case ask broker q w of (x, w') \<Rightarrow> (Told x, w'))))"

section \<open>Serving and ending\<close>

text \<open>
  What happens to the process: a request is handled (after the signal, one that was in flight),
  entropy comes in, the signal arrives, \<open>ListenAndServe\<close> returns (\<open>None\<close> is
  \<open>ErrServerClosed\<close>), \<open>Shutdown\<close> returns.
\<close>

datatype occurrence =
    Arrives http
  | Entropy string
  | Interrupted
  | ListenEnded "ext option"
  | ShutdownReturned

datatype phase = Serving | Stopping | Exited nat

text \<open>\<open>os.Exit\<close> skips the deferred \<open>store.Close()\<close>; the end of \<open>main\<close> runs it and drops its error.\<close>

fun on_occurrence :: "'d running \<Rightarrow> api \<Rightarrow> occurrence \<Rightarrow> phase \<times> 'd world \<Rightarrow> phase \<times> 'd world" where
  "on_occurrence run api ev (Exited code, w) = (Exited code, w)"
| "on_occurrence run api (Arrives r) (ph, w) =
     (ph, snd (newHandler (bk_cfg (run_broker run)) (run_broker run) (run_db run) api r w))"
| "on_occurrence run api (Entropy pool) (ph, w) = (ph, w\<lparr>w_pool := pool\<rparr>)"
| "on_occurrence run api Interrupted (ph, w) = (Stopping, w)"
| "on_occurrence run api (ListenEnded (Some e)) (ph, w) = (Exited 1, w)"
| "on_occurrence run api (ListenEnded None) (ph, w) = (ph, w)"
| "on_occurrence run api ShutdownReturned (Stopping, w) = (Exited 0, snd (Store_Close (bk_store (run_broker run)) w))"
| "on_occurrence run api ShutdownReturned (Serving, w) = (Serving, w)"

definition serve :: "'d running \<Rightarrow> api \<Rightarrow> occurrence list \<Rightarrow> 'd world \<Rightarrow> phase \<times> 'd world" where
  "serve run api evs w = fold (on_occurrence run api) evs (Serving, w)"

text \<open>A failed step of the start exits with 1, a panic would exit with 2.\<close>

definition main :: "'d outside \<Rightarrow> api \<Rightarrow> occurrence list \<Rightarrow> 'd world \<Rightarrow> phase \<times> 'd world" where
  "main env api evs w = (case start_up env w of
      (Ok run, w0) \<Rightarrow> serve run api evs w0
    | (Err e, w0) \<Rightarrow> (Exited 1, w0)
    | (Panic, w0) \<Rightarrow> (Exited 2, w0))"

section \<open>The routes\<close>

lemma route_examples:
  "route \<lparr>h_method = ''GET'', h_path = ''/healthz'', h_auth = None, h_body = []\<rparr> = ToProbe"
  "route \<lparr>h_method = ''PUT'', h_path = ''/%68ealthz'', h_auth = None, h_body = []\<rparr> = ToProbe"
  "route \<lparr>h_method = ''GET'', h_path = ''/healthz/'', h_auth = None, h_body = []\<rparr> = ToApi"
  "route \<lparr>h_method = ''GET'', h_path = ''/v2/../healthz'', h_auth = None, h_body = []\<rparr> = RedirectTo ''/healthz''"
  "route \<lparr>h_method = ''PUT'', h_path = ''/v2/service_instances/i'', h_auth = None, h_body = []\<rparr> = ToApi"
  by code_simp+

section \<open>What a request does\<close>

lemma healthz_quiet:
  "healthz (NewDB srv cfg) w = (r, w') \<Longrightarrow> accepted w' = accepted w \<and> open_conns w' = open_conns w
    \<and> w_store w' = w_store w \<and> (\<exists>code body. r = Ok (code, body))"
proof -
  assume run: "healthz (NewDB srv cfg) w = (r, w')"
  obtain x v where p: "Ping srv cfg w = (x, v)" by fastforce
  show ?thesis using Ping_outcome [OF p] run p by (cases x) (auto simp: healthz_def NewDB_def)
qed

lemma newHandler_cases:
  assumes "newHandler cfg b (NewDB srv dcfg) api r w = (reply, w')"
  obtains (plain) "w' = w" and "route r \<noteq> ToProbe" and "reply \<in> {NotFound} \<union> range Moved \<union> range Refused"
    | (probe) code body where "route r = ToProbe" and "reply = ProbeReply code body" and "accepted w' = accepted w"
      and "open_conns w' = open_conns w" and "w_store w' = w_store w"
    | (changed) rq x where "route r = ToApi" and "handle b rq w = (x, w')" and "reply = Changed x"
      and "api (Catalog (bk_catalog b)) (BrokerUsername cfg, BrokerPassword cfg) r = Change rq"
    | (told) q x where "route r = ToApi" and "ask b q w = (x, w')" and "reply = Told x"
      and "api (Catalog (bk_catalog b)) (BrokerUsername cfg, BrokerPassword cfg) r = Ask q"
proof (cases "route r")
  case ToProbe
  obtain x v where h: "(healthz (NewDB srv dcfg) w :: (err, nat \<times> health) go \<times> _) = (x, v)" by fastforce
  note quiet = healthz_quiet [OF h]
  then obtain code body where "x = Ok (code, body)" by blast
  then show thesis using probe [OF ToProbe] assms quiet h by (auto simp: newHandler_def ToProbe)
next
  case ToApi
  then show thesis
    using assms plain changed told
    by (cases "api (Catalog (bk_catalog b)) (BrokerUsername cfg, BrokerPassword cfg) r")
      (auto simp: newHandler_def split: prod.splits)
qed (use assms plain in \<open>auto simp: newHandler_def\<close>)

lemma newHandler_inv:
  assumes "deployed cfg srv b insts binds" and "tenant_inv b (tenants_of insts binds w)"
    and "newHandler acfg b (NewDB srv dcfg) api r w = (reply, w')"
  shows "tenant_inv b (tenants_of insts binds w')"
  using assms(3)
proof (cases rule: newHandler_cases)
  case (changed rq x)
  then show ?thesis using broker_step_inv [OF assms(1) broker_step.served assms(2)] by blast
next
  case (told q x)
  then show ?thesis
    using ask_outcome(2) [OF deployed_stored [OF assms(1)] told(2)] assms(2) same_tenants by fastforce
qed (use assms(2) in \<open>simp_all add: tenants_of_def\<close>)

section \<open>How serving goes on and ends\<close>

lemma serve_snoc: "serve run api (evs @ [ev]) w = on_occurrence run api ev (serve run api evs w)"
  by (simp add: serve_def)

lemma serve_Nil [simp]: "serve run api [] w = (Serving, w)"
  by (simp add: serve_def)

definition ended :: "'d running \<Rightarrow> api \<Rightarrow> occurrence list \<Rightarrow> 'd world \<Rightarrow> nat \<Rightarrow> 'd world \<Rightarrow> bool" where
  "ended run api evs w code w' \<longleftrightarrow> (\<exists>xs ev zs ph v. evs = xs @ ev # zs \<and> serve run api xs w = (ph, v) \<and> ph \<in> {Serving, Stopping}
     \<and> ((code = 0 \<and> ph = Stopping \<and> ev = ShutdownReturned \<and> w' = snd (Store_Close (bk_store (run_broker run)) v))
       \<or> (code = 1 \<and> (\<exists>e. ev = ListenEnded (Some e)) \<and> w' = v)))"

lemma ended_more: "ended run api evs w code w' \<Longrightarrow> ended run api (evs @ zs) w code w'"
  unfolding ended_def by fastforce

lemma serve_phases:
  assumes "serve run api evs w = (ph, w')"
  shows "(ph = Serving \<longrightarrow> Interrupted \<notin> set evs) \<and> (ph = Stopping \<longrightarrow> Interrupted \<in> set evs)
    \<and> (\<forall>code. ph = Exited code \<longrightarrow> ended run api evs w code w')"
  using assms
proof (induction evs arbitrary: ph w' rule: rev_induct)
  case (snoc ev evs)
  obtain p v where v: "serve run api evs w = (p, v)" by fastforce
  note IH = snoc.IH [OF v]
  have step: "on_occurrence run api ev (p, v) = (ph, w')" using snoc.prems v by (simp add: serve_snoc)
  show ?case
  proof (cases "\<exists>code. p = Exited code")
    case True
    then show ?thesis using IH step ended_more by auto
  next
    case False
    have here: "ended run api (evs @ [ev]) w code w'"
      if "(code = 0 \<and> p = Stopping \<and> ev = ShutdownReturned \<and> w' = snd (Store_Close (bk_store (run_broker run)) v))
        \<or> (code = 1 \<and> (\<exists>e. ev = ListenEnded (Some e)) \<and> w' = v)" for code
      unfolding ended_def
      by (rule exI [of _ evs], rule exI [of _ ev], rule exI [of _ "[]"], rule exI [of _ p], rule exI [of _ v])
        (use that v False in \<open>cases p; auto\<close>)
    from False consider "p = Serving" | "p = Stopping" by (cases p) auto
    then show ?thesis
    proof cases
      case 1
      then show ?thesis using IH step here by (cases "(run, api, ev, p, v)" rule: on_occurrence.cases) auto
    next
      case 2
      then show ?thesis using IH step here by (cases "(run, api, ev, p, v)" rule: on_occurrence.cases) auto
    qed
  qed
qed simp

text \<open>A start never panics.\<close>

lemma start_up_not_Panic:
  assumes "opens_gorm env insts binds"
  shows "start_up env w \<noteq> (Panic, w')"
proof
  assume panic: "start_up env w = (Panic, w')"
  have config: "LoadConfig (o_getenv env) \<noteq> Panic" by (rule LoadConfig_not_Panic)
  have catalog: "LoadCatalog (o_read_file env) (o_toml env) path \<noteq> Panic" for path
    by (auto simp: LoadCatalog_def validateService_def validatePlans_def bind_go_eq_Panic split: sum.splits)
  have key: "parseKey k msg \<noteq> Panic" for k msg
    by (auto simp: parseKey_def split: option.splits)
  have encr: "NewEncryptor k \<noteq> Panic" "NewPreviousKeyDecryptor k \<noteq> Panic" for k
    using key by (auto simp: NewEncryptor_def NewPreviousKeyDecryptor_def bind_go_eq_Panic)
  have tables: "create_tables g ddls v \<noteq> (Panic, v')" for g ddls v v'
    by (induction g ddls v rule: create_tables.induct) (auto split: prod.splits option.splits)
  have store: "OpenStore (o_sql_open env) (o_gorm_open env) (o_chmod env) cfg e v \<noteq> (Panic, v')" for cfg e v v'
    using tables by (auto simp: OpenStore_def seq_eq_Panic stateDialector_def split: sum.splits option.splits if_splits)
  have opened: "gorm_db (st_db s) insts binds"
    if "OpenStore (o_sql_open env) (o_gorm_open env) (o_chmod env) cfg e v = (Ok s, v')" for cfg e v s v'
    using OpenStore_store(2) [OF that] assms unfolding opens_gorm_def by blast
  have rotate: "rotate_keys cfg s v \<noteq> (Panic, v')" if "gorm_db (st_db s) insts binds" for cfg s v v'
  proof -
    have "RotateBindings s prev u \<noteq> (Panic, u')" for prev u u'
      using stored.rotate_outcome [OF stored.intro [OF that], of prev u Panic u'] by blast
    then show ?thesis using encr(2)
      by (auto simp: rotate_keys_def must_def seq_eq_Panic split: if_splits)
  qed
  show False using panic config catalog encr store opened rotate
    by (auto simp: start_up_def must_def seq_eq_Panic Let_def)
qed

text \<open>Every occurrence but the closing keeps what every request keeps and the tables imply.\<close>

lemma serve_keeps:
  assumes "P w" and "\<And>r reply v v'. P v \<Longrightarrow>
      newHandler (bk_cfg (run_broker run)) (run_broker run) (run_db run) api r v = (reply, v') \<Longrightarrow> P v'"
    and "\<And>v pool. P v \<Longrightarrow> P (v\<lparr>w_pool := pool\<rparr>)"
    and "serve run api evs w = (ph, w')" and "ph \<noteq> Exited 0"
  shows "P w'"
  using assms(4,5)
proof (induction evs arbitrary: ph w' rule: rev_induct)
  case Nil
  then show ?case using assms(1) by simp
next
  case (snoc ev evs)
  obtain p v where v: "serve run api evs w = (p, v)" by fastforce
  have step: "on_occurrence run api ev (p, v) = (ph, w')" using snoc.prems v by (simp add: serve_snoc)
  then have "p \<noteq> Exited 0" using snoc.prems(2) by auto
  then have "P v" using snoc.IH [OF v] by blast
  moreover from this have "P (snd (newHandler (bk_cfg (run_broker run)) (run_broker run) (run_db run) api r v))" for r
    using assms(2) by (metis prod.collapse)
  ultimately show ?case
    using step snoc.prems(2) assms(3)
    by (cases "(run, api, ev, p, v)" rule: on_occurrence.cases) auto
qed

lemma started_db: "start_up env w = (Ok run, w0) \<Longrightarrow> run_db run = NewDB (o_server env) (bk_cfg (run_broker run))"
  by (erule start_up_steps) (simp add: NewBroker_def)

section \<open>Properties\<close>

text \<open>The documented behaviour of brokerapi's authentication: other credentials are refused.\<close>

definition authenticates :: "api \<Rightarrow> bool" where
  "authenticates api \<longleftrightarrow> (\<forall>catalog creds r. h_auth r \<noteq> Some creds \<longrightarrow> (\<exists>code. api catalog creds r = Refuse code))"

text \<open>
  Claim C23. Only the platform reaches the broker: whatever the route, method and path, a request
  without the configured credentials gets no answer of the broker, has no statement accepted,
  leaves no connection and does not touch the state database; it is answered by the probe
  exactly on the health route, which needs no credentials.
\<close>

theorem unauthenticated_harmless:
  assumes "authenticates api" and "h_auth r \<noteq> Some (BrokerUsername cfg, BrokerPassword cfg)"
    and "newHandler cfg b (NewDB srv dcfg) api r w = (reply, w')"
  shows "accepted w' = accepted w \<and> open_conns w' = open_conns w \<and> w_store w' = w_store w
    \<and> (\<nexists>x. reply = Changed x) \<and> (\<nexists>x. reply = Told x)
    \<and> (route r = ToProbe \<longleftrightarrow> (\<exists>code body. reply = ProbeReply code body))"
proof -
  obtain code where refused: "api (Catalog (bk_catalog b)) (BrokerUsername cfg, BrokerPassword cfg) r = Refuse code"
    using assms(1,2) unfolding authenticates_def by blast
  from assms(3) show ?thesis
    by (cases rule: newHandler_cases) (use refused in auto)
qed

text \<open>
  Claim C22. How the process ends. It goes on serving, whatever the requests do, until the signal;
  it exits with 0 only when the shutdown after the signal has returned, and has then closed the
  state database; otherwise it exits with 1, at a failed step of the start or a failure of the
  listener, and the state database is left as the last request left it, without being closed.
\<close>

theorem main_exits:
  assumes "opens_gorm env insts binds" and "main env api evs w = (ph, w')"
  shows "(case ph of
      Serving \<Rightarrow> (\<exists>run w0. start_up env w = (Ok run, w0) \<and> Interrupted \<notin> set evs)
    | Stopping \<Rightarrow> (\<exists>run w0. start_up env w = (Ok run, w0) \<and> Interrupted \<in> set evs)
    | Exited code \<Rightarrow>
        (code = 0 \<and> (\<exists>run w0 xs zs v. start_up env w = (Ok run, w0) \<and> evs = xs @ ShutdownReturned # zs
           \<and> Interrupted \<in> set xs \<and> serve run api xs w0 = (Stopping, v)
           \<and> w' = snd (Store_Close (bk_store (run_broker run)) v)))
      \<or> (code = 1 \<and> (\<exists>run w0 xs e zs p. start_up env w = (Ok run, w0) \<and> evs = xs @ ListenEnded (Some e) # zs
           \<and> p \<in> {Serving, Stopping} \<and> serve run api xs w0 = (p, w')))
      \<or> (code = 1 \<and> (\<exists>fatal. start_up env w = (Err fatal, w'))))"
proof -
  obtain r w0 where r: "start_up env w = (r, w0)" by fastforce
  show ?thesis
  proof (cases r)
    case (Ok run)
    then have s: "serve run api evs w0 = (ph, w')" using assms(2) r by (simp add: main_def)
    note phases = serve_phases [OF s]
    show ?thesis
    proof (cases ph)
      case (Exited code)
      then obtain xs ev zs p v where e: "evs = xs @ ev # zs" "serve run api xs w0 = (p, v)" "p \<in> {Serving, Stopping}"
        "(code = 0 \<and> p = Stopping \<and> ev = ShutdownReturned \<and> w' = snd (Store_Close (bk_store (run_broker run)) v))
          \<or> (code = 1 \<and> (\<exists>e. ev = ListenEnded (Some e)) \<and> w' = v)"
        using phases unfolding ended_def by blast
      then show ?thesis using serve_phases [OF e(2)] r Ok Exited by auto blast+
    qed (use phases r Ok in auto)
  next
    case (Err f)
    then show ?thesis using assms(2) r by (auto simp: main_def)
  next
    case Panic
    then show ?thesis using start_up_not_Panic [OF assms(1)] r by blast
  qed
qed

section \<open>The properties at concrete inputs\<close>

definition sample_api :: api where
  "sample_api = (\<lambda>catalog creds r. if h_auth r = Some creds then Change (ProvisionReq ''i'' sample_details) else Refuse 401)"

definition sample_http :: "string \<Rightarrow> http" where
  "sample_http path = \<lparr>h_method = ''PUT'', h_path = path, h_auth = None, h_body = []\<rparr>"

theorem unauthenticated_harmless_witness:
  "\<exists>w1 w2 code body. newHandler sample_cfg sample_broker (NewDB catalog_server sample_cfg) sample_api
       (sample_http ''/v2/service_instances/i'') sample_start = (Refused 401, w1) \<and> accepted w1 = []
     \<and> newHandler sample_cfg sample_broker (NewDB catalog_server sample_cfg) sample_api
       (sample_http ''/healthz'') sample_start = (ProbeReply code body, w2) \<and> accepted w2 = []"
proof -
  have auth: "authenticates sample_api" by (simp add: authenticates_def sample_api_def)
  have none: "h_auth (sample_http path) \<noteq> Some creds" for path creds by (simp add: sample_http_def)
  have routes: "route (sample_http ''/healthz'') = ToProbe" "route (sample_http ''/v2/service_instances/i'') = ToApi"
    unfolding sample_http_def by code_simp+
  obtain r1 w1 where h1: "newHandler sample_cfg sample_broker (NewDB catalog_server sample_cfg) sample_api
      (sample_http ''/v2/service_instances/i'') sample_start = (r1, w1)" by fastforce
  obtain r2 w2 where h2: "newHandler sample_cfg sample_broker (NewDB catalog_server sample_cfg) sample_api
      (sample_http ''/healthz'') sample_start = (r2, w2)" by fastforce
  note safe = unauthenticated_harmless [OF auth none]
  have "r1 = Refused 401" using h1 routes by (simp add: newHandler_def sample_api_def sample_http_def)
  moreover obtain code body where "r2 = ProbeReply code body" using safe [OF h2] routes by blast
  ultimately show ?thesis using safe [OF h1] safe [OF h2] h1 h2 sample_start_facts(4) by auto
qed

theorem main_exits_witness:
  "\<exists>w1 run xs v. main sample_outside sample_api [Arrives (sample_http ''/healthz''), Interrupted, ShutdownReturned] sample_start
       = (Exited 0, w1) \<and> start_up sample_outside sample_start = (Ok run, sample_start)
     \<and> serve run sample_api xs sample_start = (Stopping, v) \<and> w1 = snd (Store_Close (bk_store (run_broker run)) v)"
proof -
  obtain run where run: "start_up sample_outside sample_start = (Ok run, sample_start)" using sample_starts by blast
  obtain w1 where m: "main sample_outside sample_api [Arrives (sample_http ''/healthz''), Interrupted, ShutdownReturned]
      sample_start = (Exited 0, w1)"
    using run by (simp add: main_def serve_def)
  from main_exits [OF sample_gorm m] obtain xs v where "serve run sample_api xs sample_start = (Stopping, v)"
    "w1 = snd (Store_Close (bk_store (run_broker run)) v)" using run by auto
  then show ?thesis using m run by blast
qed

end
