(* ===== verification/Isolation.thy ===== *)
theory Isolation
  imports Lifecycle
begin

text \<open>
  Tenants stay apart: on a server that does not deny what it has accepted, no two stored
  instances share a database, group role or tablespace, and no two stored bindings a user.
  The argument is the group role: it is the first object a provisioning creates and the last
  one a deprovisioning drops, so while a record exists its role does, and the check before
  the next provisioning of the same name finds it. It needs that a delete in the state
  database takes effect; a record that outlives its objects lets a second tenant take its
  name, and removing the first again then removes the second one's database.
\<close>

section \<open>What the server finds\<close>

lemma taken_stops:
  assumes "honest srv" and "(t, c) \<in> set name_columns" and "(t, n) \<in> set (objects (accepted w))"
    and "ensureAbsent (NewAdmin cfg env (NewDB srv cfg)) t c n w = (r, w')"
  shows "\<exists>e. r = Err e"
proof (cases "srv_connect srv (w_hist w) (connURL cfg [])")
  case None
  have "srv_query srv (w_hist w @ [Connected (connURL cfg [])]) (connURL cfg []) (catalog_query t c n) \<noteq> NoRows"
  proof -
    have "concat (map accepted_event (w_hist w @ [Connected (connURL cfg [])])) = accepted w"
      by (simp add: accepted_def)
    then show ?thesis using assms(1-3) unfolding honest_def by metis
  qed
  then show ?thesis
    using assms(4) None
    by (cases "srv_query srv (w_hist w @ [Connected (connURL cfg [])]) (connURL cfg []) (catalog_query t c n)")
      (auto simp: ensureAbsent_def NewDB_def Exists_def Let_def with_conn_def query_row_def seq_def log_event_def)
next
  case (Some e)
  then show ?thesis
    using assms(4) by (auto simp: ensureAbsent_def NewDB_def Exists_def Let_def with_conn_def seq_def)
qed

lemma absent_first:
  assumes "seq (ensureAbsent (NewAdmin cfg env db) t c n) f w = (r, w')" and "db = NewDB srv cfg"
  obtains (stop) e where "r = Err e" and "accepted w' = accepted w"
    | (go) w1 where "accepted w1 = accepted w" and "f () w1 = (r, w')"
    and "ensureAbsent (NewAdmin cfg env db) t c n w = (Ok (), w1)"
  using assms(1)
proof (cases rule: seq_cases)
  case (ok x w1)
  then show thesis using go guardsD [OF gauss.ensureAbsent_guards, of cfg env srv] assms(2) by fastforce
next
  case (err e)
  then show thesis using stop guardsD [OF gauss.ensureAbsent_guards, of cfg env srv] assms(2) by fastforce
next
  case panic
  then show thesis using guardsD [OF gauss.ensureAbsent_guards, of cfg env srv] assms(2) by fastforce
qed

lemma provision_taken:
  assumes "honest srv" and "(''pg_roles'', n_GroupRole nms) \<in> set (objects (accepted w))"
    and run: "Admin_Provision (NewAdmin cfg env (NewDB srv cfg)) nms spec w = (r, w')"
  shows "(\<exists>e. r = Err e) \<and> accepted w' = accepted w"
  using run [unfolded Admin_Provision_def] refl
proof (cases rule: absent_first)
  case (go w1)
  from go(2) refl show ?thesis
  proof (cases rule: absent_first)
    case (go w2)
    then show ?thesis
      using taken_stops [OF assms(1) _ _ go(3)] assms(2) \<open>accepted w1 = accepted w\<close> by (simp add: name_columns_def)
  qed (use go in simp)
qed simp

lemma bind_taken:
  assumes "honest srv" and "(''pg_roles'', user) \<in> set (objects (accepted w))"
    and run: "Admin_Bind (NewAdmin cfg env (NewDB srv cfg)) nms user w = (r, w')"
  shows "(\<exists>e. r = Err e) \<and> accepted w' = accepted w"
  using run [unfolded Admin_Bind_def] refl
proof (cases rule: absent_first)
  case (go w1)
  then show ?thesis using taken_stops [OF assms(1) _ assms(2) go(3)] by (simp add: name_columns_def)
qed simp

section \<open>The invariant\<close>

text \<open>The roles the stored records rely on: the group role of each instance, the user of each binding.\<close>

definition owned :: "'d broker \<Rightarrow> tenants \<Rightarrow> (string \<times> string) set" where
  "owned b s = {(''pg_roles'', n_GroupRole nms) | k i nms. fst s k = Some i
       \<and> NamesFor k (NamePrefix (bk_cfg b)) (ip_Name (ir_Params i)) = Some nms}
     \<union> {(''pg_roles'', br_Username v) | k v. snd s k = Some v}"

lemma owned_instance:
  "fst s k = Some i \<Longrightarrow> NamesFor k (NamePrefix (bk_cfg b)) (ip_Name (ir_Params i)) = Some nms
    \<Longrightarrow> (''pg_roles'', n_GroupRole nms) \<in> owned b s"
  unfolding owned_def by blast

lemma owned_binding: "snd s k = Some v \<Longrightarrow> (''pg_roles'', br_Username v) \<in> owned b s"
  unfolding owned_def by blast

lemma owned_cases:
  assumes "x \<in> owned b s"
  obtains (tenant) k i nms where "x = (''pg_roles'', n_GroupRole nms)" and "fst s k = Some i"
      and "NamesFor k (NamePrefix (bk_cfg b)) (ip_Name (ir_Params i)) = Some nms"
    | (login) k v where "x = (''pg_roles'', br_Username v)" and "snd s k = Some v"
  using assms unfolding owned_def by blast

text \<open>No two records share a name.\<close>

definition isolated :: "tenants \<Rightarrow> bool" where
  "isolated s \<longleftrightarrow>
     (\<forall>k k' i i'. fst s k = Some i \<longrightarrow> fst s k' = Some i' \<longrightarrow> ir_Database i = ir_Database i' \<longrightarrow> k = k')
   \<and> (\<forall>k k' v v'. snd s k = Some v \<longrightarrow> snd s k' = Some v' \<longrightarrow> br_Username v = br_Username v' \<longrightarrow> k = k')"

definition isolation_inv :: "'d broker \<Rightarrow> tenants \<Rightarrow> (string \<times> string) list \<Rightarrow> bool" where
  "isolation_inv b s acc \<longleftrightarrow> tenant_inv b s \<and> isolated s \<and> owned b s \<subseteq> set (objects acc)"

lemma isolation_inv_empty: "isolation_inv b (Map.empty, Map.empty) acc"
  by (simp add: isolation_inv_def tenant_inv_empty isolated_def owned_def)

lemma owned_roles: "x \<in> owned b s \<Longrightarrow> \<exists>n. x = (''pg_roles'', n)"
  by (auto simp: owned_def)

lemma owned_spared: "x \<in> owned b s \<Longrightarrow> x \<noteq> (''pg_roles'', n_GroupRole nms) \<Longrightarrow> x \<notin> tenant_objects nms"
  using owned_roles by (fastforce simp: tenant_objects_def)

text \<open>The names of a stored instance are those of its record.\<close>

lemma inst_names:
  assumes "inst_ok b k i" and "NamesFor k (NamePrefix (bk_cfg b)) (ip_Name (ir_Params i)) = Some nms"
  shows "ir_Database i = n_Database nms"
  using assms by (auto simp: inst_ok_def)

text \<open>Each kind of step keeps the invariant.\<close>

lemma isolation_same:
  assumes "isolation_inv b s acc" and "owned b s \<subseteq> set (objects acc')"
  shows "isolation_inv b s acc'"
  using assms by (simp add: isolation_inv_def)

lemma isolation_provisioned:
  assumes inv: "isolation_inv b (I, B) acc" and "tenant_inv b (I(k \<mapsto> i), B)" and "I k = None"
    and names: "NamesFor k (NamePrefix (bk_cfg b)) (ip_Name (ir_Params i)) = Some nms"
    and new: "(''pg_roles'', n_GroupRole nms) \<notin> set (objects acc)"
    and "insert (''pg_roles'', n_GroupRole nms) (set (objects acc)) \<subseteq> set (objects acc')"
  shows "isolation_inv b (I(k \<mapsto> i), B) acc'"
proof -
  have db: "ir_Database j \<noteq> ir_Database i" if j: "I l = Some j" for l j
  proof -
    obtain nms' where nms': "NamesFor l (NamePrefix (bk_cfg b)) (ip_Name (ir_Params j)) = Some nms'"
      and "ir_Database j = n_Database nms'"
      using inv j by (auto simp: isolation_inv_def tenant_inv_def inst_ok_def)
    moreover have "(''pg_roles'', n_GroupRole nms') \<in> set (objects acc)"
      using inv owned_instance [of "(I, B)" l j b nms'] j nms' by (auto simp: isolation_inv_def)
    moreover have "ir_Database i = n_Database nms"
      using assms(2) names by (intro inst_names [of b k]) (simp_all add: tenant_inv_def)
    ultimately show ?thesis using new names_determined(1) [OF nms' names] by auto
  qed
  have "isolated (I(k \<mapsto> i), B)"
    using inv db by (auto simp: isolation_inv_def isolated_def) (metis db)+
  moreover have "owned b (I(k \<mapsto> i), B) \<subseteq> insert (''pg_roles'', n_GroupRole nms) (owned b (I, B))"
    using names by (auto elim!: owned_cases intro: owned_instance owned_binding split: if_splits)
  ultimately show ?thesis using inv assms(2,6) by (auto simp: isolation_inv_def)
qed

lemma isolation_updated:
  assumes "isolation_inv b (I, B) acc" and "tenant_inv b (I(k \<mapsto> i'), B)" and "I k = Some i" and "same_tenant i i'"
    and "owned b (I, B) \<subseteq> set (objects acc')"
  shows "isolation_inv b (I(k \<mapsto> i'), B) acc'"
proof -
  have same: "ir_Database i' = ir_Database i" "ip_Name (ir_Params i') = ip_Name (ir_Params i)"
    using assms(4) by (auto simp: same_tenant_def)
  have "owned b (I(k \<mapsto> i'), B) \<subseteq> owned b (I, B)"
  proof
    fix x assume "x \<in> owned b (I(k \<mapsto> i'), B)"
    then show "x \<in> owned b (I, B)"
    proof (cases rule: owned_cases)
      case (tenant l j nms)
      then show ?thesis
        using owned_instance [of "(I, B)" l "if l = k then i else j" b nms] assms(3) same by (auto split: if_splits)
    next
      case (login l v)
      then show ?thesis using owned_binding [of "(I, B)" l v] by simp
    qed
  qed
  moreover have "isolated (I(k \<mapsto> i'), B)"
    using assms(1,3) same by (auto simp: isolation_inv_def isolated_def)
  ultimately show ?thesis using assms(2,5) by (auto simp: isolation_inv_def)
qed

lemma isolation_dropped:
  assumes "isolation_inv b s acc" and "tenant_inv b s'" and "fst s' \<subseteq>\<^sub>m fst s" and "snd s' \<subseteq>\<^sub>m snd s"
    and "owned b s' \<subseteq> set (objects acc')"
  shows "isolation_inv b s' acc'"
proof -
  have "fst s' k = Some i \<Longrightarrow> fst s k = Some i" "snd s' k = Some v \<Longrightarrow> snd s k = Some v" for k i v
    using assms(3,4) by (simp_all add: map_le_def dom_def)
  then have "isolated s'" using assms(1) unfolding isolation_inv_def isolated_def by meson
  then show ?thesis using assms(2,5) by (simp add: isolation_inv_def)
qed

lemma isolation_bound:
  assumes inv: "isolation_inv b (I, B) acc" and "tenant_inv b (I, B(k \<mapsto> v))" and "B k = None"
    and new: "(''pg_roles'', br_Username v) \<notin> set (objects acc)"
    and "insert (''pg_roles'', br_Username v) (set (objects acc)) \<subseteq> set (objects acc')"
  shows "isolation_inv b (I, B(k \<mapsto> v)) acc'"
proof -
  have user: "br_Username u \<noteq> br_Username v" if "B l = Some u" for l u
    using inv new owned_binding [of "(I, B)" l u b] that by (auto simp: isolation_inv_def)
  have "isolated (I, B(k \<mapsto> v))"
    using inv user by (auto simp: isolation_inv_def isolated_def) (metis user)+
  moreover have "owned b (I, B(k \<mapsto> v)) \<subseteq> insert (''pg_roles'', br_Username v) (owned b (I, B))"
    by (auto elim!: owned_cases intro: owned_instance owned_binding split: if_splits)
  ultimately show ?thesis using inv assms(2,5) by (auto simp: isolation_inv_def)
qed

section \<open>The operations keep it\<close>

text \<open>A delete takes effect, though it may report an error.\<close>

definition deletes_work ::
    "'d gorm \<Rightarrow> ('d \<Rightarrow> string \<rightharpoonup> InstanceRecord) \<Rightarrow> ('d \<Rightarrow> string \<rightharpoonup> BindingRecord) \<Rightarrow> bool" where
  "deletes_work g insts binds \<longleftrightarrow>
     (\<forall>k d. insts (snd (g_delete_instance g k d)) = (insts d)(k := None))
   \<and> (\<forall>k d. binds (snd (g_delete_binding g k d)) = (binds d)(k := None))"

lemma write_db_store: "write_db f w = (r, w') \<Longrightarrow> w_store w' = snd (f (w_store w))"
  by (auto simp: write_db_def on_db_def seq_def split: prod.splits option.splits)

lemma deletes_done:
  assumes "deletes_work (st_db s) insts binds"
  shows "DeleteInstance s k w = (r, w') \<Longrightarrow> insts (w_store w') = (insts (w_store w))(k := None)"
    and "DeleteBinding s k w = (r, w') \<Longrightarrow> binds (w_store w') = (binds (w_store w))(k := None)"
  using assms write_db_store unfolding deletes_work_def DeleteInstance_def DeleteBinding_def by metis+

lemma deployed_admin: "deployed cfg srv b insts binds \<Longrightarrow> \<exists>env. bk_admin b = NewAdmin cfg env (NewDB srv cfg)"
  by (simp add: deployed_def)

lemma quiet_step:
  assumes "isolation_inv b (tenants_of insts binds w) (accepted w)" and "accepted w' = accepted w"
    and "tenants_of insts binds w' = tenants_of insts binds w"
  shows "isolation_inv b (tenants_of insts binds w') (accepted w')"
  using assms by simp

lemma provision_isolated:
  assumes dep: "deployed cfg srv b insts binds" and "honest srv"
    and inv: "isolation_inv b (tenants_of insts binds w) (accepted w)" and free: "insts (w_store w) iid = None"
    and tinv: "tenant_inv b (tenants_of insts binds w')" and spec: "clean_spec spec"
    and run: "do_provision b iid p spec w = (r, w')"
  shows "isolation_inv b (tenants_of insts binds w') (accepted w')"
proof -
  note parts = deployed_parts [OF dep] and ok = deployed_ok [OF dep]
  obtain env where a: "bk_admin b = NewAdmin cfg env (NewDB srv cfg)" using deployed_admin [OF dep] by blast
  have cfg: "bk_cfg b = cfg" using dep by (simp add: deployed_def)
  have prefix: "namePrefixPattern (NamePrefix (bk_cfg b))" using ok by (simp add: broker_ok_def)
  obtain nms where nms: "NamesFor iid (NamePrefix (bk_cfg b)) (ip_Name spec) = Some nms"
    using names_of_prefix(1) [OF prefix] by blast
  obtain x w1 where x: "Admin_Provision (bk_admin b) nms spec w = (x, w1)" by fastforce
  show ?thesis
  proof (cases "(''pg_roles'', n_GroupRole nms) \<in> set (objects (accepted w))")
    case True
    from provision_taken [OF assms(2) this x [unfolded a]] obtain e where e: "x = Err e" "accepted w1 = accepted w" by blast
    have "w_store w1 = w_store w"
      using x keepsD [OF admin_contract.admin_keeps_store(4)] gauss.admin_contract_axioms unfolding a by metis
    moreover have "w' = w1" using run nms e x by (simp add: do_provision_def seq_def [of "Broker_names _ _ _"] seq_on_err)
    ultimately show ?thesis using quiet_step [OF inv] e by (simp add: tenants_of_def)
  next
    case False
    note kept = objects_kept_by(1,4)
    have apart: "x \<in> owned b (tenants_of insts binds w) \<Longrightarrow> x \<notin> tenant_objects nms" for x
      using inv False by (intro owned_spared) (auto simp: isolation_inv_def)
    have owned: "owned b (tenants_of insts binds w) \<subseteq> set (objects (accepted w))"
      using inv by (simp add: isolation_inv_def)
    let ?i = "(new_instance b p spec nms)\<lparr>ir_InstanceID := iid\<rparr>"
    have full: "isolation_inv b ((insts (w_store w))(iid \<mapsto> ?i), binds (w_store w)) (accepted w @ provision_trace (connURL cfg) (bk_admin b) nms spec pw)"
      if "tenant_inv b ((insts (w_store w))(iid \<mapsto> ?i), binds (w_store w))" for pw
      by (rule isolation_provisioned [OF _ that free _ False])
        (use inv nms in \<open>auto simp: tenants_of_def new_instance_def objects_after tenant_objects_def\<close>)
    have quiet: "isolation_inv b (tenants_of insts binds w) (accepted w @ take k (provision_trace (connURL cfg) (bk_admin b) nms spec pw)
        @ take j (deprovision_trace (connURL cfg) (bk_admin b) nms))" for k j pw
      by (rule isolation_same [OF inv])
        (use owned apart objects_kept_by(1,4) in \<open>simp only: append_assoc [symmetric], blast\<close>)
    show ?thesis
      using run ok spec
    proof (cases rule: broker_parts.do_provision_steps [OF parts, consumes 3])
      case (1 n pw)
      then show ?thesis using full [of pw] tinv nms by (simp add: tenants_of_def)
    next
      case (2 n pw e)
      then show ?thesis
        using full [of pw] quiet [of "length (provision_trace (connURL cfg) (bk_admin b) nms spec pw)" pw 0] tinv nms
        by (auto simp: tenants_of_def)
    next
      case 3
      then show ?thesis using quiet_step [OF inv] by (simp add: tenants_of_def)
    next
      case (4 n pw k j e)
      then show ?thesis using quiet [of k pw j] nms by (simp add: tenants_of_def)
    next
      case 5
      then show ?thesis using quiet_step [OF inv] by (simp add: tenants_of_def)
    qed
  qed
qed

lemma bind_isolated:
  assumes dep: "deployed cfg srv b insts binds" and "honest srv"
    and inv: "isolation_inv b (tenants_of insts binds w) (accepted w)" and free: "binds (w_store w) bid = None"
    and tinv: "tenant_inv b (tenants_of insts binds w')" and run: "do_bind b iid bid i spec w = (r, w')"
  shows "isolation_inv b (tenants_of insts binds w') (accepted w')"
proof -
  note parts = deployed_parts [OF dep] and ok = deployed_ok [OF dep]
  obtain env where a: "bk_admin b = NewAdmin cfg env (NewDB srv cfg)" using deployed_admin [OF dep] by blast
  have prefix: "namePrefixPattern (NamePrefix (bk_cfg b))" using ok by (simp add: broker_ok_def)
  obtain nms where nms: "NamesFor iid (NamePrefix (bk_cfg b)) (ip_Name (ir_Params i)) = Some nms"
    using names_of_prefix(1) [OF prefix] by blast
  obtain user where user: "UserFor bid (NamePrefix (bk_cfg b)) (bp_Name spec) = Some user"
    using names_of_prefix(3) [OF prefix] by blast
  obtain x w1 where x: "Admin_Bind (bk_admin b) nms user w = (x, w1)" by fastforce
  show ?thesis
  proof (cases "(''pg_roles'', user) \<in> set (objects (accepted w))")
    case True
    from bind_taken [OF assms(2) this x [unfolded a]] obtain e where e: "x = Err e" "accepted w1 = accepted w" by blast
    have "w_store w1 = w_store w"
      using x keepsD [OF admin_contract.admin_keeps_store(5)] gauss.admin_contract_axioms unfolding a by metis
    moreover have "w' = w1"
      using run nms user e x
      by (simp add: do_bind_def seq_def [of "Broker_names _ _ _"] seq_def [of "Broker_user _ _ _"] seq_on_err)
    ultimately show ?thesis using quiet_step [OF inv] e by (simp add: tenants_of_def)
  next
    case False
    have apart: "x \<in> owned b (tenants_of insts binds w) \<Longrightarrow> x \<noteq> (''pg_roles'', user)" for x
      using inv False by (auto simp: isolation_inv_def)
    have owned: "owned b (tenants_of insts binds w) \<subseteq> set (objects (accepted w))"
      using inv by (simp add: isolation_inv_def)
    have full: "isolation_inv b (insts (w_store w), (binds (w_store w))(bid \<mapsto> v))
        (accepted w @ bind_trace (connURL cfg) (bk_admin b) n user pw)"
      if "bound_row b iid bid spec n u pw v" "tenant_inv b (insts (w_store w), (binds (w_store w))(bid \<mapsto> v))" for n u pw v
    proof -
      have "br_Username v = user"
        using that(1) user unfolding bound_row_def by (metis BindingRecord.select_convs(3) option.inject)
      then show ?thesis
        by (intro isolation_bound [OF _ that(2) free]) (use inv False in \<open>auto simp: tenants_of_def objects_after\<close>)
    qed
    have quiet: "isolation_inv b (tenants_of insts binds w) (accepted w @ take k (bind_trace (connURL cfg) (bk_admin b) n user pw)
        @ take j (unbind_trace (connURL cfg) (bk_admin b) n user))" for k j n pw
      by (rule isolation_same [OF inv])
        (use owned apart objects_kept_by(3,5) in \<open>simp only: append_assoc [symmetric], blast\<close>)
    show ?thesis
      using run ok
    proof (cases rule: broker_parts.do_bind_steps [OF parts, consumes 2])
      case (1 n u pw v)
      then have "u = user" using bound_row_user user by fastforce
      then show ?thesis using full 1 tinv by (simp add: tenants_of_def)
    next
      case (2 n u pw e)
      then have "u = user" using user by simp
      then show ?thesis
        using full [of n user pw] quiet [of "length (bind_trace (connURL cfg) (bk_admin b) n user pw)" n pw 0] 2 tinv
        by (auto simp: tenants_of_def)
    next
      case 3
      then show ?thesis using quiet_step [OF inv] by (simp add: tenants_of_def)
    next
      case (4 n u pw k j e)
      then show ?thesis using quiet [of k n pw j] user by (simp add: tenants_of_def)
    next
      case 5
      then show ?thesis using quiet_step [OF inv] by (simp add: tenants_of_def)
    qed
  qed
qed

lemma update_isolated:
  assumes dep: "deployed cfg srv b insts binds"
    and inv: "isolation_inv b (tenants_of insts binds w) (accepted w)" and here: "insts (w_store w) iid = Some i"
    and tinv: "tenant_inv b (tenants_of insts binds w')" and rq: "update_request b d i i'"
    and run: "do_update b iid i' w = (r, w')"
  shows "isolation_inv b (tenants_of insts binds w') (accepted w')"
proof -
  note parts = deployed_parts [OF dep] and ok = deployed_ok [OF dep]
  have "inst_ok b iid i" using inv here by (simp add: isolation_inv_def tenant_inv_def tenants_of_def)
  note up = updated_ok [OF ok this rq]
  have self: "i'\<lparr>ir_InstanceID := iid\<rparr> = i'" using up(1) by (simp add: inst_ok_def)
  have owned: "owned b (tenants_of insts binds w) \<subseteq> set (objects (accepted w))"
    using inv by (simp add: isolation_inv_def)
  have quiet: "isolation_inv b (tenants_of insts binds w) (accepted w @ take k (update_trace (connURL cfg) (bk_admin b) n s))" for k n s
    by (rule isolation_same [OF inv]) (use owned objects_kept_by(2) in blast)
  show ?thesis
    using run ok up(3)
  proof (cases rule: broker_parts.do_update_steps [OF parts, consumes 3])
    case (1 n k e)
    then show ?thesis using quiet by (simp add: tenants_of_def)
  next
    case (2 n)
    let ?acc = "accepted w @ update_trace (connURL cfg) (bk_admin b) n (ir_Params i')"
    have "isolation_inv b ((insts (w_store w))(iid \<mapsto> i'), binds (w_store w)) ?acc"
      if "tenant_inv b ((insts (w_store w))(iid \<mapsto> i'), binds (w_store w))"
      by (rule isolation_updated [OF _ that here up(2)]) (use inv owned in \<open>simp_all add: tenants_of_def objects_after\<close>)
    moreover have "isolation_inv b (tenants_of insts binds w) ?acc"
      using quiet [of "length (update_trace (connURL cfg) (bk_admin b) n (ir_Params i'))" n "ir_Params i'"] by simp
    ultimately show ?thesis using 2 tinv self by (auto simp: tenants_of_def put_rows_def)
  qed
qed

text \<open>Removing takes away the last record of its names, and only its own.\<close>

lemma owned_others:
  assumes inv: "isolation_inv b (I, B) acc" and names: "NamesFor k (NamePrefix (bk_cfg b)) (ip_Name (ir_Params i)) = Some nms"
    and "I k = Some i"
  shows "owned b (I(k := None), B) \<subseteq> set (objects acc) - tenant_objects nms"
proof
  fix x assume x: "x \<in> owned b (I(k := None), B)"
  have all: "y \<in> owned b (I, B) \<Longrightarrow> y \<in> set (objects acc)" for y using inv by (auto simp: isolation_inv_def)
  have "x \<in> owned b (I, B) \<and> x \<noteq> (''pg_roles'', n_GroupRole nms)"
    using x
  proof (cases rule: owned_cases)
    case (tenant l j nms')
    then have l: "l \<noteq> k" "I l = Some j" by (simp_all split: if_splits)
    have ok: "inst_ok b k i" "inst_ok b l j" using inv l assms(3) by (simp_all add: isolation_inv_def tenant_inv_def)
    have "ir_Database j \<noteq> ir_Database i"
      using inv l assms(3) unfolding isolation_inv_def isolated_def by fastforce
    then have "n_GroupRole nms' \<noteq> n_GroupRole nms"
      using inst_names [OF ok(1) names] inst_names [OF ok(2) tenant(3)] names_determined(1) [OF tenant(3) names] by simp
    then show ?thesis using tenant(1) owned_instance [of "(I, B)" l j b nms'] l tenant(3) by simp
  next
    case (login l v)
    then have v: "B l = Some v" by simp
    then have "bind_ok b I l v" using inv by (simp add: isolation_inv_def tenant_inv_def)
    then have "UserFor l (NamePrefix (bk_cfg b)) (bp_Name (br_Params v)) = Some (br_Username v)"
      unfolding bind_ok_def bound_row_def by blast
    then have "br_Username v \<noteq> n_GroupRole nms" using user_apart(2) names by blast
    then show ?thesis using login(1) owned_binding [of "(I, B)" l v b] v by simp
  qed
  then show "x \<in> set (objects acc) - tenant_objects nms" using owned_spared all by blast
qed

lemma owned_others_user:
  assumes inv: "isolation_inv b (I, B) acc" and "B k = Some v"
  shows "owned b (I, B(k := None)) \<subseteq> set (objects acc) - {(''pg_roles'', br_Username v)}"
proof
  fix x assume x: "x \<in> owned b (I, B(k := None))"
  have all: "y \<in> owned b (I, B) \<Longrightarrow> y \<in> set (objects acc)" for y using inv by (auto simp: isolation_inv_def)
  have "bind_ok b I k v" using inv assms(2) by (simp add: isolation_inv_def tenant_inv_def)
  then have user: "UserFor k (NamePrefix (bk_cfg b)) (bp_Name (br_Params v)) = Some (br_Username v)"
    unfolding bind_ok_def bound_row_def by blast
  have "x \<in> owned b (I, B) \<and> x \<noteq> (''pg_roles'', br_Username v)"
    using x
  proof (cases rule: owned_cases)
    case (tenant l j nms)
    then show ?thesis using user_apart(2) [OF user tenant(3)] owned_instance [of "(I, B)" l j b nms] by auto
  next
    case (login l u)
    then have u: "l \<noteq> k" "B l = Some u" by (simp_all split: if_splits)
    then have "br_Username u \<noteq> br_Username v"
      using inv assms(2) unfolding isolation_inv_def isolated_def by fastforce
    then show ?thesis using login(1) owned_binding [of "(I, B)" l u b] u by simp
  qed
  then show "x \<in> set (objects acc) - {(''pg_roles'', br_Username v)}" using all by blast
qed

lemma deprovision_isolated:
  assumes dep: "deployed cfg srv b insts binds" and del: "deletes_work (st_db (bk_store b)) insts binds"
    and inv: "isolation_inv b (tenants_of insts binds w) (accepted w)" and here: "insts (w_store w) iid = Some i"
    and tinv: "tenant_inv b (tenants_of insts binds w')" and run: "do_deprovision b iid i w = (r, w')"
  shows "isolation_inv b (tenants_of insts binds w') (accepted w')"
proof -
  note parts = deployed_parts [OF dep] and ok = deployed_ok [OF dep]
  have owned: "x \<in> owned b (tenants_of insts binds w) \<Longrightarrow> x \<in> set (objects (accepted w))" for x
    using inv by (auto simp: isolation_inv_def)
  show ?thesis
    using run ok
  proof (cases rule: broker_parts.do_deprovision_steps [OF parts, consumes 2])
    case (1 nms k e)
    have "x \<in> set (objects (accepted w'))" if "x \<in> owned b (tenants_of insts binds w)" for x
      unfolding 1(5)
      by (cases "x = (''pg_roles'', n_GroupRole nms)")
        (use role_goes_last(1) [OF owned [OF that] 1(6)] objects_kept_by(4) [OF owned [OF that]] owned_spared [OF that] in blast)+
    then have "isolation_inv b (tenants_of insts binds w) (accepted w')" by (intro isolation_same [OF inv] subsetI)
    then show ?thesis using 1(3) by (simp add: tenants_of_def)
  next
    case (2 nms)
    obtain u v where "w_store v = w_store w" "DeleteInstance (bk_store b) iid v = (u, w')" using 2(6) by blast
    then have gone: "insts (w_store w') = (insts (w_store w))(iid := None)" using deletes_done(1) [OF del] by metis
    have "owned b (tenants_of insts binds w') \<subseteq> set (objects (accepted w'))"
      using owned_others [OF inv [unfolded tenants_of_def] 2(1) here]
      by (simp add: tenants_of_def gone 2(2,3) objects_after)
    then show ?thesis
      by (rule isolation_dropped [OF inv tinv, rotated -1]) (auto simp: tenants_of_def gone 2(3) map_le_def)
  qed
qed

lemma unbind_isolated:
  assumes dep: "deployed cfg srv b insts binds" and del: "deletes_work (st_db (bk_store b)) insts binds"
    and inv: "isolation_inv b (tenants_of insts binds w) (accepted w)" and here: "binds (w_store w) bid = Some v"
    and user: "bi_Username e = br_Username v"
    and tinv: "tenant_inv b (tenants_of insts binds w')" and run: "do_unbind b iid bid i e w = (r, w')"
  shows "isolation_inv b (tenants_of insts binds w') (accepted w')"
proof -
  note parts = deployed_parts [OF dep] and ok = deployed_ok [OF dep]
  have owned: "x \<in> owned b (tenants_of insts binds w) \<Longrightarrow> x \<in> set (objects (accepted w))" for x
    using inv by (auto simp: isolation_inv_def)
  have "bind_ok b (insts (w_store w)) bid v" using inv here by (simp add: isolation_inv_def tenant_inv_def tenants_of_def)
  from bind_ok_user [OF ok this] have "list_all name_char (bi_Username e)" by (simp add: user)
  with run ok show ?thesis
  proof (cases rule: broker_parts.do_unbind_steps [OF parts, consumes 3])
    case (1 nms k x)
    have "y \<in> set (objects (accepted w'))" if "y \<in> owned b (tenants_of insts binds w)" for y
      unfolding 1(5)
      by (cases "y = (''pg_roles'', bi_Username e)")
        (use role_goes_last(2) [OF owned [OF that] 1(6)] objects_kept_by(5) [OF owned [OF that]] in blast)+
    then have "isolation_inv b (tenants_of insts binds w) (accepted w')" by (intro isolation_same [OF inv] subsetI)
    then show ?thesis using 1(3) by (simp add: tenants_of_def)
  next
    case (2 nms)
    obtain u v' where "w_store v' = w_store w" "DeleteBinding (bk_store b) bid v' = (u, w')" using 2(6) by blast
    then have gone: "binds (w_store w') = (binds (w_store w))(bid := None)" using deletes_done(2) [OF del] by metis
    have "owned b (tenants_of insts binds w') \<subseteq> set (objects (accepted w'))"
      using owned_others_user [OF inv [unfolded tenants_of_def] here]
      by (simp add: tenants_of_def gone 2(2,3) objects_after user)
    then show ?thesis
      by (rule isolation_dropped [OF inv tinv, rotated -1]) (auto simp: tenants_of_def gone 2(3) map_le_def)
  qed
qed

section \<open>Every request keeps it\<close>

lemma same_tables_isolated:
  assumes "same_tables insts binds w w'" and "isolation_inv b (tenants_of insts binds w) (accepted w)"
  shows "isolation_inv b (tenants_of insts binds w') (accepted w')"
  using quiet_step [OF assms(2)] same_tables_quiet [OF assms(1)] by blast

lemma same_tables_rows:
  "same_tables insts binds w w' \<Longrightarrow> insts (w_store w') = insts (w_store w) \<and> binds (w_store w') = binds (w_store w)"
  by (simp add: same_tables_def)

lemma handle_isolated:
  assumes dep: "deployed cfg srv b insts binds" and srv: "honest srv" and del: "deletes_work (st_db (bk_store b)) insts binds"
    and inv: "isolation_inv b (tenants_of insts binds w) (accepted w)" and run: "handle b rq w = (r, w')"
  shows "isolation_inv b (tenants_of insts binds w') (accepted w')"
proof -
  note parts = deployed_parts [OF dep] and ok = deployed_ok [OF dep]
  note quiet = same_tables_isolated [OF _ inv] and rows = same_tables_rows [of insts binds]
  have "tenant_inv b (tenants_of insts binds w)" using inv by (simp add: isolation_inv_def)
  with broker_parts.refines [OF parts ok this run] have tinv: "tenant_inv b (tenants_of insts binds w')"
    using tenant_step_inv by metis
  show ?thesis
  proof (cases rq)
    case (ProvisionReq iid d)
    then obtain x where "Broker_Provision b iid d w = (x, w')" using run by (auto simp: respond_eq)
    then show ?thesis
    proof (cases rule: broker_parts.provision_steps [OF parts, consumes 1])
      case (4 p spec w1)
      note clean = clean_spec_within [OF provision_request_within(2) [OF ok 4(1)]]
      show ?thesis
        by (rule provision_isolated [OF dep srv quiet [OF 4(3)] _ tinv clean 4(4)]) (use rows [OF 4(3)] 4(2) in simp)
    qed (use quiet inv in auto)
  next
    case (UpdateReq iid d)
    then obtain x where "Broker_Update b iid d w = (x, w')" using run by (auto simp: respond_eq)
    then show ?thesis
    proof (cases rule: broker_parts.update_steps [OF parts, consumes 1])
      case (5 i i' w1)
      show ?thesis
        by (rule update_isolated [OF dep quiet [OF 5(3)] _ tinv 5(1) 5(4)]) (use rows [OF 5(3)] 5(2) in simp)
    qed (use quiet inv in auto)
  next
    case (DeprovisionReq iid sid)
    then obtain x where "Broker_Deprovision b iid sid w = (x, w')" using run by (auto simp: respond_eq)
    then show ?thesis
    proof (cases rule: broker_parts.deprovision_steps [OF parts, consumes 1])
      case (5 i w1)
      show ?thesis
        by (rule deprovision_isolated [OF dep del quiet [OF 5(3)] _ tinv 5(4)]) (use rows [OF 5(3)] 5(1) in simp)
    qed (use quiet inv in auto)
  next
    case (BindReq iid bid d)
    then obtain x where "Broker_Bind b iid bid d w = (x, w')" using run by (auto simp: respond_eq)
    then show ?thesis
    proof (cases rule: broker_parts.bind_steps [OF parts, consumes 1])
      case (5 spec i w1)
      show ?thesis
        by (rule bind_isolated [OF dep srv quiet [OF 5(4)] _ tinv 5(5)]) (use rows [OF 5(4)] 5(3) in simp)
    qed (use quiet inv in auto)
  next
    case (UnbindReq iid bid sid)
    then obtain x where "Broker_Unbind b iid bid sid w = (x, w')" using run by (auto simp: respond_eq)
    then show ?thesis
    proof (cases rule: broker_parts.unbind_steps [OF parts, consumes 1])
      case (4 i v e w1)
      have user: "bi_Username e = br_Username v" using 4(4) by (auto simp: binding_info_def)
      show ?thesis
        by (rule unbind_isolated [OF dep del quiet [OF 4(5)] _ user tinv 4(6)]) (use rows [OF 4(5)] 4(2) in simp)
    qed (use quiet inv in auto)
  qed
qed

lemma runs_isolated:
  assumes "deployed cfg srv b insts binds" and "honest srv" and "deletes_work (st_db (bk_store b)) insts binds"
    and "broker_runs b w w'" and "isolation_inv b (tenants_of insts binds w) (accepted w)"
  shows "isolation_inv b (tenants_of insts binds w') (accepted w')"
  using assms(4,5)
proof (induction rule: rtranclp_induct)
  case (step w1 w2)
  from step(2) step(3) [OF step(4)] show ?case
  proof (cases rule: broker_step.cases)
    case (served rq r)
    then show ?thesis using handle_isolated [OF assms(1-3) step(3) [OF step(4)]] by blast
  next
    case (entropy pool)
    then show ?thesis using step(3) [OF step(4)] by (simp add: tenants_of_def accepted_def)
  qed
qed

section \<open>Properties\<close>

text \<open>
  Claim C4. Tenants are isolated. On a server that does not deny the objects it has accepted, with
  a state database whose deletes take effect, in every world reached from an empty state
  database, whatever fails on the way: two stored instances have different databases, group
  roles and tablespaces, two stored bindings have different users, and the group role of each
  instance and the user of each binding are still on the server.
\<close>

theorem tenants_isolated:
  assumes "deployed cfg srv b insts binds" and "honest srv" and "deletes_work (st_db (bk_store b)) insts binds"
    and "tenants_of insts binds w = (Map.empty, Map.empty)" and "broker_runs b w w'"
  shows "(\<forall>k i nms. insts (w_store w') k = Some i \<longrightarrow> NamesFor k (NamePrefix cfg) (ip_Name (ir_Params i)) = Some nms \<longrightarrow>
        (''pg_roles'', n_GroupRole nms) \<in> set (objects (accepted w'))
      \<and> (\<forall>k' i' nms'. insts (w_store w') k' = Some i' \<longrightarrow> k' \<noteq> k
          \<longrightarrow> NamesFor k' (NamePrefix cfg) (ip_Name (ir_Params i')) = Some nms'
          \<longrightarrow> n_Database nms' \<noteq> n_Database nms \<and> n_GroupRole nms' \<noteq> n_GroupRole nms
            \<and> n_Tablespace nms' \<noteq> n_Tablespace nms))
    \<and> (\<forall>k v. binds (w_store w') k = Some v \<longrightarrow> (''pg_roles'', br_Username v) \<in> set (objects (accepted w'))
      \<and> (\<forall>k' v'. binds (w_store w') k' = Some v' \<longrightarrow> k' \<noteq> k \<longrightarrow> br_Username v' \<noteq> br_Username v))"
proof -
  have "isolation_inv b (tenants_of insts binds w) (accepted w)" unfolding assms(4) by (rule isolation_inv_empty)
  then have inv: "isolation_inv b (insts (w_store w'), binds (w_store w')) (accepted w')"
    using runs_isolated [OF assms(1-3,5)] by (simp add: tenants_of_def)
  then have owned: "x \<in> owned b (insts (w_store w'), binds (w_store w')) \<Longrightarrow> x \<in> set (objects (accepted w'))" for x
    by (auto simp: isolation_inv_def)
  have cfg: "bk_cfg b = cfg" using assms(1) by (simp add: deployed_def)
  show ?thesis
  proof (intro conjI allI impI)
    fix k i nms
    assume i: "insts (w_store w') k = Some i" and nms: "NamesFor k (NamePrefix cfg) (ip_Name (ir_Params i)) = Some nms"
    show "(''pg_roles'', n_GroupRole nms) \<in> set (objects (accepted w'))"
      by (rule owned [OF owned_instance]) (use i nms cfg in simp_all)
    fix k' i' nms'
    assume i': "insts (w_store w') k' = Some i'" "k' \<noteq> k"
      and nms': "NamesFor k' (NamePrefix cfg) (ip_Name (ir_Params i')) = Some nms'"
    have "inst_ok b k i" "inst_ok b k' i'" "ir_Database i' \<noteq> ir_Database i"
      using inv i i' unfolding isolation_inv_def tenant_inv_def isolated_def by fastforce+
    then have db: "n_Database nms' \<noteq> n_Database nms"
      using inst_names [of b k i nms] inst_names [of b k' i' nms'] nms nms' by (simp add: cfg)
    show "n_Database nms' \<noteq> n_Database nms" by (rule db)
    show "n_GroupRole nms' \<noteq> n_GroupRole nms" using names_determined(1) [OF nms' nms] db by simp
    show "n_Tablespace nms' \<noteq> n_Tablespace nms" using names_determined(2) [OF nms' nms] db by simp
  next
    fix k v assume v: "binds (w_store w') k = Some v"
    show "(''pg_roles'', br_Username v) \<in> set (objects (accepted w'))"
      by (rule owned [OF owned_binding]) (use v in simp)
    fix k' v' assume "binds (w_store w') k' = Some v'" "k' \<noteq> k"
    then show "br_Username v' \<noteq> br_Username v"
      using inv v unfolding isolation_inv_def isolated_def by fastforce
  qed
qed

text \<open>
  Claim C30. A record that outlives its objects breaks the isolation: when the delete of the record
  fails after the removal of the database was accepted, a second tenant can take the name; the
  retry of the first removal then succeeds and drops the second tenant's database, while its
  record stays.
\<close>

theorem stale_record_removes_other_tenant:
  assumes B: "B = sql_broker cfg catalog_server data env e validate" and ok: "broker_ok B"
    and faults: "t_faults (w_store w) = [None, None, Some (x, False)]" and here: "inst_rows (w_store w) iid = Some i"
    and none: "\<forall>r\<in>ran (bind_rows (w_store w)). br_InstanceID r \<noteq> iid"
    and other: "iid' \<noteq> iid" "inst_rows (w_store w) iid' = None"
    and rq: "provision_request B d p spec" and pw: "randomPassword (w_pool w) = Some (pw, pool)"
    and names: "NamesFor iid (NamePrefix cfg) (ip_Name (ir_Params i)) = Some nms"
      "NamesFor iid' (NamePrefix cfg) (ip_Name spec) = Some nms"
  shows "\<exists>w1 w2 w3. Broker_Deprovision B iid (s_ServiceID (Service data)) w = (Err (PassThrough (External x)), w1)
     \<and> Broker_Provision B iid' d w1 = (Ok False, w2) \<and> tenant_objects nms \<subseteq> set (objects (accepted w2))
     \<and> Broker_Deprovision B iid (s_ServiceID (Service data)) w2 = (Ok (), w3)
     \<and> inst_rows (w_store w3) iid' \<noteq> None \<and> tenant_objects nms \<inter> set (objects (accepted w3)) = {}"
proof -
  note srv = catalog_server_obliging
  let ?at = "\<lambda>fs. w\<lparr>w_store := (w_store w)\<lparr>t_faults := fs\<rparr>\<rparr>"
  have get: "GetInstance (sql_store e) iid w = (Ok (Some i), ?at [None, Some (x, False)])"
    using read_faults(1) [OF faults] here by simp
  have list: "BindingsForInstance (sql_store e) iid (?at [None, Some (x, False)]) = (Ok [], ?at [Some (x, False)])"
    using read_faults(2) [of "?at [None, Some (x, False)]" "[Some (x, False)]" iid e] none by (simp add: rows_faults)
  from accepted_removal [OF B srv ok get list] obtain v n
    where n: "NamesFor iid (NamePrefix cfg) (ip_Name (ir_Params i)) = Some n"
      and v: "accepted v = accepted w @ deprovision_trace (connURL cfg) (bk_admin B) n"
        "w_store v = (w_store w)\<lparr>t_faults := [Some (x, False)]\<rparr>" "w_pool v = w_pool w"
      and d1: "Broker_Deprovision B iid (s_ServiceID (Service data)) w = pass (DeleteInstance (sql_store e) iid) v"
    by (auto simp: accepted_store)
  define w1 where "w1 = v\<lparr>w_store := (w_store w)\<lparr>t_faults := []\<rparr>\<rparr>"
  have "n = nms" using n names(1) by simp
  have d1: "Broker_Deprovision B iid (s_ServiceID (Service data)) w = (Err (PassThrough (External x)), w1)"
    using d1 delete_fault [of v x "[]" e iid] v(2) by (simp add: pass_apply w1_def)
  have s1: "t_faults (w_store w1) = []" "inst_rows (w_store w1) = inst_rows (w_store w)"
    "bind_rows (w_store w1) = bind_rows (w_store w)" "w_pool w1 = w_pool w"
    by (simp_all add: w1_def rows_faults v(3))
  have free: "set (objects (accepted w1)) \<inter> tenant_objects nms = {}"
    using v(1) \<open>n = nms\<close> by (simp add: w1_def accepted_store objects_after) blast
  have "GetInstance (sql_store e) iid' w1 = (Ok None, w1)" using s1 other(2) by (simp add: sql_calls)
  moreover have "randomPassword (w_pool w1) = Some (pw, pool)" using pw s1 by simp
  moreover have "unseen_names catalog_server (accepted w1) m"
    if "NamesFor iid' (NamePrefix cfg) (ip_Name spec) = Some m" for m
    using that names(2) free by (intro catalog_server_unseen_names) auto
  ultimately obtain u where u: "accepted u = accepted w1 @ provision_trace (connURL cfg) (bk_admin B) nms spec pw"
      "w_store u = w_store w1"
      and p: "Broker_Provision B iid' d w1
        = seq (pass (PutInstance (sql_store e) iid' (new_instance B p spec nms))) (\<lambda>_. ret False) u"
    using accepted_provision [OF B srv ok rq] names(2) by fastforce
  define j where "j = (new_instance B p spec nms)\<lparr>ir_InstanceID := iid'\<rparr>"
  define w2 where "w2 = u\<lparr>w_store := put_inst j (w_store w1)\<rparr>"
  have p: "Broker_Provision B iid' d w1 = (Ok False, w2)"
    using p s1(1) u(2) by (simp add: seq_def pass_apply sql_calls w2_def j_def)
  have acc2: "tenant_objects nms \<subseteq> set (objects (accepted w2))"
    using u(1) by (simp add: w2_def accepted_store objects_after)
  have s2: "t_faults (w_store w2) = []" "inst_rows (w_store w2) iid = Some i"
    "\<forall>r\<in>ran (bind_rows (w_store w2)). br_InstanceID r \<noteq> iid" "inst_rows (w_store w2) iid' = Some j"
    using s1 here none other(1) by (simp_all add: w2_def j_def)
  from accepted_deprovision [OF B srv ok s2(1-3)] obtain w3 m
    where d2: "Broker_Deprovision B iid (s_ServiceID (Service data)) w2 = (Ok (), w3)"
      and w3: "w_store w3 = drop_inst iid (w_store w2)"
      and m: "NamesFor iid (NamePrefix cfg) (ip_Name (ir_Params i)) = Some m"
      and acc3: "accepted w3 = accepted w2 @ deprovision_trace (connURL cfg) (bk_admin B) m" by blast
  have "m = nms" using m names(1) by simp
  then have "tenant_objects nms \<inter> set (objects (accepted w3)) = {}" unfolding acc3 objects_after by blast
  moreover have "inst_rows (w_store w3) iid' \<noteq> None" using s2(4) other(1) w3 by simp
  ultimately show ?thesis using d1 p acc2 d2 by blast
qed

section \<open>The properties at concrete inputs\<close>

text \<open>A request for a tenant of a given name.\<close>

definition sample_named :: ProvisionDetails where
  "sample_named = \<lparr>pd_ServiceID = ''svc'', pd_PlanID = p_ID sample_plan,
     pd_RawParameters = ''{'' @ [CHR 0x22] @ ''name'' @ [CHR 0x22] @ '':'' @ [CHR 0x22] @ ''a'' @ [CHR 0x22] @ ''}''\<rparr>"

lemma sample_named_request:
  "provision_request sample_broker sample_named sample_plan (sample_defaults\<lparr>ip_Name := ''a''\<rparr>)"
proof -
  have "json_parse (pd_RawParameters sample_named) = Some (JObj [(''name'', JStr ''a'')])" "pd_RawParameters sample_named \<noteq> []"
    by code_simp (simp add: sample_named_def)
  then have "rawParameters (pd_RawParameters sample_named) = Ok [''name'' \<mapsto> JStr ''a'']"
    by (simp add: rawParameters_def unmarshal_any_map_def)
  moreover have "ResolveInstanceParams sample_plan [''name'' \<mapsto> JStr ''a''] = Ok (sample_defaults\<lparr>ip_Name := ''a''\<rparr>)"
    by (subst ResolveInstanceParams_Ok [OF sample_plan_exact])
      (simp add: quota_of_def sample_plan_def sample_defaults_def compatibilities_def encodings_def)
  ultimately show ?thesis
    by (simp add: provision_request_def sample_catalog_def parseParams_def ValidateParameters_def)
      (simp add: sample_named_def)
qed

definition sample_name_a :: names where
  "sample_name_a = \<lparr>n_Database = ''gdb_a'', n_GroupRole = ''gdb_a_grp'', n_Tablespace = ''gdb_a_ts''\<rparr>"

lemma sample_named_names: "NamesFor iid ''gdb'' ''a'' = Some sample_name_a"
proof -
  have "sanitizeName ''a'' 55 = Some ''a''" by code_simp
  then show ?thesis by (simp add: NamesFor_def maxIdentifier_def sample_name_a_def)
qed

text \<open>The tables with deletes that always take effect.\<close>

definition reliable_gorm :: "tables gorm" where
  "reliable_gorm = table_gorm\<lparr>g_delete_instance := (\<lambda>k d. (None, drop_inst k d)), g_delete_binding := (\<lambda>k d. (None, drop_bind k d))\<rparr>"

lemma reliable_same:
  "g_first_instance reliable_gorm = g_first_instance table_gorm"
  "g_update_instance reliable_gorm = g_update_instance table_gorm"
  "g_create_instance reliable_gorm = g_create_instance table_gorm"
  "g_first_binding reliable_gorm = g_first_binding table_gorm"
  "g_update_binding reliable_gorm = g_update_binding table_gorm"
  "g_create_binding reliable_gorm = g_create_binding table_gorm"
  "g_bindings_of reliable_gorm = g_bindings_of table_gorm"
  "g_all_bindings reliable_gorm = g_all_bindings table_gorm"
  "g_set_credentials reliable_gorm = g_set_credentials table_gorm"
  by (simp_all add: reliable_gorm_def)

lemmas table_laws = gorm_db.first_instance gorm_db.update_instance gorm_db.create_instance gorm_db.first_binding
  gorm_db.update_binding gorm_db.create_binding gorm_db.bindings_of gorm_db.all_bindings gorm_db.set_credentials
  gorm_db.binding_key

lemma reliable_gorm_db: "gorm_db reliable_gorm inst_rows bind_rows"
proof (rule gorm_db.intro, unfold reliable_same)
qed ((rule table_laws [OF table_gorm_db]; assumption) | (simp add: reliable_gorm_def wrote_def; fail)
      | (auto simp: reliable_gorm_def wrote_def; fail))+

lemma reliable_deletes: "deletes_work reliable_gorm inst_rows bind_rows"
  by (simp add: deletes_work_def reliable_gorm_def)

definition reliable_broker :: "tables broker" where
  "reliable_broker = sample_broker\<lparr>bk_store := \<lparr>st_db = reliable_gorm, st_encryptor = NoopEncryptor\<rparr>\<rparr>"

lemma reliable_deployed: "deployed sample_cfg catalog_server reliable_broker inst_rows bind_rows"
  using sample_deployed reliable_gorm_db by (simp add: deployed_def reliable_broker_def broker_ok_def)

lemma reliable_provision: "Broker_Provision reliable_broker iid d w = Broker_Provision sample_broker iid d w"
proof -
  have "GetInstance (bk_store reliable_broker) = GetInstance (bk_store sample_broker)"
    "PutInstance (bk_store reliable_broker) = PutInstance (bk_store sample_broker)"
    by (simp_all add: fun_eq_iff GetInstance_def PutInstance_def reliable_broker_def reliable_gorm_def sql_store_def)
  moreover have "bk_cfg reliable_broker = bk_cfg sample_broker" "bk_catalog reliable_broker = bk_catalog sample_broker"
    "bk_admin reliable_broker = bk_admin sample_broker" "bk_validate reliable_broker = bk_validate sample_broker"
    by (simp_all add: reliable_broker_def)
  ultimately show ?thesis
    unfolding Broker_Provision_def check_service_def Broker_plan_def Broker_names_def by (simp only:)
qed

text \<open>Two tenants: one under the name derived from its id, one under a name of its own.\<close>

lemma sample_two_tenants:
  "\<exists>w1 w2 i j nms. Broker_Provision sample_broker ''i'' sample_details sample_start = (Ok False, w1)
    \<and> Broker_Provision sample_broker ''j'' sample_named w1 = (Ok False, w2)
    \<and> inst_rows (w_store w2) = [''i'' \<mapsto> i, ''j'' \<mapsto> j] \<and> bind_rows (w_store w2) = Map.empty
    \<and> NamesFor ''i'' ''gdb'' (ip_Name (ir_Params i)) = Some nms
    \<and> NamesFor ''j'' ''gdb'' (ip_Name (ir_Params j)) = Some sample_name_a"
proof -
  define i where "i = (\<lambda>nms. (new_instance sample_broker sample_plan sample_defaults nms)\<lparr>ir_InstanceID := ''i''\<rparr>)"
  obtain w1 nms where p: "Broker_Provision sample_broker ''i'' sample_details sample_start = (Ok False, w1)"
    and s: "w_store w1 = put_inst (i nms) (w_store sample_start)"
    and pool: "w_pool w1 = sample_pool @ replicate 12 (CHR ''n'')"
    and nms: "NamesFor ''i'' ''gdb'' [] = Some nms" and objs: "set (objects (accepted w1)) = tenant_objects nms"
    using sample_provisioned unfolding i_def by blast
  have s1: "t_faults (w_store w1) = []" "inst_rows (w_store w1) = [''i'' \<mapsto> i nms]" "bind_rows (w_store w1) = Map.empty"
    using s sample_start_facts by (simp_all add: i_def)
  have get: "GetInstance (sql_store NoopEncryptor) ''j'' w1 = (Ok None, w1)" using s1 by (simp add: sql_calls)
  have pw: "randomPassword (w_pool w1) = Some (''aA0!'' @ replicate 24 CHR ''a'', replicate 12 (CHR ''n''))"
    using pool sample_passwords by simp
  have "length (n_Database nms) = 16" using nms by (auto simp: NamesFor_def maxIdentifier_def sanitizeName_def to_lower_def)
  then have "n_Database nms \<noteq> ''gdb_a''" by auto
  then have apart: "tenant_objects nms \<inter> tenant_objects sample_name_a = {}"
    using names_determined [OF nms sample_named_names [of "''j''"]]
    by (auto simp: tenant_objects_def sample_name_a_def)
  define j where "j = (new_instance sample_broker sample_plan (sample_defaults\<lparr>ip_Name := ''a''\<rparr>) sample_name_a)\<lparr>ir_InstanceID := ''j''\<rparr>"
  have "unseen_names catalog_server (accepted w1) n"
    if "NamesFor ''j'' (NamePrefix sample_cfg) (ip_Name (sample_defaults\<lparr>ip_Name := ''a''\<rparr>)) = Some n" for n
    using that apart sample_named_names objs by (intro catalog_server_unseen_names) (simp add: sample_cfg_def)
  from accepted_provision [OF sample_broker_def catalog_server_obliging sample_broker_ok sample_named_request pw get this]
  obtain v where v: "w_store v = w_store w1"
      and q: "Broker_Provision sample_broker ''j'' sample_named w1 = seq (pass (PutInstance
        (sql_store NoopEncryptor) ''j'' (new_instance sample_broker sample_plan (sample_defaults\<lparr>ip_Name := ''a''\<rparr>) sample_name_a)))
          (\<lambda>_. ret False) v"
    using sample_named_names [of "''j''"] by (auto simp: sample_cfg_def)
  have "t_faults (w_store v) = []" using v s1 by simp
  then have q: "Broker_Provision sample_broker ''j'' sample_named w1 = (Ok False, v\<lparr>w_store := put_inst j (w_store w1)\<rparr>)"
    using q v by (simp add: seq_def pass_apply sql_calls(1) j_def)
  have "inst_rows (put_inst j (w_store w1)) = [''i'' \<mapsto> i nms, ''j'' \<mapsto> j]" "bind_rows (put_inst j (w_store w1)) = Map.empty"
    using s1 by (simp_all add: j_def)
  moreover have "NamesFor ''i'' ''gdb'' (ip_Name (ir_Params (i nms))) = Some nms"
    "NamesFor ''j'' ''gdb'' (ip_Name (ir_Params j)) = Some sample_name_a"
    using nms sample_named_names by (simp_all add: i_def j_def new_instance_def sample_defaults_def)
  ultimately show ?thesis using p q
    by (intro exI [of _ w1] exI [of _ "v\<lparr>w_store := put_inst j (w_store w1)\<rparr>"] exI [of _ "i nms"] exI [of _ j] exI [of _ nms])
      simp
qed

theorem tenants_isolated_witness:
  "\<exists>w1 w2 i nms. Broker_Provision reliable_broker ''i'' sample_details sample_start = (Ok False, w1)
     \<and> Broker_Provision reliable_broker ''j'' sample_named w1 = (Ok False, w2)
     \<and> inst_rows (w_store w2) ''i'' = Some i \<and> NamesFor ''i'' ''gdb'' (ip_Name (ir_Params i)) = Some nms
     \<and> n_Database nms \<noteq> ''gdb_a'' \<and> (''pg_roles'', ''gdb_a_grp'') \<in> set (objects (accepted w2))"
proof -
  obtain w1 w2 i j nms where p: "Broker_Provision sample_broker ''i'' sample_details sample_start = (Ok False, w1)"
      "Broker_Provision sample_broker ''j'' sample_named w1 = (Ok False, w2)"
    and rows: "inst_rows (w_store w2) = [''i'' \<mapsto> i, ''j'' \<mapsto> j]"
    and names: "NamesFor ''i'' ''gdb'' (ip_Name (ir_Params i)) = Some nms"
      "NamesFor ''j'' ''gdb'' (ip_Name (ir_Params j)) = Some sample_name_a"
    using sample_two_tenants by blast
  have "handle reliable_broker (ProvisionReq ''i'' sample_details) sample_start = (Ok (Provisioned False), w1)"
    "handle reliable_broker (ProvisionReq ''j'' sample_named) w1 = (Ok (Provisioned False), w2)"
    using p by (simp_all add: respond_eq reliable_provision)
  then have run: "broker_runs reliable_broker sample_start w2"
    using broker_step.served by (metis rtranclp.rtrancl_into_rtrancl r_into_rtranclp)
  have start: "tenants_of inst_rows bind_rows sample_start = (Map.empty, Map.empty)"
    by (simp add: tenants_of_def sample_start_facts)
  have del: "deletes_work (st_db (bk_store reliable_broker)) inst_rows bind_rows"
    using reliable_deletes by (simp add: reliable_broker_def)
  have cfg: "NamePrefix sample_cfg = ''gdb''" by (simp add: sample_cfg_def)
  note safe = conjunct1 [OF tenants_isolated [OF reliable_deployed catalog_server_honest del start run, unfolded cfg]]
  have i: "inst_rows (w_store w2) ''i'' = Some i" and j: "inst_rows (w_store w2) ''j'' = Some j" using rows by simp_all
  have "''i'' \<noteq> ''j''" by simp
  with safe j names(2) have "(''pg_roles'', n_GroupRole sample_name_a) \<in> set (objects (accepted w2))"
    "n_Database nms \<noteq> n_Database sample_name_a"
    using i names(1) by blast+
  then have "n_Database nms \<noteq> ''gdb_a''" "(''pg_roles'', ''gdb_a_grp'') \<in> set (objects (accepted w2))"
    by (simp_all add: sample_name_a_def)
  then show ?thesis using p i names(1) by (auto simp: reliable_provision)
qed

text \<open>A stored tenant of the same name, in tables whose third call fails.\<close>

definition sample_stale :: "tables world" where
  "sample_stale = tables_world sample_pool \<lparr>t_insts = [(''i'', \<lparr>ir_InstanceID = ''i'', ir_ServiceID = ''svc'',
       ir_PlanID = p_ID sample_plan, ir_Database = ''gdb_a'', ir_Params = sample_defaults\<lparr>ip_Name := ''a''\<rparr>\<rparr>)],
     t_binds = [], t_faults = [None, None, Some (''disk full'', False)]\<rparr>"

theorem stale_record_removes_other_tenant_witness:
  "\<exists>w1 w2 w3. Broker_Deprovision sample_broker ''i'' ''svc'' sample_stale = (Err (PassThrough (External ''disk full'')), w1)
     \<and> Broker_Provision sample_broker ''j'' sample_named w1 = (Ok False, w2)
     \<and> (''pg_database'', ''gdb_a'') \<in> set (objects (accepted w2))
     \<and> Broker_Deprovision sample_broker ''i'' ''svc'' w2 = (Ok (), w3)
     \<and> inst_rows (w_store w3) ''j'' \<noteq> None \<and> (''pg_database'', ''gdb_a'') \<notin> set (objects (accepted w3))"
proof -
  have faults: "t_faults (w_store sample_stale) = [None, None, Some (''disk full'', False)]"
    and none: "\<forall>r\<in>ran (bind_rows (w_store sample_stale)). br_InstanceID r \<noteq> ''i''"
      "inst_rows (w_store sample_stale) ''j'' = None"
    and pool: "w_pool sample_stale = sample_pool"
    by (simp_all add: sample_stale_def inst_rows_def bind_rows_def ran_def)
  obtain i where i: "inst_rows (w_store sample_stale) ''i'' = Some i" "ip_Name (ir_Params i) = ''a''"
    by (auto simp: sample_stale_def inst_rows_def)
  have pw: "randomPassword (w_pool sample_stale) = Some (''aA0!'' @ replicate 24 CHR ''a'', [])"
    using sample_passwords [of "[]"] pool by simp
  have names: "NamesFor iid (NamePrefix sample_cfg) ''a'' = Some sample_name_a" for iid
    using sample_named_names by (simp add: sample_cfg_def)
  then have n1: "NamesFor ''i'' (NamePrefix sample_cfg) (ip_Name (ir_Params i)) = Some sample_name_a"
    and n2: "NamesFor ''j'' (NamePrefix sample_cfg) (ip_Name (sample_defaults\<lparr>ip_Name := ''a''\<rparr>)) = Some sample_name_a"
    using i(2) by simp_all
  have svc: "s_ServiceID (Service sample_catalog) = ''svc''" by (simp add: sample_catalog_def)
  have db: "(''pg_database'', ''gdb_a'') \<in> tenant_objects sample_name_a" by (simp add: tenant_objects_def sample_name_a_def)
  have ids: "''j'' \<noteq> ''i''" by simp
  show ?thesis
    using stale_record_removes_other_tenant [OF sample_broker_def sample_broker_ok faults i(1) none(1) ids none(2)
        sample_named_request pw n1 n2, unfolded svc] db by blast
qed

end
