(* ===== verification/Spec2Isabelle.thy ===== *)
theory Spec2Isabelle
  imports Serving Isolation
begin

text \<open>
  Verification library of the openGauss service broker.

  The program. A platform (Cloud Foundry, Kubernetes) asks the broker to provision, update,
  bind, unbind and deprovision service instances. The broker keeps a record of every instance
  and binding in a state database, and makes the change on an openGauss server by SQL
  templates. \<open>main.go\<close> reads the configuration and the plan catalog, opens the state
  database and, when a key is being retired, rotates it; then it serves until a signal stops
  it: the health probe on its own route, everything else through brokerapi. A request goes
  through a handler of \<open>broker.go\<close>: it checks service and plan, validates the parameters
  (\<open>params.go\<close>, \<open>validate.go\<close>), looks the record up (\<open>state.go\<close>), derives the names of the
  database objects (\<open>names.go\<close>), has the SQL run (\<open>gaussdb.go\<close>, which renders templates by
  \<open>templates.go\<close> and sends them through \<open>driver.go\<close>), and writes the record, with the
  credentials of a binding encrypted (\<open>encrypt.go\<close>).

  The shape of the model. A Go call ends with a value, an error or a panic: type \<open>go\<close> of
  \<open>Prelude\<close>. Code with effects is an action, a function from the world to an outcome and the
  next world, composed by \<open>seq\<close> the way the code returns at the first error; what was done
  before an error stays done. The world (\<open>Driver\<close>) has three parts: the history of the
  exchange with the server, the entropy left, and the state database. Strings are byte lists
  as in Go (\<open>char list\<close>), \<open>int\<close> stands for Go's int in the quotas and ports, with the
  conversions from float64 written out. Operations carry the source's names; where two
  components share one, the component's name is put first (\<open>Admin_Bind\<close>, \<open>Broker_Bind\<close>).

  The theories.

  \<^item> \<open>Prelude\<close>: outcomes, actions, generic lemmas, the collection \<open>act_simps\<close>.
  \<^item> \<open>Go_Strings\<close>, \<open>Go_Sha256\<close>, \<open>Go_Float\<close>, \<open>Go_Json\<close>, \<open>Go_Base64\<close>, \<open>Go_Aes_Gcm\<close>: what the source
    uses of the Go library: UTF-8 decoding, splitting, trimming, number and hex text, URL
    escaping; SHA-256; rounding to float64; the JSON decoder and the encoder of string maps,
    with their round trip; base64 with its round trip; AES-256-GCM.
  \<^item> \<open>Names\<close> (\<open>names.go\<close>): names, quoting, passwords. The lemmas bound the names, separate users
    from tenant objects, read quoted text back, and describe the password loop.
  \<^item> \<open>Config\<close> (\<open>config.go\<close>): \<open>LoadConfig\<close>, exactly when it succeeds and what it guarantees.
  \<^item> \<open>Errors\<close>: one constructor per place of the source that makes an error, and the answers
    of the API.
  \<^item> \<open>Plans\<close> (\<open>plans.go\<close>, the schemas of \<open>params.go\<close>): loading, validating, publishing the catalog.
  \<^item> \<open>Params\<close> (\<open>params.go\<close>, \<open>validate.go\<close>, \<open>parseParams\<close>): resolving a request; the schema and the
    resolver agree.
  \<^item> \<open>Templates\<close> (\<open>templates.go\<close>, \<open>templates/opengauss\<close>): the eight templates as they are in the
    repository, and that they render to the intended statements.
  \<^item> \<open>Driver\<close> (\<open>driver.go\<close>): connection URL, and the cuts with which \<open>net/url\<close> reads it back;
    \<open>Exec\<close>, \<open>Exists\<close>, \<open>Ping\<close>; locale \<open>db_contract\<close>, what a batch has had accepted.
  \<^item> \<open>Admin\<close> (\<open>gaussdb.go\<close>): the five operations on a tenant with their rollbacks; locale
    \<open>admin_contract\<close>, over any implementation of \<open>DB\<close> with the contract.
  \<^item> \<open>Encrypt\<close> (\<open>encrypt.go\<close>): keys and the two encryptors; locale \<open>encryptor_contract\<close>.
  \<^item> \<open>Store\<close> (\<open>state.go\<close>): all operations on the state database; locale \<open>gorm_db\<close>, the laws of
    GORM, \<open>store_contract\<close>, what the broker relies on, and a sublocale that gets the second from
    the first; what a read by key answers, a fault of the database included; the outcome of
    key rotation.
  \<^item> \<open>Tables\<close>: two tables in memory whose calls may fail, before or after their effect, as a
    list of faults says. They keep the laws, which shows that the laws can hold.
  \<^item> \<open>Broker\<close> (\<open>broker.go\<close>): the handlers; locale \<open>broker_parts\<close>, every way a handler can end.
  \<^item> \<open>Catalog\<close>: the databases, roles and tablespaces that the statements accepted so far have
    created and not dropped; what each batch does to them; honest servers, which do not deny
    them when \<open>Exists\<close> asks, and the catalog server, which answers from them.
  \<^item> \<open>Tenants\<close>: the abstract machine, with instances and bindings by id and five kinds of
    step; its invariant; the handlers refine it.
  \<^item> \<open>Lifecycle\<close>: the broker as deployed, on the driver, any server and any database keeping
    the laws: runs, and the properties of the requests.
  \<^item> \<open>Answers\<close>: the reading requests report the tables or the fault of the read, and every request
    is answered in its own kind.
  \<^item> \<open>Isolation\<close>: no two records share a name on the server. The group role of a tenant is created
    first and dropped last, so it is there while the record is; the invariant carries this
    through every request. A record that outlives its objects is what breaks it.
  \<^item> \<open>Startup\<close> (\<open>main.go\<close>): the start and the health probe.
  \<^item> \<open>Serving\<close> (\<open>main.go\<close>): the routes of \<open>newHandler\<close>, and \<open>main\<close> from the start to its exit, as a
    fold over what happens to the process.

  Concurrency. The mutating handlers hold one lock, so each is one step of \<open>broker_step\<close>; the
  reading handlers are one read each. Between two steps the entropy may be refilled. The
  server and the state database may fail at any call, and a failed write may have happened.

  Bounds and fuel. The recursive-descent JSON decoder carries fuel for the kernel; the length of
  the input is enough, as each step consumes a byte, and is what the callers pass. The nesting
  limit of \<open>encoding/json\<close> is modelled as such. The password loop is recursion on the entropy,
  a finite list of bytes: when it is used up the source fails, which the code answers with a
  panic. Every other loop is structural recursion.

  Parameters, for code that is not in the repository: the server with the driver package (a
  record of functions from the history to the next answer, timeouts being errors it may
  give), GORM with its database (a record of calls with the laws of \<open>gorm_db\<close>), the JSON schema
  validator, brokerapi (what it makes of an HTTP request; the refusal of other credentials is the
  hypothesis \<open>authenticates\<close>), the TOML decoder, files and environment, and template actions other than a
  plain field, which only overrides in \<open>TEMPLATE_DIR\<close> could use. The properties on SQL assume
  the embedded templates and an admin user that is a plain word (\<open>admin_ready\<close>), and those on
  requests ASCII connection settings and quotas that float64 holds exactly (\<open>broker_ok\<close>).

  Not modelled: HTTP itself, the routing below \<open>/\<close> and the rendering of answers, which are net/http
  and brokerapi; a handler cut off when the process ends before it returns; requests for
  the server as a whole (\<open>OPTIONS *\<close>); logging; the effect of the SQL inside the server beyond
  whether a statement was accepted and which objects it creates or drops; the tests and the
  scan script. JSON numbers are rationals, without the negative zero of float64. The reading of
  the published JSON schemas in \<open>Params\<close> is written for the keywords they use; it states what
  they promise, while gojsonschema itself stays a parameter.
\<close>

section \<open>From the environment to the serving broker\<close>

lemma newHandler_isolated:
  assumes "deployed cfg srv b insts binds" and "honest srv" and "deletes_work (st_db (bk_store b)) insts binds"
    and "isolation_inv b (tenants_of insts binds w) (accepted w)"
    and "newHandler acfg b (NewDB srv dcfg) api r w = (reply, w')"
  shows "isolation_inv b (tenants_of insts binds w') (accepted w')"
  using assms(5)
proof (cases rule: newHandler_cases)
  case (changed rq x)
  then show ?thesis using handle_isolated [OF assms(1-4)] by blast
next
  case (told q x)
  then have "same_tables insts binds w w'"
    using ask_outcome(2) [OF deployed_stored [OF assms(1)]] by blast
  then show ?thesis using same_tables_isolated assms(4) by blast
qed (use assms(4) in \<open>simp_all add: tenants_of_def\<close>)

text \<open>
  Claim C9. End to end: whatever environment the process starts from, and whatever happens to it
  afterwards (requests on any route, failures of the server and of the state database, the
  signal), when the start succeeds with sound settings and an empty state database that keeps
  the laws of GORM, then until the database is closed the stored tenants are within their plans
  under their own names and the stored bindings belong to stored tenants with readable
  credentials for their database; and no two records share a database or a user when the
  server is honest and deletes in the state database take effect.
\<close>

theorem started_broker_safe:
  assumes "start_up env w = (Ok run, w0)"
    and "opens_gorm env insts binds"
    and "sound_settings env (run_broker run)" and "tenants_of insts binds w0 = (Map.empty, Map.empty)"
    and "main env api evs w = (ph, w1)" and "ph \<noteq> Exited 0"
  shows "tenant_inv (run_broker run) (tenants_of insts binds w1)
    \<and> (honest (o_server env) \<longrightarrow> deletes_work (st_db (bk_store (run_broker run))) insts binds \<longrightarrow>
         isolated (tenants_of insts binds w1))"
proof (intro conjI impI)
  note dep = started_deployed [OF assms(1-3)]
  have s: "serve run api evs w0 = (ph, w1)" using assms(1,5) by (simp add: main_def)
  show "tenant_inv (run_broker run) (tenants_of insts binds w1)"
  proof (rule serve_keeps [where P = "\<lambda>w. tenant_inv (run_broker run) (tenants_of insts binds w)", OF _ _ _ s assms(6)])
    show "tenant_inv (run_broker run) (tenants_of insts binds w0)" unfolding assms(4) by (rule tenant_inv_empty)
  qed (use newHandler_inv [OF dep] started_db [OF assms(1)] in \<open>auto simp: tenants_of_def\<close>)
  assume honest: "honest (o_server env)" and del: "deletes_work (st_db (bk_store (run_broker run))) insts binds"
  have "isolation_inv (run_broker run) (tenants_of insts binds w1) (accepted w1)"
  proof (rule serve_keeps [where P = "\<lambda>w. isolation_inv (run_broker run) (tenants_of insts binds w) (accepted w)",
        OF _ _ _ s assms(6)])
    show "isolation_inv (run_broker run) (tenants_of insts binds w0) (accepted w0)"
      unfolding assms(4) by (rule isolation_inv_empty)
  qed (use newHandler_isolated [OF dep honest del] started_db [OF assms(1)] in \<open>auto simp: tenants_of_def accepted_def\<close>)
  then show "isolated (tenants_of insts binds w1)" by (simp add: isolation_inv_def)
qed

text \<open>An authenticated request of the sample platform, on the way to the broker.\<close>

definition sample_put :: "config \<Rightarrow> http" where
  "sample_put cfg = \<lparr>h_method = ''PUT'', h_path = ''/v2/service_instances/i'',
     h_auth = Some (BrokerUsername cfg, BrokerPassword cfg), h_body = []\<rparr>"

theorem started_broker_safe_witness:
  "\<exists>run w1 r. start_up (sample_with catalog_server reliable_gorm) sample_start = (Ok run, sample_start)
     \<and> main (sample_with catalog_server reliable_gorm) sample_api [Arrives (sample_put (bk_cfg (run_broker run))), Interrupted]
         sample_start = (Stopping, w1)
     \<and> handle (run_broker run) (ProvisionReq ''i'' sample_details) sample_start = (r, w1)
     \<and> tenant_inv (run_broker run) (tenants_of inst_rows bind_rows w1) \<and> isolated (tenants_of inst_rows bind_rows w1)"
proof -
  let ?env = "sample_with catalog_server reliable_gorm"
  have "g_exec reliable_gorm = g_exec table_gorm" by (simp add: reliable_gorm_def)
  from sample_with_starts [OF this, of catalog_server] obtain run
    where run: "start_up ?env sample_start = (Ok run, sample_start)" "sound_settings ?env (run_broker run)"
      and store: "st_db (bk_store (run_broker run)) = reliable_gorm" by auto
  have gorm: "opens_gorm ?env inst_rows bind_rows"
    using reliable_gorm_db by (simp add: opens_gorm_def sample_with_def sample_outside_def)
  obtain r w1 where h: "handle (run_broker run) (ProvisionReq ''i'' sample_details) sample_start = (r, w1)" by fastforce
  let ?put = "sample_put (bk_cfg (run_broker run))"
  have "clean_path ''/v2/service_instances/i'' = ''/v2/service_instances/i''"
    "matched ''/v2/service_instances/i'' = ToApi" by code_simp+
  then have "route ?put = ToApi" by (simp add: route_def sample_put_def del: matched.simps)
  then have "newHandler (bk_cfg (run_broker run)) (run_broker run) (run_db run) sample_api ?put sample_start = (Changed r, w1)"
    using h by (simp add: newHandler_def sample_api_def) (simp add: sample_put_def)
  then have m: "main ?env sample_api [Arrives ?put, Interrupted] sample_start = (Stopping, w1)"
    using run(1) by (simp add: main_def serve_def)
  have start: "tenants_of inst_rows bind_rows sample_start = (Map.empty, Map.empty)"
    by (simp add: tenants_of_def sample_start_facts)
  have live: "Stopping \<noteq> Exited 0" by simp
  have "honest (o_server ?env)" using catalog_server_honest by (simp add: sample_with_def)
  moreover have "deletes_work (st_db (bk_store (run_broker run))) inst_rows bind_rows" using reliable_deletes store by simp
  moreover note started_broker_safe [OF run(1) gorm run(2) start m live]
  ultimately show ?thesis using run(1) m h by blast
qed

end
